(* ===== verification/Go_Prelude.thy ===== *)
theory Go_Prelude
  imports Main "HOL-Library.Code_Target_Nat" "HOL-Library.Char_ord" "HOL-Library.List_Lexorder"
begin

text \<open>
  What every component of the model shares: the types Go values are modelled with, the parts
  of \<^verbatim>\<open>strings\<close>, \<^verbatim>\<open>strconv\<close> and \<^verbatim>\<open>unicode\<close> the program calls, and lemmas about them.

  A Go \<^verbatim>\<open>string\<close> and a \<^verbatim>\<open>[]byte\<close> are both sequences of bytes, so both are Isabelle strings
  (a \<open>char\<close> is one byte and \<open>length\<close> is \<^verbatim>\<open>len\<close>). \<^verbatim>\<open>int\<close>, \<^verbatim>\<open>int64\<close> and \<^verbatim>\<open>time.Duration\<close> are
  64 bits wide; they are \<open>int\<close> here, with \<open>wrap64\<close> written where the program multiplies or
  adds. An error return is the left side of a sum.
\<close>

named_theorems go_string \<open>simplification rules for the Go string functions\<close>
named_theorems result_iff \<open>when a fallible step returns a value\<close>

type_synonym bytes = string
type_synonym duration = int

abbreviation byte :: "char \<Rightarrow> nat" where "byte c \<equiv> of_char c"

section \<open>Fallible steps\<close>

text \<open>\<open>bind_result m f\<close> is the \<^verbatim>\<open>if err != nil { return err }\<close> idiom.\<close>

definition bind_result :: "'e + 'a \<Rightarrow> ('a \<Rightarrow> 'e + 'b) \<Rightarrow> 'e + 'b" where
  "bind_result m f = (case m of Inl e \<Rightarrow> Inl e | Inr x \<Rightarrow> f x)"

definition of_option :: "'e \<Rightarrow> 'a option \<Rightarrow> 'e + 'a" where
  "of_option e m = (case m of None \<Rightarrow> Inl e | Some x \<Rightarrow> Inr x)"

definition ensure :: "bool \<Rightarrow> 'e \<Rightarrow> 'e + unit" where
  "ensure b e = (if b then Inr () else Inl e)"

lemma bind_result_simps [simp]:
  "bind_result (Inl e) f = Inl e"
  "bind_result (Inr x) f = f x"
  by (simp_all add: bind_result_def)

lemma of_option_simps [simp]:
  "of_option e None = Inl e"
  "of_option e (Some x) = Inr x"
  by (simp_all add: of_option_def)

lemma ensure_simps [simp]:
  "ensure True e = Inr ()"
  "ensure False e = Inl e"
  by (simp_all add: ensure_def)

lemma bind_result_Inr_iff [result_iff]:
  "bind_result m f = Inr y \<longleftrightarrow> (\<exists>x. m = Inr x \<and> f x = Inr y)"
  by (cases m) auto

lemma bind_result_Inl_iff [result_iff]:
  "bind_result m f = Inl e \<longleftrightarrow> m = Inl e \<or> (\<exists>x. m = Inr x \<and> f x = Inl e)"
  by (cases m) auto

lemma of_option_Inr_iff [result_iff]: "of_option e m = Inr x \<longleftrightarrow> m = Some x"
  by (cases m) auto

lemma of_option_Inl_iff [result_iff]: "of_option e m = Inl d \<longleftrightarrow> m = None \<and> d = e"
  by (cases m) auto

lemma ensure_Inr_iff [result_iff]: "ensure b e = Inr u \<longleftrightarrow> b"
  by (cases b) auto

lemma ensure_Inl_iff [result_iff]: "ensure b e = Inl d \<longleftrightarrow> \<not> b \<and> d = e"
  by (cases b) auto

section \<open>64-bit integers\<close>

definition wrap64 :: "int \<Rightarrow> int" where
  "wrap64 x = (x + 2 ^ 63) mod 2 ^ 64 - 2 ^ 63"

lemma wrap64_bounds: "- (2 ^ 63) \<le> wrap64 x" "wrap64 x < 2 ^ 63"
  by (simp_all add: wrap64_def)

lemma wrap64_id: "- (2 ^ 63) \<le> x \<Longrightarrow> x < 2 ^ 63 \<Longrightarrow> wrap64 x = x"
  by (simp add: wrap64_def)

text \<open>Go's \<^verbatim>\<open>/\<close> truncates towards zero.\<close>

definition go_div :: "int \<Rightarrow> int \<Rightarrow> int" where
  "go_div a b = sgn a * sgn b * (\<bar>a\<bar> div \<bar>b\<bar>)"

lemma go_div_nonneg: "0 \<le> a \<Longrightarrow> 0 < b \<Longrightarrow> go_div a b = a div b"
  by (cases "a = 0") (auto simp: go_div_def)

abbreviation second :: duration where "second \<equiv> 1000000000"
abbreviation minute :: duration where "minute \<equiv> 60000000000"
abbreviation hour :: duration where "hour \<equiv> 3600000000000"

section \<open>Prefixes, suffixes, substrings\<close>

definition has_prefix :: "string \<Rightarrow> string \<Rightarrow> bool" where
  "has_prefix s p \<longleftrightarrow> take (length p) s = p"

definition has_suffix :: "string \<Rightarrow> string \<Rightarrow> bool" where
  "has_suffix s p \<longleftrightarrow> has_prefix (rev s) (rev p)"

fun contains :: "string \<Rightarrow> string \<Rightarrow> bool" where
  "contains [] p \<longleftrightarrow> p = []"
| "contains (c # s) p \<longleftrightarrow> has_prefix (c # s) p \<or> contains s p"

definition trim_prefix :: "string \<Rightarrow> string \<Rightarrow> string" where
  "trim_prefix s p = (if has_prefix s p then drop (length p) s else s)"

definition trim_suffix :: "string \<Rightarrow> string \<Rightarrow> string" where
  "trim_suffix s p = (if has_suffix s p then take (length s - length p) s else s)"

text \<open>\<^verbatim>\<open>strings.Cut\<close> for a separator of one byte.\<close>

definition cut :: "string \<Rightarrow> char \<Rightarrow> (string \<times> string) option" where
  "cut s c = (if c \<in> set s then Some (takeWhile ((\<noteq>) c) s, tl (dropWhile ((\<noteq>) c) s)) else None)"

text \<open>\<^verbatim>\<open>strings.Split\<close> for a separator of one byte: at least one field, always.\<close>

fun split_on :: "char \<Rightarrow> string \<Rightarrow> string list" where
  "split_on c [] = [[]]"
| "split_on c (x # xs) =
     (if x = c then [] # split_on c xs
      else (case split_on c xs of f # fs \<Rightarrow> (x # f) # fs | [] \<Rightarrow> [[x]]))"

lemma has_prefix_append [simp, go_string]: "has_prefix (p @ s) p"
  by (simp add: has_prefix_def)

lemma has_prefix_Nil [simp]: "has_prefix s []"
  by (simp add: has_prefix_def)

lemma has_prefix_iff: "has_prefix s p \<longleftrightarrow> (\<exists>r. s = p @ r)"
  unfolding has_prefix_def by (metis append_eq_conv_conj append_take_drop_id)

lemma has_suffix_iff: "has_suffix s p \<longleftrightarrow> (\<exists>r. s = r @ p)"
proof -
  have "has_suffix s p \<longleftrightarrow> (\<exists>r. rev s = rev p @ r)"
    by (simp add: has_suffix_def has_prefix_iff)
  also have "\<dots> \<longleftrightarrow> (\<exists>r. s = r @ p)"
    by (metis rev_append rev_rev_ident)
  finally show ?thesis .
qed

lemma trim_prefix_append [simp]: "trim_prefix (p @ s) p = s"
  by (simp add: trim_prefix_def)

lemma contains_iff: "contains s p \<longleftrightarrow> (\<exists>a b. s = a @ p @ b)"
proof (induction s)
  case Nil
  then show ?case by auto
next
  case (Cons c s)
  show ?case
  proof
    assume "contains (c # s) p"
    then consider r where "c # s = p @ r" | a b where "s = a @ p @ b"
      using Cons.IH by (auto simp: has_prefix_iff)
    then show "\<exists>a b. c # s = a @ p @ b"
    proof cases
      case 1
      then show ?thesis by (metis append_Nil)
    next
      case 2
      then show ?thesis by (metis append_Cons)
    qed
  next
    assume "\<exists>a b. c # s = a @ p @ b"
    then obtain a b where ab: "c # s = a @ p @ b" by blast
    show "contains (c # s) p"
    proof (cases a)
      case Nil
      with ab have "has_prefix (c # s) p" by (auto simp: has_prefix_iff)
      then show ?thesis by simp
    next
      case (Cons x xs)
      with ab have "s = xs @ p @ b" by simp
      with Cons.IH show ?thesis by auto
    qed
  qed
qed

lemma cut_append:
  "c \<notin> set a \<Longrightarrow> cut (a @ c # b) c = Some (a, b)"
  by (simp add: cut_def takeWhile_append dropWhile_append)

lemma cut_Some_iff: "cut s c = Some (a, b) \<longleftrightarrow> s = a @ c # b \<and> c \<notin> set a"
proof
  assume h: "cut s c = Some (a, b)"
  then have "c \<in> set s" by (simp add: cut_def split: if_splits)
  then obtain p q where s: "s = p @ c # q" and p: "c \<notin> set p"
    by (metis split_list_first)
  then have "cut s c = Some (p, q)" by (simp add: cut_append)
  with h s p show "s = a @ c # b \<and> c \<notin> set a" by simp
next
  assume "s = a @ c # b \<and> c \<notin> set a"
  then show "cut s c = Some (a, b)" by (simp add: cut_append)
qed

section \<open>White space\<close>

text \<open>
  \<^verbatim>\<open>strings.TrimSpace\<close> removes the code points of Unicode's White\_Space property. Their UTF-8
  encodings are listed here; none is a proper prefix or suffix of another, and the lead byte
  of each is also where \<^verbatim>\<open>utf8.DecodeLastRune\<close> stops, so matching encodings at either end is
  what the rune-wise trimming does, on any bytes.
\<close>

definition ascii_space :: "char \<Rightarrow> bool" where
  "ascii_space c \<longleftrightarrow> c \<in> {CHR 0x09, CHR 0x0A, CHR 0x0B, CHR 0x0C, CHR 0x0D, CHR 0x20}"

definition wide_spaces :: "string list" where
  "wide_spaces =
    [[CHR 0xC2, CHR 0x85], [CHR 0xC2, CHR 0xA0], [CHR 0xE1, CHR 0x9A, CHR 0x80],
     [CHR 0xE2, CHR 0x80, CHR 0x80], [CHR 0xE2, CHR 0x80, CHR 0x81], [CHR 0xE2, CHR 0x80, CHR 0x82],
     [CHR 0xE2, CHR 0x80, CHR 0x83], [CHR 0xE2, CHR 0x80, CHR 0x84], [CHR 0xE2, CHR 0x80, CHR 0x85],
     [CHR 0xE2, CHR 0x80, CHR 0x86], [CHR 0xE2, CHR 0x80, CHR 0x87], [CHR 0xE2, CHR 0x80, CHR 0x88],
     [CHR 0xE2, CHR 0x80, CHR 0x89], [CHR 0xE2, CHR 0x80, CHR 0x8A], [CHR 0xE2, CHR 0x80, CHR 0xA8],
     [CHR 0xE2, CHR 0x80, CHR 0xA9], [CHR 0xE2, CHR 0x80, CHR 0xAF], [CHR 0xE2, CHR 0x81, CHR 0x9F],
     [CHR 0xE3, CHR 0x80, CHR 0x80]]"

fun trim_with :: "string list \<Rightarrow> string \<Rightarrow> string" where
  "trim_with ws [] = []"
| "trim_with ws (c # cs) =
     (if ascii_space c then trim_with ws cs
      else (case find (has_prefix (c # cs)) ws of
              None \<Rightarrow> c # cs
            | Some w \<Rightarrow> trim_with ws (drop (length w - 1) cs)))"

definition trim_space :: "string \<Rightarrow> string" where
  "trim_space s = rev (trim_with (map rev wide_spaces) (rev (trim_with wide_spaces s)))"

definition trimmed :: "string list \<Rightarrow> string \<Rightarrow> bool" where
  "trimmed ws s \<longleftrightarrow> trim_with ws s = s"

lemma trim_with_suffix: "\<exists>p. s = p @ trim_with ws s"
proof (induction ws s rule: trim_with.induct)
  case (1 ws)
  then show ?case by simp
next
  case (2 ws c cs)
  show ?case
  proof (cases "ascii_space c")
    case True
    with 2(1) obtain p where "cs = p @ trim_with ws cs" by blast
    with True show ?thesis by (metis append_Cons trim_with.simps(2))
  next
    case False
    show ?thesis
    proof (cases "find (has_prefix (c # cs)) ws")
      case None
      with False show ?thesis by simp
    next
      case (Some w)
      from 2(2)[OF False Some] obtain p where
        p: "drop (length w - 1) cs = p @ trim_with ws (drop (length w - 1) cs)" by blast
      have "c # cs = (c # take (length w - 1) cs) @ drop (length w - 1) cs" by simp
      with p have "c # cs = (c # take (length w - 1) cs @ p) @ trim_with ws (drop (length w - 1) cs)"
        by (metis append_Cons append_assoc)
      with False Some show ?thesis by (metis option.simps(5) trim_with.simps(2))
    qed
  qed
qed

lemma length_trim_with: "length (trim_with ws s) \<le> length s"
  using trim_with_suffix [of s ws] by (metis le_add2 length_append)

lemma length_trim_space: "length (trim_space s) \<le> length s"
  unfolding trim_space_def using length_trim_with order_trans by (metis length_rev)

lemma trim_with_Nil_iff_trimmed: "trim_with ws (trim_with ws s) = trim_with ws s"
proof (induction ws s rule: trim_with.induct)
  case (1 ws)
  then show ?case by simp
next
  case (2 ws c cs)
  then show ?case
    by (cases "ascii_space c"; cases "find (has_prefix (c # cs)) ws") simp_all
qed

lemma trimmed_Cons:
  "trimmed ws (c # cs) \<longleftrightarrow> \<not> ascii_space c \<and> find (has_prefix (c # cs)) ws = None"
proof (cases "ascii_space c")
  case True
  have "length (trim_with ws cs) < length (c # cs)"
    using length_trim_with [of ws cs] by simp
  with True show ?thesis unfolding trimmed_def by auto
next
  case False
  show ?thesis
  proof (cases "find (has_prefix (c # cs)) ws")
    case None
    with False show ?thesis by (simp add: trimmed_def)
  next
    case (Some w)
    have "length (trim_with ws (drop (length w - 1) cs)) < length (c # cs)"
      using length_trim_with [of ws "drop (length w - 1) cs"] by simp
    with False Some show ?thesis unfolding trimmed_def by auto
  qed
qed

lemma trimmed_prefix:
  assumes "trimmed ws (s @ t)"
  shows "trimmed ws s"
proof (cases s)
  case Nil
  then show ?thesis by (simp add: trimmed_def)
next
  case (Cons c cs)
  with assms have sp: "\<not> ascii_space c" and none: "find (has_prefix (c # cs @ t)) ws = None"
    by (simp_all add: trimmed_Cons)
  have "find (has_prefix (c # cs)) ws = None"
  proof (rule ccontr)
    assume "find (has_prefix (c # cs)) ws \<noteq> None"
    then obtain w where "w \<in> set ws" "has_prefix (c # cs) w"
      by (metis find_None_iff)
    then have "has_prefix (c # cs @ t) w"
      by (auto simp: has_prefix_iff) (metis append_Cons append_assoc)
    with none \<open>w \<in> set ws\<close> show False by (simp add: find_None_iff)
  qed
  with Cons sp show ?thesis by (simp add: trimmed_Cons)
qed

lemma trim_space_idem [simp]: "trim_space (trim_space s) = trim_space s"
proof -
  let ?L = "wide_spaces" and ?R = "map rev wide_spaces"
  define l where "l = trim_with ?L s"
  define r where "r = trim_with ?R (rev l)"
  have "trimmed ?L l" by (simp add: trimmed_def l_def trim_with_Nil_iff_trimmed)
  moreover obtain p where "rev l = p @ r"
    unfolding r_def using trim_with_suffix by blast
  then have "l = rev r @ rev p" by (metis rev_append rev_rev_ident)
  ultimately have "trimmed ?L (rev r)" by (metis trimmed_prefix)
  moreover have "trimmed ?R r" by (simp add: trimmed_def r_def trim_with_Nil_iff_trimmed)
  moreover have "trim_space s = rev r" by (simp add: trim_space_def r_def l_def)
  ultimately show ?thesis by (simp add: trim_space_def trimmed_def)
qed

text \<open>A string whose ends are printable ASCII is not changed, and loses a final line feed.\<close>

definition plain_char :: "char \<Rightarrow> bool" where
  "plain_char c \<longleftrightarrow> 33 \<le> byte c \<and> byte c < 128"

lemma plain_not_space: "plain_char c \<Longrightarrow> \<not> ascii_space c"
  by (auto simp: plain_char_def ascii_space_def)

lemma wide_spaces_ends:
  "list_all (\<lambda>w. w \<noteq> [] \<and> 128 \<le> byte (hd w) \<and> 128 \<le> byte (last w)) wide_spaces"
  by (simp add: wide_spaces_def)

lemma has_prefix_hd: "has_prefix (c # cs) w \<Longrightarrow> w \<noteq> [] \<Longrightarrow> hd w = c"
  by (auto simp: has_prefix_iff Cons_eq_append_conv)

lemma find_wide_None:
  assumes "plain_char c"
  shows "find (has_prefix (c # cs)) wide_spaces = None"
    and "find (has_prefix (c # cs)) (map rev wide_spaces) = None"
proof -
  have no: "\<not> has_prefix (c # cs) w" if "w \<noteq> []" "128 \<le> byte (hd w)" for w
    using has_prefix_hd [of c cs w] that assms by (auto simp: plain_char_def)
  have "\<not> has_prefix (c # cs) w \<and> \<not> has_prefix (c # cs) (rev w)" if "w \<in> set wide_spaces" for w
    using no [of w] no [of "rev w"] wide_spaces_ends that by (auto simp: list_all_iff hd_rev)
  then show "find (has_prefix (c # cs)) wide_spaces = None"
    and "find (has_prefix (c # cs)) (map rev wide_spaces) = None"
    by (auto simp: find_None_iff)
qed

lemma trim_with_plain:
  assumes "plain_char c"
  shows "trim_with wide_spaces (c # cs) = c # cs"
    and "trim_with (map rev wide_spaces) (c # cs) = c # cs"
  using assms by (simp_all add: plain_not_space find_wide_None)

lemma trim_space_plain:
  assumes "s \<noteq> []" "plain_char (hd s)" "plain_char (last s)"
  shows "trim_space s = s"
proof -
  obtain c cs where c: "s = c # cs" using assms(1) by (cases s) auto
  obtain d ds where d: "rev s = d # ds" using assms(1) by (cases "rev s") auto
  have "d = last s" using d by (metis hd_rev list.sel(1))
  with assms(3) have "trim_with (map rev wide_spaces) (d # ds) = d # ds"
    by (simp only: trim_with_plain)
  moreover have "trim_with wide_spaces s = s"
    using assms(2) by (simp only: c list.sel trim_with_plain)
  ultimately show ?thesis by (simp only: trim_space_def d [symmetric] rev_rev_ident)
qed

lemma trim_space_newline:
  assumes "s \<noteq> []" "plain_char (hd s)"
  shows "trim_space (s @ [CHR 0x0A]) = trim_space s"
proof -
  obtain c cs where c: "s = c # cs" using assms(1) by (cases s) auto
  have l: "trim_with wide_spaces (s @ t) = s @ t" for t
    using assms(2) by (simp only: c list.sel append_Cons trim_with_plain)
  have "trim_with (map rev wide_spaces) (CHR 0x0A # rev s) = trim_with (map rev wide_spaces) (rev s)"
    by (simp add: ascii_space_def)
  with l [of "[CHR 0x0A]"] l [of "[]"] show ?thesis
    by (simp only: trim_space_def rev_append rev.simps append_Nil append_Cons append_Nil2)
qed

text \<open>Trimming never removes a printable ASCII character.\<close>

lemma wide_spaces_high: "list_all (\<lambda>w. w \<noteq> [] \<and> list_all (\<lambda>b. 128 \<le> byte b) w) wide_spaces"
  by (simp add: wide_spaces_def)

lemma trim_with_keeps:
  assumes "list_all (\<lambda>w. w \<noteq> [] \<and> list_all (\<lambda>b. 128 \<le> byte b) w) ws" "plain_char x" "x \<in> set s"
  shows "x \<in> set (trim_with ws s)"
  using assms
proof (induction ws s rule: trim_with.induct)
  case (1 ws)
  then show ?case by simp
next
  case (2 ws c cs)
  show ?case
  proof (cases "ascii_space c")
    case True
    with 2 show ?thesis using plain_not_space by auto
  next
    case False
    show ?thesis
    proof (cases "find (has_prefix (c # cs)) ws")
      case None
      with False 2 show ?thesis by simp
    next
      case (Some w)
      then have w: "w \<in> set ws" "has_prefix (c # cs) w" by (auto simp: find_Some_iff)
      with 2(3) have "w \<noteq> []" and high: "\<forall>b\<in>set w. 128 \<le> byte b" by (auto simp: list_all_iff)
      with w(2) obtain v where v: "w = c # v" "has_prefix cs v"
        by (cases w) (auto simp: has_prefix_iff)
      then have "x \<in> set (drop (length w - 1) cs)"
        using high 2(4,5) by (fastforce simp: has_prefix_iff plain_char_def)
      with 2(2)[OF False Some 2(3,4)] False Some show ?thesis by simp
    qed
  qed
qed

lemma trim_space_keeps:
  assumes "plain_char x" "x \<in> set s"
  shows "x \<in> set (trim_space s)"
proof -
  have "list_all (\<lambda>w. w \<noteq> [] \<and> list_all (\<lambda>b. 128 \<le> byte b) w) (map rev wide_spaces)"
    using wide_spaces_high by (auto simp: list_all_iff)
  with assms show ?thesis
    unfolding trim_space_def using trim_with_keeps wide_spaces_high by (metis set_rev)
qed

lemma trim_space_Nil [simp]: "trim_space [] = []"
  by (simp add: trim_space_def)

section \<open>Letter case\<close>

text \<open>
  \<^verbatim>\<open>strings.ToLower\<close> is used by the program only to compare with ASCII literals. Two code points
  outside ASCII have an ASCII lower case (U+0130 and U+212A); every other non-ASCII rune stays
  non-ASCII, and is left as it is here. The comparison with an ASCII literal, or with an ASCII
  prefix, suffix or substring, is then exactly Go's.
\<close>

definition lower_char :: "char \<Rightarrow> char" where
  "lower_char c = (if 65 \<le> byte c \<and> byte c \<le> 90 then char_of (byte c + 32) else c)"

fun to_lower :: "string \<Rightarrow> string" where
  "to_lower [] = []"
| "to_lower (c # cs) =
     (if has_prefix (c # cs) [CHR 0xC4, CHR 0xB0] then CHR ''i'' # to_lower (drop 1 cs)
      else if has_prefix (c # cs) [CHR 0xE2, CHR 0x84, CHR 0xAA] then CHR ''k'' # to_lower (drop 2 cs)
      else lower_char c # to_lower cs)"

text \<open>
  \<^verbatim>\<open>strings.EqualFold\<close>, exact whenever one of the two strings is ASCII: simple folding puts
  U+212A with \<^verbatim>\<open>k\<close> and U+017F with \<^verbatim>\<open>s\<close>, and no other rune with an ASCII one.
\<close>

fun fold_case :: "string \<Rightarrow> string" where
  "fold_case [] = []"
| "fold_case (c # cs) =
     (if has_prefix (c # cs) [CHR 0xC5, CHR 0xBF] then CHR ''s'' # fold_case (drop 1 cs)
      else if has_prefix (c # cs) [CHR 0xE2, CHR 0x84, CHR 0xAA] then CHR ''k'' # fold_case (drop 2 cs)
      else lower_char c # fold_case cs)"

definition equal_fold :: "string \<Rightarrow> string \<Rightarrow> bool" where
  "equal_fold s t \<longleftrightarrow> fold_case s = fold_case t"

lemma equal_fold_refl [simp]: "equal_fold s s"
  by (simp add: equal_fold_def)

section \<open>Decimal numbers\<close>

definition is_digit :: "char \<Rightarrow> bool" where
  "is_digit c \<longleftrightarrow> 48 \<le> byte c \<and> byte c \<le> 57"

definition digit_val :: "char \<Rightarrow> int" where
  "digit_val c = int (byte c) - 48"

definition digits_val :: "string \<Rightarrow> int" where
  "digits_val s = foldl (\<lambda>a c. 10 * a + digit_val c) 0 s"

definition atoi :: "string \<Rightarrow> int option" where
  "atoi s =
    (let neg = (s \<noteq> [] \<and> hd s = CHR ''-'');
         ds = (if s \<noteq> [] \<and> (hd s = CHR ''-'' \<or> hd s = CHR ''+'') then tl s else s)
     in if ds = [] \<or> \<not> list_all is_digit ds then None
        else let v = (if neg then - digits_val ds else digits_val ds)
             in if - (2 ^ 63) \<le> v \<and> v < 2 ^ 63 then Some v else None)"

definition digit_char :: "nat \<Rightarrow> char" where
  "digit_char n = char_of (48 + n)"

function dec_string :: "int \<Rightarrow> string" where
  "dec_string i =
    (if i < 10 then [digit_char (nat i)] else dec_string (i div 10) @ [digit_char (nat (i mod 10))])"
  by pat_completeness auto
termination
  by (relation "measure nat") auto

declare dec_string.simps [simp del]

definition itoa :: "int \<Rightarrow> string" where
  "itoa i = (if i < 0 then CHR ''-'' # dec_string (- i) else dec_string i)"

lemma digit_char_lt:
  assumes "n < 10"
  shows "is_digit (digit_char n)" "digit_val (digit_char n) = int n"
  using assms by (simp_all add: is_digit_def digit_char_def digit_val_def)

lemma dec_string_digits: "0 \<le> i \<Longrightarrow> dec_string i \<noteq> [] \<and> list_all is_digit (dec_string i)"
proof (induction i rule: dec_string.induct)
  case (1 i)
  then show ?case
    by (subst (1 2) dec_string.simps) (auto simp: digit_char_lt nat_less_iff)
qed

lemma digits_val_snoc: "digits_val (s @ [c]) = 10 * digits_val s + digit_val c"
  by (simp add: digits_val_def)

lemma digits_val_dec_string: "0 \<le> i \<Longrightarrow> digits_val (dec_string i) = i"
proof (induction i rule: dec_string.induct)
  case (1 i)
  show ?case
  proof (cases "i < 10")
    case True
    with 1 show ?thesis
      by (subst dec_string.simps) (simp add: digits_val_def digit_char_lt nat_less_iff)
  next
    case False
    then have "digits_val (dec_string (i div 10)) = i div 10" using 1 by simp
    with False show ?thesis
      by (subst dec_string.simps) (simp add: digits_val_snoc digit_char_lt nat_less_iff)
  qed
qed

lemma not_digit_sign: "is_digit c \<Longrightarrow> c \<noteq> CHR ''-'' \<and> c \<noteq> CHR ''+''"
  by (auto simp: is_digit_def)

lemma digits_plain: "list_all is_digit s \<Longrightarrow> c \<in> set s \<Longrightarrow> plain_char c"
  by (auto simp: list_all_iff is_digit_def plain_char_def)

lemma atoi_itoa:
  assumes "0 \<le> i" "i < 2 ^ 63"
  shows "atoi (itoa i) = Some i"
proof -
  obtain c cs where cs: "dec_string i = c # cs"
    using dec_string_digits [of i] assms(1) by (cases "dec_string i") auto
  have all: "list_all is_digit (dec_string i)" using dec_string_digits assms(1) by simp
  with cs have "is_digit c" by simp
  then have "c \<noteq> CHR ''-''" "c \<noteq> CHR ''+''" by (auto dest: not_digit_sign)
  then have "atoi (dec_string i) = (let v = digits_val (dec_string i)
      in if - (2 ^ 63) \<le> v \<and> v < 2 ^ 63 then Some v else None)"
    using all cs by (simp add: atoi_def)
  also have "\<dots> = Some i"
    using assms by (simp add: digits_val_dec_string)
  finally show ?thesis using assms(1) by (simp add: itoa_def)
qed

lemma atoi_itoa_signed:
  assumes "- (2 ^ 63) \<le> i" "i < 2 ^ 63"
  shows "atoi (itoa i) = Some i"
proof (cases "i < 0")
  case True
  then have "digits_val (dec_string (- i)) = - i" "dec_string (- i) \<noteq> []" "list_all is_digit (dec_string (- i))"
    using digits_val_dec_string [of "- i"] dec_string_digits [of "- i"] by simp_all
  with True assms show ?thesis by (simp add: atoi_def itoa_def)
qed (use assms atoi_itoa in simp)

lemma dec_string_no_zero:
  "1 \<le> i \<Longrightarrow> hd (dec_string i) \<noteq> CHR ''0''"
proof (induction i rule: dec_string.induct)
  case (1 i)
  show ?case
  proof (cases "i < 10")
    case True
    have "byte (digit_char (nat i)) \<noteq> byte CHR ''0''" using True 1(2) by (simp add: digit_char_def)
    then have "digit_char (nat i) \<noteq> CHR ''0''" by metis
    with True show ?thesis by (subst dec_string.simps) simp
  next
    case False
    then have d: "1 \<le> i div 10" by simp
    with 1(1) [OF False] have "hd (dec_string (i div 10)) \<noteq> CHR ''0''" by simp
    moreover have "dec_string (i div 10) \<noteq> []" using d dec_string_digits [of "i div 10"] by simp
    ultimately show ?thesis using False by (subst dec_string.simps) simp
  qed
qed

end
