(* ===== verification/Go_Encoding.thy ===== *)
theory Go_Encoding
  imports Go_Prelude
begin

text \<open>
  The two text encodings the program uses from Go's standard library: \<^verbatim>\<open>encoding/hex\<close> (the
  credential master key) and \<^verbatim>\<open>base64.RawURLEncoding\<close> (session tokens, cookie signatures,
  sealed cookies, credential identifiers), with their round trips. Decoding is what Go's
  decoders accept: hex in either case, base64 with line breaks skipped, no padding, and unused
  trailing bits ignored.
\<close>

section \<open>Hexadecimal\<close>

definition hex_val :: "char \<Rightarrow> nat option" where
  "hex_val c =
    (let n = byte c in
     if 48 \<le> n \<and> n \<le> 57 then Some (n - 48)
     else if 97 \<le> n \<and> n \<le> 102 then Some (n - 87)
     else if 65 \<le> n \<and> n \<le> 70 then Some (n - 55)
     else None)"

definition hex_char :: "nat \<Rightarrow> char" where
  "hex_char n = char_of (if n < 10 then 48 + n else 87 + n)"

fun hex_encode :: "bytes \<Rightarrow> string" where
  "hex_encode [] = []"
| "hex_encode (c # cs) = hex_char (byte c div 16) # hex_char (byte c mod 16) # hex_encode cs"

fun hex_decode :: "string \<Rightarrow> bytes option" where
  "hex_decode [] = Some []"
| "hex_decode [c] = None"
| "hex_decode (a # b # s) =
     (case (hex_val a, hex_val b, hex_decode s) of
        (Some x, Some y, Some r) \<Rightarrow> Some (char_of (16 * x + y) # r)
      | _ \<Rightarrow> None)"

lemma byte_lt_256: "byte c < 256"
proof -
  have "byte c = byte c mod 256" by simp
  then show ?thesis by (metis mod_less_divisor zero_less_numeral)
qed

lemma byte_div_lt: "m * n = 256 \<Longrightarrow> byte c div m < n"
  using byte_lt_256 [of c] by (metis less_mult_imp_div_less mult.commute)

lemma hex_val_char: "n < 16 \<Longrightarrow> hex_val (hex_char n) = Some n"
  by (auto simp: hex_val_def hex_char_def Let_def)

lemma hex_val_lt: "hex_val c = Some n \<Longrightarrow> n < 16"
  by (auto simp: hex_val_def Let_def split: if_splits)

lemma hex_encode_not_space:
  "c \<in> set (hex_encode b) \<Longrightarrow> \<exists>n < 16. c = hex_char n"
proof (induction b)
  case Nil
  then show ?case by simp
next
  case (Cons x xs)
  have lt: "byte x div 16 < 16" "byte x mod 16 < 16" by (simp_all add: byte_div_lt)
  from Cons.prems consider "c = hex_char (byte x div 16)" | "c = hex_char (byte x mod 16)"
    | "c \<in> set (hex_encode xs)" by auto
  then show ?case by cases (use lt Cons.IH in blast)+
qed

theorem hex_roundtrip: "hex_decode (hex_encode b) = Some b"
proof (induction b)
  case Nil
  then show ?case by simp
next
  case (Cons c cs)
  have "byte c div 16 < 16" by (simp add: byte_div_lt)
  with Cons show ?case by (simp add: hex_val_char)
qed

lemma length_hex_encode [simp]: "length (hex_encode b) = 2 * length b"
  by (induction b) auto

lemma hex_decode_length: "hex_decode s = Some b \<Longrightarrow> length s = 2 * length b"
  by (induction s arbitrary: b rule: hex_decode.induct) (auto split: option.splits)

section \<open>Base64, URL alphabet, no padding\<close>

definition b64_char :: "nat \<Rightarrow> char" where
  "b64_char n =
    char_of (if n < 26 then 65 + n else if n < 52 then 71 + n else if n < 62 then n - 4
             else if n = 62 then 45 else 95)"

definition b64_val :: "char \<Rightarrow> nat option" where
  "b64_val c =
    (let n = byte c in
     if 65 \<le> n \<and> n \<le> 90 then Some (n - 65)
     else if 97 \<le> n \<and> n \<le> 122 then Some (n - 71)
     else if 48 \<le> n \<and> n \<le> 57 then Some (n + 4)
     else if n = 45 then Some 62
     else if n = 95 then Some 63
     else None)"

fun b64_encode :: "bytes \<Rightarrow> string" where
  "b64_encode [] = []"
| "b64_encode [a] = [b64_char (byte a div 4), b64_char (byte a mod 4 * 16)]"
| "b64_encode [a, b] =
     [b64_char (byte a div 4), b64_char (byte a mod 4 * 16 + byte b div 16),
      b64_char (byte b mod 16 * 4)]"
| "b64_encode (a # b # c # s) =
     b64_char (byte a div 4) # b64_char (byte a mod 4 * 16 + byte b div 16)
     # b64_char (byte b mod 16 * 4 + byte c div 64) # b64_char (byte c mod 64) # b64_encode s"

fun b64_quanta :: "string \<Rightarrow> bytes option" where
  "b64_quanta [] = Some []"
| "b64_quanta [p] = None"
| "b64_quanta [p, q] =
     (case (b64_val p, b64_val q) of
        (Some w, Some x) \<Rightarrow> Some [char_of (w * 4 + x div 16)]
      | _ \<Rightarrow> None)"
| "b64_quanta [p, q, r] =
     (case (b64_val p, b64_val q, b64_val r) of
        (Some w, Some x, Some y) \<Rightarrow> Some [char_of (w * 4 + x div 16), char_of (x mod 16 * 16 + y div 4)]
      | _ \<Rightarrow> None)"
| "b64_quanta (p # q # r # t # s) =
     (case (b64_val p, b64_val q, b64_val r, b64_val t, b64_quanta s) of
        (Some w, Some x, Some y, Some z, Some rest) \<Rightarrow>
          Some (char_of (w * 4 + x div 16) # char_of (x mod 16 * 16 + y div 4)
                # char_of (y mod 4 * 64 + z) # rest)
      | _ \<Rightarrow> None)"

definition b64_decode :: "string \<Rightarrow> bytes option" where
  "b64_decode s = b64_quanta (filter (\<lambda>c. c \<noteq> CHR 0x0A \<and> c \<noteq> CHR 0x0D) s)"

lemma b64_val_char: "n < 64 \<Longrightarrow> b64_val (b64_char n) = Some n"
  by (auto simp: b64_val_def b64_char_def Let_def)

lemma digit_join:
  assumes "(y :: nat) < n"
  shows "(x * n + y) div n = x" "(x * n + y) mod n = y"
  using assms by simp_all

lemma digit_lt:
  assumes "(x :: nat) < m" "y < n"
  shows "x * n + y < m * n"
proof -
  have "x * n + y < Suc x * n" using assms(2) by simp
  also have "\<dots> \<le> m * n" using assms(1) by (intro mult_le_mono1) simp
  finally show ?thesis .
qed

lemma b64_six_bits:
  "byte a div 4 < 64" "byte a mod 4 * 16 < 64" "byte a mod 4 * 16 + byte b div 16 < 64"
  "byte b mod 16 * 4 < 64" "byte b mod 16 * 4 + byte c div 64 < 64" "byte c mod 64 < 64"
  using digit_lt [of "byte a mod 4" 4 0 16] digit_lt [of "byte b mod 16" 16 0 4]
    digit_lt [of "byte a mod 4" 4 "byte b div 16" 16] digit_lt [of "byte b mod 16" 16 "byte c div 64" 4]
  by (simp_all add: byte_div_lt)

lemma b64_join:
  "byte a div 4 * 4 + byte a mod 4 * 16 div 16 = byte a"
  "byte a div 4 * 4 + (byte a mod 4 * 16 + byte b div 16) div 16 = byte a"
  "(byte a mod 4 * 16 + byte b div 16) mod 16 * 16 + byte b mod 16 * 4 div 4 = byte b"
  "(byte a mod 4 * 16 + byte b div 16) mod 16 * 16 + (byte b mod 16 * 4 + byte c div 64) div 4 = byte b"
  "(byte b mod 16 * 4 + byte c div 64) mod 4 * 64 + byte c mod 64 = byte c"
proof -
  have b: "byte b div 16 < 16" and c: "byte c div 64 < 4" by (simp_all add: byte_div_lt)
  show "byte a div 4 * 4 + byte a mod 4 * 16 div 16 = byte a" by simp
  show "byte a div 4 * 4 + (byte a mod 4 * 16 + byte b div 16) div 16 = byte a"
    by (simp only: digit_join [OF b] div_mult_mod_eq)
  show "(byte a mod 4 * 16 + byte b div 16) mod 16 * 16 + byte b mod 16 * 4 div 4 = byte b"
    by (simp only: digit_join [OF b]) simp
  show "(byte a mod 4 * 16 + byte b div 16) mod 16 * 16 + (byte b mod 16 * 4 + byte c div 64) div 4 = byte b"
    by (simp only: digit_join [OF b] digit_join [OF c] div_mult_mod_eq)
  show "(byte b mod 16 * 4 + byte c div 64) mod 4 * 64 + byte c mod 64 = byte c"
    by (simp only: digit_join [OF c] div_mult_mod_eq)
qed

lemma b64_quanta_encode: "b64_quanta (b64_encode b) = Some b"
proof (induction b rule: b64_encode.induct)
  case (2 a)
  then show ?case
    by (simp add: b64_val_char b64_six_bits)
next
  case (3 a b)
  have "b64_quanta (b64_encode [a, b]) =
    Some [char_of (byte a div 4 * 4 + (byte a mod 4 * 16 + byte b div 16) div 16),
          char_of ((byte a mod 4 * 16 + byte b div 16) mod 16 * 16 + byte b mod 16 * 4 div 4)]"
    by (simp only: b64_encode.simps b64_quanta.simps b64_val_char b64_six_bits
        prod.case option.case)
  also have "\<dots> = Some [a, b]" by (simp only: b64_join char_of_char)
  finally show ?case .
next
  case (4 a b c s)
  have "b64_quanta (b64_encode (a # b # c # s)) =
    Some (char_of (byte a div 4 * 4 + (byte a mod 4 * 16 + byte b div 16) div 16)
        # char_of ((byte a mod 4 * 16 + byte b div 16) mod 16 * 16 + (byte b mod 16 * 4 + byte c div 64) div 4)
        # char_of ((byte b mod 16 * 4 + byte c div 64) mod 4 * 64 + byte c mod 64) # s)"
    by (simp only: b64_encode.simps b64_quanta.simps b64_val_char b64_six_bits 4
        prod.case option.case)
  also have "\<dots> = Some (a # b # c # s)" by (simp only: b64_join char_of_char)
  finally show ?case .
qed simp

definition b64_alphabet :: "char \<Rightarrow> bool" where
  "b64_alphabet c \<longleftrightarrow> b64_val c \<noteq> None"

lemma b64_char_alphabet: "n < 64 \<Longrightarrow> b64_alphabet (b64_char n)"
  by (simp add: b64_alphabet_def b64_val_char)

lemma b64_encode_alphabet: "list_all b64_alphabet (b64_encode b)"
  by (induction b rule: b64_encode.induct) (simp_all add: b64_char_alphabet b64_six_bits)

lemma b64_alphabet_plain:
  "b64_alphabet c \<Longrightarrow> c \<noteq> CHR 0x0A \<and> c \<noteq> CHR 0x0D \<and> c \<noteq> CHR ''.'' \<and> c \<noteq> CHR ''/''"
  by (auto simp: b64_alphabet_def b64_val_def Let_def)

lemma b64_encode_no_dot: "CHR ''.'' \<notin> set (b64_encode b)"
  using b64_encode_alphabet [of b] by (auto simp: list_all_iff dest: b64_alphabet_plain)

theorem b64_roundtrip: "b64_decode (b64_encode b) = Some b"
proof -
  have "filter (\<lambda>c. c \<noteq> CHR 0x0A \<and> c \<noteq> CHR 0x0D) (b64_encode b) = b64_encode b"
    using b64_encode_alphabet [of b]
    by (auto simp: filter_id_conv list_all_iff dest: b64_alphabet_plain)
  then show ?thesis by (simp add: b64_decode_def b64_quanta_encode)
qed

lemma b64_encode_inj: "b64_encode a = b64_encode b \<Longrightarrow> a = b"
  by (metis b64_roundtrip option.inject)

lemma b64_encode_Nil_iff [simp]: "b64_encode b = [] \<longleftrightarrow> b = []"
  by (induction b rule: b64_encode.induct) auto

lemma length_b64_encode: "length (b64_encode b) = (8 * length b + 5) div 6"
  by (induction b rule: b64_encode.induct) auto

end
