(* ===== verification/Go_Netip.thy ===== *)
theory Go_Netip
  imports Go_Encoding "HOL-Library.Word"
begin

text \<open>
  The part of Go's \<^verbatim>\<open>net/netip\<close> and \<^verbatim>\<open>net\<close> the network policy and the clients use: addresses,
  their text syntax in both directions, prefixes, the address classes, and joining and
  splitting host and port. An address is the \<^verbatim>\<open>netip.Addr\<close> zero value, an IPv4 address or
  an IPv6 address with a zone (the empty string for none). \<^verbatim>\<open>Prefix.Contains\<close> answers false for
  every address with a zone, and \<^verbatim>\<open>IsUnspecified\<close> compares with the zone-less \<^verbatim>\<open>::\<close>, as
  documented for \<^verbatim>\<open>net/netip\<close>.
\<close>

unbundle bit_operations_syntax

datatype addr = InvalidAddr | V4 "32 word" | V6 "128 word" string

section \<open>Parsing\<close>

definition parse_octet :: "string \<Rightarrow> int option" where
  "parse_octet s =
    (if s = [] \<or> \<not> list_all is_digit s \<or> (1 < length s \<and> hd s = CHR ''0'') then None
     else let v = digits_val s in if v \<le> 255 then Some v else None)"

definition parse_v4_fields :: "string \<Rightarrow> (int \<times> int \<times> int \<times> int) option" where
  "parse_v4_fields s =
    (case map parse_octet (split_on CHR ''.'' s) of
       [Some a, Some b, Some c, Some d] \<Rightarrow> Some (a, b, c, d)
     | _ \<Rightarrow> None)"

definition v4_of_octets :: "int \<Rightarrow> int \<Rightarrow> int \<Rightarrow> int \<Rightarrow> 32 word" where
  "v4_of_octets a b c d = of_int (((a * 256 + b) * 256 + c) * 256 + d)"

definition parse_v4 :: "string \<Rightarrow> addr option" where
  "parse_v4 s = map_option (\<lambda>(a, b, c, d). V4 (v4_of_octets a b c d)) (parse_v4_fields s)"

definition is_hex :: "char \<Rightarrow> bool" where
  "is_hex c \<longleftrightarrow> hex_val c \<noteq> None"

definition hex_number :: "string \<Rightarrow> int" where
  "hex_number s = foldl (\<lambda>a c. 16 * a + (case hex_val c of Some v \<Rightarrow> int v | None \<Rightarrow> 0)) 0 s"

lemma dropWhile_length_less: "dropWhile P s = c # r \<Longrightarrow> length r < length s"
  using length_dropWhile_le [of P s] by simp

text \<open>
  The loop of \<^verbatim>\<open>parseIPv6\<close>: the 16-bit groups read so far, the position of the ellipsis, the
  rest of the text. The result is the groups and the ellipsis of a text used up entirely.
\<close>

function v6_loop :: "int list \<Rightarrow> nat option \<Rightarrow> string \<Rightarrow> (int list \<times> nat option) option" where
  "v6_loop gs el s =
    (if 8 \<le> length gs then (if s = [] then Some (gs, el) else None)
     else
       let ds = takeWhile is_hex s; rest = dropWhile is_hex s in
       if ds = [] \<or> 4 < length ds then None
       else if rest \<noteq> [] \<and> hd rest = CHR ''.'' then
         (if el = None \<and> length gs \<noteq> 6 \<or> 6 < length gs then None
          else (case parse_v4_fields s of
                  None \<Rightarrow> None
                | Some (a, b, c, d) \<Rightarrow> Some (gs @ [a * 256 + b, c * 256 + d], el)))
       else
         let gs' = gs @ [hex_number ds] in
         (case rest of
            [] \<Rightarrow> Some (gs', el)
          | c # r \<Rightarrow>
              if c \<noteq> CHR '':'' \<or> r = [] then None
              else if hd r = CHR '':'' then
                (if el \<noteq> None then None
                 else if tl r = [] then Some (gs', Some (length gs'))
                 else v6_loop gs' (Some (length gs')) (tl r))
              else v6_loop gs' el r))"
  by pat_completeness auto
termination
  by (relation "measure (\<lambda>(gs, el, s). length s)")
    (auto dest!: dropWhile_length_less [OF sym] simp: less_imp_diff_less)

declare v6_loop.simps [simp del]

definition v6_expand :: "int list \<Rightarrow> nat option \<Rightarrow> int list option" where
  "v6_expand gs el =
    (case el of
       None \<Rightarrow> if length gs = 8 then Some gs else None
     | Some e \<Rightarrow> if length gs < 8 then Some (take e gs @ replicate (8 - length gs) 0 @ drop e gs)
                 else None)"

definition v6_of_groups :: "int list \<Rightarrow> 128 word" where
  "v6_of_groups gs = of_int (foldl (\<lambda>a g. a * 65536 + g) 0 gs)"

definition parse_v6 :: "string \<Rightarrow> addr option" where
  "parse_v6 s =
    (let body = takeWhile ((\<noteq>) CHR ''%'') s; zone = tl (dropWhile ((\<noteq>) CHR ''%'') s) in
     if CHR ''%'' \<in> set s \<and> zone = [] then None
     else
       let lead = has_prefix body ''::''; rest = (if lead then drop 2 body else body) in
       if lead \<and> rest = [] then Some (V6 0 zone)
       else (case v6_loop [] (if lead then Some 0 else None) rest of
               None \<Rightarrow> None
             | Some (gs, el) \<Rightarrow> map_option (\<lambda>g. V6 (v6_of_groups g) zone) (v6_expand gs el)))"

definition parse_addr :: "string \<Rightarrow> addr option" where
  "parse_addr s =
    (case dropWhile (\<lambda>c. c \<notin> {CHR ''.'', CHR '':'', CHR ''%''}) s of
       [] \<Rightarrow> None
     | c # _ \<Rightarrow> if c = CHR ''.'' then parse_v4 s
                else if c = CHR '':'' then parse_v6 s
                else None)"

text \<open>\<^verbatim>\<open>netip.AddrFromSlice\<close>: four or sixteen bytes, no zone.\<close>

definition addr_from_slice :: "bytes \<Rightarrow> addr option" where
  "addr_from_slice b =
    (let n = foldl (\<lambda>a c. a * 256 + int (byte c)) 0 b in
     if length b = 4 then Some (V4 (of_int n))
     else if length b = 16 then Some (V6 (of_int n) [])
     else None)"

section \<open>Address classes\<close>

fun is4in6 :: "addr \<Rightarrow> bool" where
  "is4in6 (V6 w z) \<longleftrightarrow> drop_bit 32 w = 0xFFFF"
| "is4in6 _ \<longleftrightarrow> False"

fun unmap :: "addr \<Rightarrow> addr" where
  "unmap (V6 w z) = (if drop_bit 32 w = 0xFFFF then V4 (ucast w) else V6 w z)"
| "unmap a = a"

definition v4_octet :: "32 word \<Rightarrow> nat \<Rightarrow> int" where
  "v4_octet w i = uint (take_bit 8 (drop_bit (24 - 8 * i) w))"

definition v6_group :: "128 word \<Rightarrow> nat \<Rightarrow> int" where
  "v6_group w i = uint (take_bit 16 (drop_bit (112 - 16 * i) w))"

fun is_unspecified :: "addr \<Rightarrow> bool" where
  "is_unspecified (V4 w) \<longleftrightarrow> w = 0"
| "is_unspecified (V6 w z) \<longleftrightarrow> w = 0 \<and> z = []"
| "is_unspecified InvalidAddr \<longleftrightarrow> False"

text \<open>The classes below first unmap an IPv4-mapped address, as \<^verbatim>\<open>netip\<close> does.\<close>

fun loopback_class :: "addr \<Rightarrow> bool" where
  "loopback_class (V4 w) \<longleftrightarrow> v4_octet w 0 = 127"
| "loopback_class (V6 w z) \<longleftrightarrow> w = 1"
| "loopback_class InvalidAddr \<longleftrightarrow> False"

fun link_local_class :: "addr \<Rightarrow> bool" where
  "link_local_class (V4 w) \<longleftrightarrow> v4_octet w 0 = 169 \<and> v4_octet w 1 = 254"
| "link_local_class (V6 w z) \<longleftrightarrow> v6_group w 0 div 64 = 0x3FA"
| "link_local_class InvalidAddr \<longleftrightarrow> False"

fun link_multicast_class :: "addr \<Rightarrow> bool" where
  "link_multicast_class (V4 w) \<longleftrightarrow> v4_octet w 0 = 224 \<and> v4_octet w 1 = 0 \<and> v4_octet w 2 = 0"
| "link_multicast_class (V6 w z) \<longleftrightarrow> v6_group w 0 div 256 = 0xFF \<and> v6_group w 0 mod 16 = 2"
| "link_multicast_class InvalidAddr \<longleftrightarrow> False"

fun private_class :: "addr \<Rightarrow> bool" where
  "private_class (V4 w) \<longleftrightarrow> v4_octet w 0 = 10
     \<or> (v4_octet w 0 = 172 \<and> v4_octet w 1 div 16 = 1)
     \<or> (v4_octet w 0 = 192 \<and> v4_octet w 1 = 168)"
| "private_class (V6 w z) \<longleftrightarrow> v6_group w 0 div 512 = 0x7E"
| "private_class InvalidAddr \<longleftrightarrow> False"

definition is_valid :: "addr \<Rightarrow> bool" where
  "is_valid a \<longleftrightarrow> a \<noteq> InvalidAddr"

definition is_loopback :: "addr \<Rightarrow> bool" where
  "is_loopback a \<longleftrightarrow> loopback_class (unmap a)"

definition is_link_local_unicast :: "addr \<Rightarrow> bool" where
  "is_link_local_unicast a \<longleftrightarrow> link_local_class (unmap a)"

definition is_link_local_multicast :: "addr \<Rightarrow> bool" where
  "is_link_local_multicast a \<longleftrightarrow> link_multicast_class (unmap a)"

definition is_private :: "addr \<Rightarrow> bool" where
  "is_private a \<longleftrightarrow> private_class (unmap a)"

section \<open>Prefixes\<close>

datatype prefix = Prefix addr nat

fun without_zone :: "addr \<Rightarrow> addr" where
  "without_zone (V6 w z) = V6 w []"
| "without_zone a = a"

definition prefix_from :: "addr \<Rightarrow> nat \<Rightarrow> prefix" where
  "prefix_from a n = Prefix (without_zone a) n"

definition last_cut :: "string \<Rightarrow> char \<Rightarrow> (string \<times> string) option" where
  "last_cut s c = map_option (\<lambda>(a, b). (rev b, rev a)) (cut (rev s) c)"

definition parse_prefix :: "string \<Rightarrow> prefix option" where
  "parse_prefix s =
    (case last_cut s CHR ''/'' of
       None \<Rightarrow> None
     | Some (a, bs) \<Rightarrow>
         (case parse_addr a of
            None \<Rightarrow> None
          | Some ip \<Rightarrow>
              if without_zone ip \<noteq> ip then None
              else if 1 < length bs \<and> \<not> (49 \<le> byte (hd bs) \<and> byte (hd bs) \<le> 57) then None
              else (case atoi bs of
                      None \<Rightarrow> None
                    | Some n \<Rightarrow>
                        if n < 0 \<or> n > (case ip of V6 _ _ \<Rightarrow> 128 | _ \<Rightarrow> 32) then None
                        else Some (prefix_from ip (nat n)))))"

fun prefix_contains :: "prefix \<Rightarrow> addr \<Rightarrow> bool" where
  "prefix_contains (Prefix (V4 p) n) (V4 w) \<longleftrightarrow> n \<le> 32 \<and> drop_bit (32 - n) (w XOR p) = 0"
| "prefix_contains (Prefix (V6 p _) n) (V6 w z) \<longleftrightarrow>
     z = [] \<and> n \<le> 128 \<and> drop_bit (128 - n) (w XOR p) = 0"
| "prefix_contains _ _ \<longleftrightarrow> False"

section \<open>Printing, joining and splitting\<close>

definition v4_string :: "32 word \<Rightarrow> string" where
  "v4_string w = dec_string (v4_octet w 0) @ ''.'' @ dec_string (v4_octet w 1) @ ''.''
     @ dec_string (v4_octet w 2) @ ''.'' @ dec_string (v4_octet w 3)"

function hex_string :: "int \<Rightarrow> string" where
  "hex_string n =
    (if n < 16 then [hex_char (nat n)] else hex_string (n div 16) @ [hex_char (nat (n mod 16))])"
  by pat_completeness auto
termination
  by (relation "measure nat") auto

declare hex_string.simps [simp del]

definition zero_run :: "int list \<Rightarrow> nat \<Rightarrow> nat" where
  "zero_run gs i = length (takeWhile ((=) 0) (drop i gs))"

definition best_run :: "int list \<Rightarrow> nat \<times> nat" where
  "best_run gs =
    foldl (\<lambda>(st, ln) i. let l = zero_run gs i in if 2 \<le> l \<and> ln < l then (i, l) else (st, ln))
      (8, 0) [0..<8]"

fun join :: "string \<Rightarrow> string list \<Rightarrow> string" where
  "join sep [] = []"
| "join sep [x] = x"
| "join sep (x # y # xs) = x @ sep @ join sep (y # xs)"

definition v6_string :: "128 word \<Rightarrow> string" where
  "v6_string w =
    (let gs = map (v6_group w) [0..<8]; (st, ln) = best_run gs; hs = map hex_string gs in
     if ln = 0 then join '':'' hs
     else join '':'' (take st hs) @ ''::'' @ join '':'' (drop (st + ln) hs))"

definition zone_suffix :: "string \<Rightarrow> string" where
  "zone_suffix z = (if z = [] then [] else CHR ''%'' # z)"

fun addr_string :: "addr \<Rightarrow> string" where
  "addr_string InvalidAddr = ''invalid IP''"
| "addr_string (V4 w) = v4_string w"
| "addr_string (V6 w z) =
     (if is4in6 (V6 w z) then ''::ffff:'' @ v4_string (ucast w) else v6_string w) @ zone_suffix z"

definition join_host_port :: "string \<Rightarrow> string \<Rightarrow> string" where
  "join_host_port h p =
    (if CHR '':'' \<in> set h then ''['' @ h @ '']:'' @ p else h @ '':'' @ p)"

definition split_host_port :: "string \<Rightarrow> (string \<times> string) option" where
  "split_host_port s =
    (case last_cut s CHR '':'' of
       None \<Rightarrow> None
     | Some (h, p) \<Rightarrow>
         if hd s = CHR ''['' then
           (case cut s CHR '']'' of
              None \<Rightarrow> None
            | Some (a, b) \<Rightarrow>
                if b = CHR '':'' # p \<and> CHR ''['' \<notin> set (tl s) \<and> CHR '']'' \<notin> set b
                then Some (tl a, p) else None)
         else if CHR '':'' \<in> set h \<or> CHR ''['' \<in> set s \<or> CHR '']'' \<in> set s then None
         else Some (h, p))"

section \<open>Lemmas\<close>

lemma unmap_not_4in6 [simp]: "\<not> is4in6 (unmap a)"
  by (cases a) auto

lemma unmap_idem [simp]: "unmap (unmap a) = unmap a"
  by (cases a) auto

lemma last_cut_Some_iff: "last_cut s c = Some (a, b) \<longleftrightarrow> s = a @ c # b \<and> c \<notin> set b"
proof -
  have "last_cut s c = Some (a, b) \<longleftrightarrow> cut (rev s) c = Some (rev b, rev a)"
    by (auto simp: last_cut_def)
  also have "\<dots> \<longleftrightarrow> rev s = rev (a @ c # b) \<and> c \<notin> set b"
    by (simp add: cut_Some_iff)
  finally show ?thesis by (simp only: rev_is_rev_conv)
qed

text \<open>Containment compares the leading bits: two addresses with the same leading bits are in
  the same prefixes of that length.\<close>

lemma xor_zero_iff: "(x :: 'a::len word) XOR y = 0 \<longleftrightarrow> x = y"
  by (metis xor.left_neutral xor.right_neutral xor.assoc xor_self_eq)

lemma prefix_contains_V4:
  "prefix_contains (Prefix (V4 p) n) (V4 w) \<longleftrightarrow> n \<le> 32 \<and> drop_bit (32 - n) w = drop_bit (32 - n) p"
  by (simp add: drop_bit_xor xor_zero_iff)

lemma prefix_contains_V6:
  "prefix_contains (Prefix (V6 p y) n) (V6 w z)
     \<longleftrightarrow> z = [] \<and> n \<le> 128 \<and> drop_bit (128 - n) w = drop_bit (128 - n) p"
  by (simp add: drop_bit_xor xor_zero_iff)

lemma prefix_contains_zone: "z \<noteq> [] \<Longrightarrow> \<not> prefix_contains q (V6 w z)"
  by (induction q "V6 w z" rule: prefix_contains.induct) auto

lemma split_join_host_port:
  assumes "CHR ''['' \<notin> set h" "CHR '']'' \<notin> set h"
    and "CHR '':'' \<notin> set p" "CHR ''['' \<notin> set p" "CHR '']'' \<notin> set p"
  shows "split_host_port (join_host_port h p) = Some (h, p)"
proof (cases "CHR '':'' \<in> set h")
  case True
  let ?s = "CHR ''['' # h @ CHR '']'' # CHR '':'' # p"
  have s: "join_host_port h p = ?s" using True by (simp add: join_host_port_def)
  have "last_cut ?s CHR '':'' = Some (CHR ''['' # h @ '']'', p)"
    using assms by (simp add: last_cut_Some_iff)
  moreover have "cut ?s CHR '']'' = Some (CHR ''['' # h, CHR '':'' # p)"
    using assms cut_append [of "CHR '']''" "CHR ''['' # h" "CHR '':'' # p"] by simp
  ultimately show ?thesis
    using assms by (simp add: s split_host_port_def)
next
  case False
  let ?s = "h @ CHR '':'' # p"
  have s: "join_host_port h p = ?s" using False by (simp add: join_host_port_def)
  have lc: "last_cut ?s CHR '':'' = Some (h, p)"
    using assms by (simp add: last_cut_Some_iff)
  have "hd ?s \<noteq> CHR ''[''"
    using assms by (cases h) auto
  then show ?thesis
    using assms False by (simp add: s split_host_port_def lc)
qed

end
