(* ===== verification/Network_Policy.thy ===== *)
theory Network_Policy
  imports Go_Netip
begin

text \<open>
  \<^verbatim>\<open>internal/security/network_policy.go\<close>: which destinations the server may connect to. The
  resolver the code calls (\<^verbatim>\<open>net.Resolver.LookupIPAddr\<close>) is the argument \<open>lookup\<close>: the IP
  slices of a host name, or \<open>None\<close> for a failed lookup. The policy's \<^verbatim>\<open>LookupTimeout\<close> only
  bounds that call and is not a field of the model.
\<close>

type_synonym resolver = "string \<Rightarrow> bytes list option"

record network_policy =
  np_allow_private :: bool
  np_deny :: "prefix list"
  np_allow :: "prefix list"

datatype policy_error = PolicyError (pe_code: string) (pe_message: string)

datatype entry_error = BadDefault string | InvalidDeny string | InvalidAllow string

section \<open>Construction\<close>

definition parse_prefix_or_ip :: "string \<Rightarrow> prefix option" where
  "parse_prefix_or_ip s =
    (if contains s ''/'' then parse_prefix s
     else (case parse_addr s of
             None \<Rightarrow> None
           | Some a \<Rightarrow> Some (prefix_from a (case a of V6 _ _ \<Rightarrow> 128 | _ \<Rightarrow> 32))))"

definition default_deny :: "string list" where
  "default_deny = [''127.0.0.0/8'', ''::1/128'', ''0.0.0.0/8'', ''169.254.0.0/16'']"

definition private_deny :: "string list" where
  "private_deny = [''10.0.0.0/8'', ''172.16.0.0/12'', ''192.168.0.0/16'', ''fc00::/7'', ''fe80::/10'']"

fun add_defaults :: "prefix list \<Rightarrow> string list \<Rightarrow> entry_error + prefix list" where
  "add_defaults ps [] = Inr ps"
| "add_defaults ps (d # ds) =
     (case parse_prefix d of
        None \<Rightarrow> Inl (BadDefault d)
      | Some q \<Rightarrow> add_defaults (ps @ [q]) ds)"

fun add_deny :: "string list \<Rightarrow> prefix list \<Rightarrow> string list \<Rightarrow> entry_error + prefix list" where
  "add_deny seen ps [] = Inr ps"
| "add_deny seen ps (x # ds) =
     (let d = trim_space x in
      if d = [] \<or> d \<in> set seen then add_deny seen ps ds
      else (case parse_prefix_or_ip d of
              None \<Rightarrow> Inl (InvalidDeny d)
            | Some q \<Rightarrow> add_deny (d # seen) (ps @ [q]) ds))"

fun add_allow :: "prefix list \<Rightarrow> string list \<Rightarrow> entry_error + prefix list" where
  "add_allow ps [] = Inr ps"
| "add_allow ps (x # as) =
     (let a = trim_space x in
      if a = [] then add_allow ps as
      else (case parse_prefix_or_ip a of
              None \<Rightarrow> Inl (InvalidAllow a)
            | Some q \<Rightarrow> add_allow (ps @ [q]) as))"

definition zero_prefix :: prefix where
  "zero_prefix = Prefix InvalidAddr 0"

definition new_network_policy ::
  "bool \<Rightarrow> string list \<Rightarrow> string list \<Rightarrow> entry_error + network_policy" where
  "new_network_policy allow_private deny allow =
    bind_result (add_defaults [] default_deny) (\<lambda>ds.
    bind_result (add_deny default_deny ds deny) (\<lambda>ds.
    bind_result (add_allow [] allow) (\<lambda>as.
      Inr \<lparr>np_allow_private = allow_private,
           np_deny = ds @ (if allow_private then []
             else map (\<lambda>d. case parse_prefix d of Some q \<Rightarrow> q | None \<Rightarrow> zero_prefix) private_deny),
           np_allow = as\<rparr>)))"

section \<open>Checking\<close>

definition denied :: policy_error where
  "denied = PolicyError ''NETWORK_DENIED'' ''target host is blocked by network policy''"

definition check_addr :: "network_policy \<Rightarrow> addr \<Rightarrow> policy_error + unit" where
  "check_addr p a =
    (if list_ex (\<lambda>q. prefix_contains q a) (np_allow p) then Inr ()
     else if list_ex (\<lambda>q. prefix_contains q a) (np_deny p) then Inl denied
     else if \<not> is_valid a \<or> is_unspecified a \<or> is_loopback a \<or> is_link_local_unicast a
             \<or> is_link_local_multicast a then Inl denied
     else if \<not> np_allow_private p \<and> is_private a then Inl denied
     else Inr ())"

fun check_resolved :: "network_policy \<Rightarrow> addr \<Rightarrow> bytes list \<Rightarrow> policy_error + addr" where
  "check_resolved p r [] = Inr r"
| "check_resolved p r (ip # ips) =
     (case addr_from_slice ip of
        None \<Rightarrow> Inl denied
      | Some a \<Rightarrow>
          bind_result (check_addr p (unmap a)) (\<lambda>_.
            check_resolved p (if is_valid r then r else unmap a) ips))"

definition strip_brackets :: "string \<Rightarrow> string" where
  "strip_brackets h =
    (if has_prefix h ''['' \<and> has_suffix h '']'' then take (length h - 1 - 1) (drop 1 h) else h)"

definition is_localhost :: "string \<Rightarrow> bool" where
  "is_localhost h \<longleftrightarrow> to_lower h = ''localhost'' \<or> has_suffix (to_lower h) ''.localhost''"

definition resolve_allowed_host_port ::
  "network_policy \<Rightarrow> resolver \<Rightarrow> string \<Rightarrow> int \<Rightarrow> policy_error + string" where
  "resolve_allowed_host_port p lookup host0 port =
    (if port < 1 \<or> port > 65535
     then Inl (PolicyError ''INVALID_PORT'' ''port must be between 1 and 65535'')
     else
       let host1 = trim_space host0 in
       if host1 = [] then Inl (PolicyError ''INVALID_HOST'' ''host is required'')
       else if contains host1 ''://''
       then Inl (PolicyError ''INVALID_HOST'' ''host must not include URL scheme'')
       else
         let host = strip_brackets host1 in
         if is_localhost host then Inl denied
         else (case parse_addr host of
                 Some ip \<Rightarrow>
                   bind_result (check_addr p (unmap ip)) (\<lambda>_.
                     Inr (join_host_port (addr_string (unmap ip)) (itoa port)))
               | None \<Rightarrow>
                   (case lookup host of
                      None \<Rightarrow> Inl (PolicyError ''INVALID_HOST'' ''failed to resolve host'')
                    | Some [] \<Rightarrow> Inl (PolicyError ''INVALID_HOST'' ''host resolved to no addresses'')
                    | Some ips \<Rightarrow>
                        bind_result (check_resolved p InvalidAddr ips) (\<lambda>a.
                          Inr (join_host_port (addr_string a) (itoa port))))))"

definition validate_host_port ::
  "network_policy \<Rightarrow> resolver \<Rightarrow> string \<Rightarrow> int \<Rightarrow> policy_error + unit" where
  "validate_host_port p lookup host port =
    bind_result (resolve_allowed_host_port p lookup host port) (\<lambda>_. Inr ())"

section \<open>Lemmas\<close>

lemma check_addr_Inr_iff:
  "check_addr p a = Inr u \<longleftrightarrow>
     list_ex (\<lambda>q. prefix_contains q a) (np_allow p)
     \<or> (\<not> list_ex (\<lambda>q. prefix_contains q a) (np_deny p) \<and> is_valid a \<and> \<not> is_unspecified a
        \<and> \<not> is_loopback a \<and> \<not> is_link_local_unicast a \<and> \<not> is_link_local_multicast a
        \<and> (np_allow_private p \<or> \<not> is_private a))"
  by (auto simp: check_addr_def)

lemma check_addr_Inl: "check_addr p a = Inl e \<Longrightarrow> e = denied"
  by (auto simp: check_addr_def split: if_splits)

lemma prefix_contains_invalid [simp]: "\<not> prefix_contains q InvalidAddr"
  by (cases q; simp)

lemma check_addr_valid: "check_addr p a = Inr u \<Longrightarrow> is_valid a"
  by (auto simp: check_addr_Inr_iff list_ex_iff is_valid_def)

text \<open>The address kept by the loop is the first one, and every address of the lookup was checked.\<close>

lemma check_resolved_keeps:
  "is_valid r \<Longrightarrow> check_resolved p r ips = Inr a \<Longrightarrow> a = r"
  by (induction p r ips rule: check_resolved.induct) (auto simp: result_iff split: option.splits)

lemma check_resolved_all:
  "check_resolved p r ips = Inr a \<Longrightarrow> ip \<in> set ips \<Longrightarrow>
     \<exists>b. addr_from_slice ip = Some b \<and> check_addr p (unmap b) = Inr ()"
  by (induction p r ips rule: check_resolved.induct) (auto simp: result_iff split: option.splits)

lemma check_resolved_first:
  assumes "check_resolved p InvalidAddr (ip # ips) = Inr a"
  shows "\<exists>b. addr_from_slice ip = Some b \<and> a = unmap b \<and> check_addr p a = Inr ()"
proof -
  from assms obtain b where b: "addr_from_slice ip = Some b"
    and ok: "check_addr p (unmap b) = Inr ()"
    and rest: "check_resolved p (unmap b) ips = Inr a"
    by (auto simp: result_iff is_valid_def split: option.splits)
  from ok have "is_valid (unmap b)" by (rule check_addr_valid)
  with rest have "a = unmap b" using check_resolved_keeps by blast
  with b ok show ?thesis by simp
qed

text \<open>What a destination string that passed looks like.\<close>

definition dial_permitted :: "network_policy \<Rightarrow> string \<Rightarrow> bool" where
  "dial_permitted p s \<longleftrightarrow>
     (\<exists>a port. s = join_host_port (addr_string a) (itoa port) \<and> check_addr p a = Inr ()
        \<and> \<not> is4in6 a \<and> 1 \<le> port \<and> port \<le> 65535)"

lemma resolve_sound:
  assumes "resolve_allowed_host_port p lookup host port = Inr s"
  shows "\<exists>a. s = join_host_port (addr_string a) (itoa port) \<and> check_addr p a = Inr ()
           \<and> \<not> is4in6 a \<and> 1 \<le> port \<and> port \<le> 65535"
proof -
  let ?h = "strip_brackets (trim_space host)"
  have port: "1 \<le> port" "port \<le> 65535"
    using assms by (auto simp: resolve_allowed_host_port_def split: if_splits)
  show ?thesis
  proof (cases "parse_addr ?h")
    case (Some ip)
    with assms have "check_addr p (unmap ip) = Inr ()"
      "s = join_host_port (addr_string (unmap ip)) (itoa port)"
      by (auto simp: resolve_allowed_host_port_def Let_def result_iff split: if_splits)
    with port show ?thesis by (intro exI [of _ "unmap ip"]) simp
  next
    case None
    with assms obtain ip ips a where
      "lookup ?h = Some (ip # ips)" and c: "check_resolved p InvalidAddr (ip # ips) = Inr a"
      and s: "s = join_host_port (addr_string a) (itoa port)"
      by (auto simp: resolve_allowed_host_port_def Let_def result_iff simp del: check_resolved.simps
          split: if_splits option.splits list.splits)
    from check_resolved_first [OF c] s port show ?thesis by auto
  qed
qed

lemma resolve_checks_every_address:
  assumes "resolve_allowed_host_port p lookup host port = Inr s"
    and "parse_addr (strip_brackets (trim_space host)) = None"
  shows "\<exists>ips. lookup (strip_brackets (trim_space host)) = Some ips \<and> ips \<noteq> []
    \<and> (\<forall>ip \<in> set ips. \<exists>b. addr_from_slice ip = Some b \<and> check_addr p (unmap b) = Inr ())"
proof -
  from assms obtain ip ips a where
    l: "lookup (strip_brackets (trim_space host)) = Some (ip # ips)"
    and c: "check_resolved p InvalidAddr (ip # ips) = Inr a"
    by (auto simp: resolve_allowed_host_port_def Let_def result_iff simp del: check_resolved.simps
        split: if_splits option.splits list.splits)
  from l check_resolved_all [OF c] show ?thesis by blast
qed

section \<open>The interface the connection handlers use\<close>

text \<open>
  A handler hands a gate the host and port of a request and dials only what the gate returns.
  The contract: what is returned is permitted, and a refusal carries a code.
\<close>

locale address_gate =
  fixes resolve :: "string \<Rightarrow> int \<Rightarrow> 'e + string"
    and permitted :: "string \<Rightarrow> bool"
  assumes resolve_permitted: "resolve h n = Inr s \<Longrightarrow> permitted s"
    and resolve_port: "resolve h n = Inr s \<Longrightarrow> 1 \<le> n \<and> n \<le> 65535"
begin

lemma refused_port: "n < 1 \<or> 65535 < n \<Longrightarrow> \<exists>e. resolve h n = Inl e"
  using resolve_port [of h n] by (cases "resolve h n") fastforce+

lemma not_permitted_refused: "\<forall>s. \<not> permitted s \<Longrightarrow> \<exists>e. resolve h n = Inl e"
  using resolve_permitted [of h n] by (cases "resolve h n") auto

end

interpretation gate: address_gate "resolve_allowed_host_port p lookup" "dial_permitted p"
  for p lookup
  by unfold_locales (use resolve_sound in \<open>fastforce simp: dial_permitted_def\<close>)+

section \<open>What a constructed policy denies\<close>

lemma default_deny_parses:
  "add_defaults [] default_deny =
     Inr [Prefix (V4 0x7F000000) 8, Prefix (V6 1 []) 128, Prefix (V4 0) 8, Prefix (V4 0xA9FE0000) 16]"
  by code_simp

lemma private_deny_parses:
  "map (\<lambda>d. case parse_prefix d of Some q \<Rightarrow> q | None \<Rightarrow> zero_prefix) private_deny =
     [Prefix (V4 0x0A000000) 8, Prefix (V4 0xAC100000) 12, Prefix (V4 0xC0A80000) 16,
      Prefix (V6 0xFC000000000000000000000000000000 []) 7,
      Prefix (V6 0xFE800000000000000000000000000000 []) 10]"
  by code_simp

lemma add_deny_extends:
  "add_deny seen ps ds = Inr qs \<Longrightarrow> set ps \<subseteq> set qs"
proof (induction seen ps ds arbitrary: qs rule: add_deny.induct)
  case (2 seen ps x ds)
  then show ?case
    by (auto simp: Let_def split: if_splits option.splits)
qed simp

lemma add_deny_member:
  assumes "add_deny seen ps ds = Inr qs" "x \<in> set ds" "trim_space x \<noteq> []"
  shows "trim_space x \<in> set seen \<or> (\<exists>q \<in> set qs. parse_prefix_or_ip (trim_space x) = Some q)"
  using assms
proof (induction seen ps ds arbitrary: qs rule: add_deny.induct)
  case (2 seen ps y ds)
  show ?case
  proof (cases "trim_space y = [] \<or> trim_space y \<in> set seen")
    case True
    with 2 show ?thesis by (auto simp: Let_def)
  next
    case False
    with 2(3) obtain q where q: "parse_prefix_or_ip (trim_space y) = Some q"
      and r: "add_deny (trim_space y # seen) (ps @ [q]) ds = Inr qs"
      by (auto simp: Let_def split: option.splits)
    have "q \<in> set qs" using add_deny_extends [OF r] by auto
    show ?thesis
    proof (cases "trim_space x = trim_space y")
      case True
      with q \<open>q \<in> set qs\<close> show ?thesis by metis
    next
      case ne: False
      with 2(4) have "x \<in> set ds" by auto
      with 2(2) [OF refl False q r] 2(5) ne show ?thesis by auto
    qed
  qed
qed simp

lemma new_policy_shape:
  assumes "new_network_policy ap deny allow = Inr p"
  shows "np_allow_private p = ap"
    and "\<exists>ds. add_deny default_deny [Prefix (V4 0x7F000000) 8, Prefix (V6 1 []) 128,
             Prefix (V4 0) 8, Prefix (V4 0xA9FE0000) 16] deny = Inr ds \<and> set ds \<subseteq> set (np_deny p)"
    and "add_allow [] allow = Inr (np_allow p)"
  using assms by (auto simp: new_network_policy_def result_iff default_deny_parses)

lemma new_policy_denies_entry:
  assumes "new_network_policy ap deny allow = Inr p" "x \<in> set deny"
    and "parse_prefix_or_ip (trim_space x) = Some q" "trim_space x \<notin> set default_deny"
    and "trim_space x \<noteq> []"
  shows "q \<in> set (np_deny p)"
  using new_policy_shape(2) [OF assms(1)] add_deny_member [OF _ assms(2,5)] assms(3,4) by fastforce

lemma new_policy_default_deny:
  assumes "new_network_policy ap deny allow = Inr p"
  shows "{Prefix (V4 0x7F000000) 8, Prefix (V6 1 []) 128, Prefix (V4 0) 8, Prefix (V4 0xA9FE0000) 16}
           \<subseteq> set (np_deny p)"
  using new_policy_shape(2) [OF assms] add_deny_extends by fastforce

lemma add_deny_Inl_iff:
  "(\<exists>e. add_deny seen ps ds = Inl e) \<longleftrightarrow>
     (\<exists>x \<in> set ds. trim_space x \<noteq> [] \<and> trim_space x \<notin> set seen
        \<and> parse_prefix_or_ip (trim_space x) = None)"
proof (induction seen ps ds rule: add_deny.induct)
  case (2 seen ps x ds)
  show ?case
  proof (cases "trim_space x = [] \<or> trim_space x \<in> set seen")
    case True
    with 2(1) show ?thesis by (auto simp: Let_def)
  next
    case False
    show ?thesis
    proof (cases "parse_prefix_or_ip (trim_space x)")
      case None
      with False show ?thesis by (auto simp: Let_def)
    next
      case (Some q)
      with False 2(2) [OF refl False Some] show ?thesis by (auto simp: Let_def)
    qed
  qed
qed simp

lemma add_allow_Inl_iff:
  "(\<exists>e. add_allow ps as = Inl e) \<longleftrightarrow>
     (\<exists>x \<in> set as. trim_space x \<noteq> [] \<and> parse_prefix_or_ip (trim_space x) = None)"
  by (induction ps as rule: add_allow.induct) (auto simp: Let_def split: option.splits)

lemma first_octet: "v4_octet w 0 = uint (drop_bit 24 w)"
proof -
  have "take_bit 8 (drop_bit 24 w) = drop_bit 24 w"
    by (rule bit_word_eqI) (auto simp: bit_take_bit_iff bit_drop_bit_eq dest: bit_imp_le_length)
  then show ?thesis by (simp add: v4_octet_def)
qed

lemma zero_net_contains: "prefix_contains (Prefix (V4 0) 8) (V4 w) \<longleftrightarrow> v4_octet w 0 = 0"
  unfolding prefix_contains_V4 first_octet by (simp add: uint_0_iff)

section \<open>Properties\<close>

text \<open>
  C1: a destination the policy resolves is the text of one address, not IPv4-mapped, that
  passed the check, with a port in range. It is the literal's own address when the host is a
  literal; otherwise it is the first address of the lookup, and every address of the lookup
  passed the check too, so no answer of the resolver can slip by behind a permitted one.
\<close>

theorem resolved_address_was_checked:
  assumes "resolve_allowed_host_port p lookup host port = Inr s"
  shows "\<exists>a. s = join_host_port (addr_string a) (itoa port) \<and> check_addr p a = Inr ()
      \<and> \<not> is4in6 a \<and> 1 \<le> port \<and> port \<le> 65535
      \<and> (case parse_addr (strip_brackets (trim_space host)) of
           Some b \<Rightarrow> a = unmap b
         | None \<Rightarrow> (\<exists>ip ips b. lookup (strip_brackets (trim_space host)) = Some (ip # ips)
             \<and> addr_from_slice ip = Some b \<and> a = unmap b
             \<and> list_all (\<lambda>i. \<exists>c. addr_from_slice i = Some c \<and> check_addr p (unmap c) = Inr ()) ips))"
proof -
  let ?h = "strip_brackets (trim_space host)"
  have port: "1 \<le> port" "port \<le> 65535" using gate.resolve_port [OF assms] by auto
  show ?thesis
  proof (cases "parse_addr ?h")
    case (Some ip)
    with assms have "check_addr p (unmap ip) = Inr ()"
      "s = join_host_port (addr_string (unmap ip)) (itoa port)"
      by (auto simp: resolve_allowed_host_port_def Let_def result_iff split: if_splits)
    with Some port show ?thesis by (intro exI [of _ "unmap ip"]) simp
  next
    case None
    with assms obtain ip ips a where
      l: "lookup ?h = Some (ip # ips)" and c: "check_resolved p InvalidAddr (ip # ips) = Inr a"
      and s: "s = join_host_port (addr_string a) (itoa port)"
      by (auto simp: resolve_allowed_host_port_def Let_def result_iff simp del: check_resolved.simps
          split: if_splits option.splits list.splits)
    from check_resolved_first [OF c] obtain b where
      b: "addr_from_slice ip = Some b" "a = unmap b" "check_addr p a = Inr ()" by blast
    from check_resolved_all [OF c]
    have "list_all (\<lambda>i. \<exists>c. addr_from_slice i = Some c \<and> check_addr p (unmap c) = Inr ()) ips"
      by (simp add: list_all_iff)
    with None l s b port show ?thesis by (intro exI [of _ a]) auto
  qed
qed

theorem resolved_address_was_checked_witness:
  "\<exists>a. ''93.184.216.34:22'' = join_host_port (addr_string a) (itoa 22)
      \<and> check_addr \<lparr>np_allow_private = False, np_deny = [], np_allow = []\<rparr> a = Inr ()"
proof -
  have "resolve_allowed_host_port \<lparr>np_allow_private = False, np_deny = [], np_allow = []\<rparr>
      (\<lambda>_. Some [map char_of [93, 184, 216, 34 :: nat]]) ''example.com'' 22 = Inr ''93.184.216.34:22''"
    by code_simp
  from resolved_address_was_checked [OF this] show ?thesis by blast
qed

text \<open>
  C13: a policy built by the constructor, whatever its deny list, admits no loopback, link-local,
  link-local multicast or unspecified address, none of \<^verbatim>\<open>0.0.0.0/8\<close>, and no private one unless
  private ranges were allowed, except through an entry of its allow list.
\<close>

theorem constructed_policy_denies_internal:
  assumes "new_network_policy ap deny allow = Inr p"
    and "\<not> list_ex (\<lambda>q. prefix_contains q a) (np_allow p)"
    and "check_addr p a = Inr ()"
  shows "is_valid a \<and> \<not> is_unspecified a \<and> \<not> is_loopback a \<and> \<not> is_link_local_unicast a
    \<and> \<not> is_link_local_multicast a \<and> (ap \<or> \<not> is_private a)
    \<and> (case a of V4 w \<Rightarrow> v4_octet w 0 \<noteq> 0 | _ \<Rightarrow> True)"
proof -
  from assms(2,3) have no_deny: "\<not> list_ex (\<lambda>q. prefix_contains q a) (np_deny p)"
    and rest: "is_valid a \<and> \<not> is_unspecified a \<and> \<not> is_loopback a \<and> \<not> is_link_local_unicast a
      \<and> \<not> is_link_local_multicast a \<and> (ap \<or> \<not> is_private a)"
    using new_policy_shape(1) [OF assms(1)] by (auto simp: check_addr_Inr_iff)
  have "Prefix (V4 0) 8 \<in> set (np_deny p)" using new_policy_default_deny [OF assms(1)] by auto
  with no_deny have "\<not> prefix_contains (Prefix (V4 0) 8) a" by (auto simp: list_ex_iff)
  then have "v4_octet w 0 \<noteq> 0" if "a = V4 w" for w using that zero_net_contains by blast
  with rest show ?thesis by (cases a) auto
qed

theorem constructed_policy_denies_internal_witness:
  "\<exists>p. new_network_policy False [] [] = Inr p \<and> check_addr p (V4 0x08080808) = Inr ()
     \<and> \<not> is_private (V4 0x08080808) \<and> v4_octet 0x08080808 0 \<noteq> 0"
proof -
  define p where "p = projr (new_network_policy False [] [])"
  have p: "new_network_policy False [] [] = Inr p"
    unfolding p_def by (simp add: new_network_policy_def default_deny_parses)
  have "check_addr (projr (new_network_policy False [] [])) (V4 0x08080808) = Inr ()"
    and "\<not> list_ex (\<lambda>q. prefix_contains q (V4 0x08080808)) (np_allow (projr (new_network_policy False [] [])))"
    by code_simp+
  then have c: "check_addr p (V4 0x08080808) = Inr ()"
    and a: "\<not> list_ex (\<lambda>q. prefix_contains q (V4 0x08080808)) (np_allow p)"
    by (simp_all only: p_def not_False_eq_True)
  from constructed_policy_denies_internal [OF p a c] p c show ?thesis by auto
qed

text \<open>
  Every entry of the configured deny list is enforced: an address inside it that no allow
  entry covers is refused, for any other settings.
\<close>

theorem configured_deny_enforced:
  assumes "new_network_policy ap deny allow = Inr p" "x \<in> set deny"
    and "parse_prefix_or_ip (trim_space x) = Some q" "trim_space x \<notin> set default_deny"
    and "trim_space x \<noteq> []"
    and "prefix_contains q a" "\<not> list_ex (\<lambda>q. prefix_contains q a) (np_allow p)"
  shows "check_addr p a = Inl denied"
proof -
  have "q \<in> set (np_deny p)" using new_policy_denies_entry [OF assms(1-5)] .
  with assms(6) have "list_ex (\<lambda>q. prefix_contains q a) (np_deny p)" by (auto simp: list_ex_iff)
  with assms(7) show ?thesis by (simp add: check_addr_def)
qed

theorem configured_deny_enforced_witness:
  "check_addr (projr (new_network_policy True ['' 8.8.0.0/16 ''] [])) (V4 0x08080808) = Inl denied"
proof (rule configured_deny_enforced)
  show "new_network_policy True ['' 8.8.0.0/16 ''] [] =
      Inr (projr (new_network_policy True ['' 8.8.0.0/16 ''] []))" by code_simp
  show "'' 8.8.0.0/16 '' \<in> set ['' 8.8.0.0/16 '']" by simp
  show "parse_prefix_or_ip (trim_space '' 8.8.0.0/16 '') = Some (Prefix (V4 0x08080000) 16)" by code_simp
  show "trim_space '' 8.8.0.0/16 '' \<notin> set default_deny" by code_simp
  show "trim_space '' 8.8.0.0/16 '' \<noteq> []" by code_simp
  show "prefix_contains (Prefix (V4 0x08080000) 16) (V4 0x08080808)" by code_simp
  show "\<not> list_ex (\<lambda>q. prefix_contains q (V4 0x08080808))
      (np_allow (projr (new_network_policy True ['' 8.8.0.0/16 ''] [])))" by code_simp
qed

text \<open>
  An IPv6 address written with a zone is outside every prefix, so no deny entry applies to
  it: the verdict does not depend on the deny list. In particular the unspecified address with
  a zone (\<^verbatim>\<open>::%1\<close>, the local system to \<^verbatim>\<open>net.Dial\<close>) passes every policy, although the code's
  own check means to block unspecified addresses.
\<close>

theorem zoned_address_escapes_deny:
  "check_addr (p\<lparr>np_deny := ds\<rparr>) (V6 w (c # z)) = check_addr (p\<lparr>np_deny := []\<rparr>) (V6 w (c # z))
   \<and> check_addr p (V6 0 (c # z)) = Inr ()
   \<and> resolve_allowed_host_port p lookup ''::%1'' 22 = Inr ''[::%1]:22''"
proof -
  have no: "\<not> list_ex (\<lambda>q. prefix_contains q (V6 v (d # y))) qs" for v d y qs
    by (auto simp: list_ex_iff prefix_contains_zone)
  have groups: "v6_group 0 0 = 0" by (simp add: v6_group_def)
  have ok: "check_addr p (V6 0 (d # y)) = Inr ()" for d y
    by (simp add: check_addr_def no is_valid_def is_loopback_def is_link_local_unicast_def
        is_link_local_multicast_def is_private_def groups)
  have "resolve_allowed_host_port p lookup ''::%1'' 22 =
      bind_result (check_addr p (V6 0 ''1'')) (\<lambda>_. Inr ''[::%1]:22'')"
  proof -
    have "trim_space ''::%1'' = ''::%1''" "contains ''::%1'' ''://'' = False"
      "strip_brackets ''::%1'' = ''::%1''" "is_localhost ''::%1'' = False"
      "parse_addr ''::%1'' = Some (V6 0 ''1'')"
      "join_host_port (addr_string (unmap (V6 0 ''1''))) (itoa 22) = ''[::%1]:22''"
      by code_simp+
    then show ?thesis
      by (simp add: resolve_allowed_host_port_def Let_def del: contains.simps)
  qed
  with ok no show ?thesis by (simp add: check_addr_def)
qed

text \<open>
  The constructor fails exactly when a non-blank entry of the deny list (other than the
  built-in ones, which are skipped) or of the allow list is neither a prefix nor an address;
  no malformed entry is dropped silently.
\<close>

theorem new_policy_fails_iff_malformed:
  "(\<exists>e. new_network_policy ap deny allow = Inl e) =
     ((\<exists>x \<in> set deny. trim_space x \<noteq> [] \<and> trim_space x \<notin> set default_deny
        \<and> parse_prefix_or_ip (trim_space x) = None)
      \<or> (\<exists>x \<in> set allow. trim_space x \<noteq> [] \<and> parse_prefix_or_ip (trim_space x) = None))"
proof -
  let ?d = "[Prefix (V4 0x7F000000) 8, Prefix (V6 1 []) 128, Prefix (V4 0) 8, Prefix (V4 0xA9FE0000) 16]"
  have "(\<exists>e. new_network_policy ap deny allow = Inl e) \<longleftrightarrow>
      (\<exists>e. add_deny default_deny ?d deny = Inl e) \<or> (\<exists>e. add_allow [] allow = Inl e)"
    by (cases "add_deny default_deny ?d deny"; cases "add_allow [] allow")
      (simp_all add: new_network_policy_def default_deny_parses)
  then show ?thesis by (simp only: add_deny_Inl_iff add_allow_Inl_iff)
qed

text \<open>
  A refusal carries one of three codes, and the port code exactly when the port is out of
  range; \<^verbatim>\<open>localhost\<close> and its subdomains are refused before any lookup, in any letter case.
\<close>

theorem refusal_codes:
  assumes "resolve_allowed_host_port p lookup host port = Inl e"
  shows "pe_code e \<in> {''INVALID_PORT'', ''INVALID_HOST'', ''NETWORK_DENIED''}
    \<and> (pe_code e = ''INVALID_PORT'' \<longleftrightarrow> port < 1 \<or> 65535 < port)
    \<and> (is_localhost (strip_brackets (trim_space host)) \<and> 1 \<le> port \<and> port \<le> 65535
       \<and> trim_space host \<noteq> [] \<and> \<not> contains (trim_space host) ''://''
       \<longrightarrow> e = denied)"
proof -
  have den: "pe_code denied = ''NETWORK_DENIED''" by (simp add: denied_def)
  have ca: "check_addr p a = Inl e \<Longrightarrow> e = denied" for a by (rule check_addr_Inl)
  have cr: "check_resolved p r ips = Inl e \<Longrightarrow> e = denied" for r ips
    by (induction p r ips rule: check_resolved.induct)
      (auto simp: result_iff dest: check_addr_Inl split: option.splits)
  show ?thesis
    using assms
    by (auto simp: resolve_allowed_host_port_def Let_def result_iff den
        simp del: check_resolved.simps dest: ca cr
        split: if_splits option.splits list.splits)
qed

theorem refusal_codes_witness:
  "pe_code denied \<in> {''INVALID_PORT'', ''INVALID_HOST'', ''NETWORK_DENIED''}
   \<and> resolve_allowed_host_port \<lparr>np_allow_private = True, np_deny = [], np_allow = []\<rparr>
        (\<lambda>_. None) '' LocalHost'' 22 = Inl denied"
proof -
  have r: "resolve_allowed_host_port \<lparr>np_allow_private = True, np_deny = [], np_allow = []\<rparr>
      (\<lambda>_. None) '' LocalHost'' 22 = Inl denied" by code_simp
  from refusal_codes [OF r] r show ?thesis by blast
qed

end
