(* ===== verification/Go_Crypto.thy ===== *)
theory Go_Crypto
  imports Go_Encoding
begin

text \<open>
  The cryptographic primitives and the JSON codec as parameters. \<open>crypto\<close> collects the
  functions of \<^verbatim>\<open>crypto/*\<close>, \<^verbatim>\<open>x/crypto/bcrypt\<close> and \<^verbatim>\<open>x/crypto/argon2\<close> the program calls;
  \<open>crypto_laws\<close> is their documented functional behaviour and nothing about secrecy: a hash has
  its size, GCM opens exactly what it sealed under the same key, nonce and associated data (so
  a changed ciphertext does not open), and a tag of 16 bytes is appended.
\<close>

record crypto =
  sha256 :: "bytes \<Rightarrow> bytes"
  hmac_sha256 :: "bytes \<Rightarrow> bytes \<Rightarrow> bytes"
  gcm_seal :: "bytes \<Rightarrow> bytes \<Rightarrow> bytes \<Rightarrow> bytes \<Rightarrow> bytes"
  gcm_open :: "bytes \<Rightarrow> bytes \<Rightarrow> bytes \<Rightarrow> bytes \<Rightarrow> bytes option"
  bcrypt_ok :: "bytes \<Rightarrow> bytes \<Rightarrow> bool"
  argon2id :: "bytes \<Rightarrow> bytes \<Rightarrow> bytes"

definition nonce_size :: nat where
  "nonce_size = 12"

text \<open>\<^verbatim>\<open>aes.NewCipher\<close> accepts keys of 16, 24 and 32 bytes.\<close>

definition aes_key_ok :: "bytes \<Rightarrow> bool" where
  "aes_key_ok k \<longleftrightarrow> length k \<in> {16, 24, 32}"

definition crypto_laws :: "crypto \<Rightarrow> bool" where
  "crypto_laws c \<longleftrightarrow>
     (\<forall>b. length (sha256 c b) = 32)
     \<and> (\<forall>k b. length (hmac_sha256 c k b) = 32)
     \<and> (\<forall>k n a p ct. gcm_open c k n ct a = Some p \<longleftrightarrow> ct = gcm_seal c k n p a)
     \<and> (\<forall>k n a p. length (gcm_seal c k n p a) = length p + 16)
     \<and> (\<forall>p s. length (argon2id c p s) = 32)"

lemma gcm_open_iff:
  "crypto_laws c \<Longrightarrow> gcm_open c k n ct a = Some p \<longleftrightarrow> ct = gcm_seal c k n p a"
  unfolding crypto_laws_def by blast

lemma crypto_lengths [simp]:
  assumes "crypto_laws c"
  shows "length (sha256 c b) = 32" "length (hmac_sha256 c k b) = 32"
    "length (argon2id c p s) = 32" "length (gcm_seal c k n q a) = length q + 16"
  using assms unfolding crypto_laws_def by blast+

lemma gcm_open_seal [simp]:
  "crypto_laws c \<Longrightarrow> gcm_open c k n (gcm_seal c k n p a) a = Some p"
  using gcm_open_iff by blast

lemma gcm_seal_inj:
  "crypto_laws c \<Longrightarrow> gcm_seal c k n p a = gcm_seal c k n q a \<Longrightarrow> p = q"
  by (metis gcm_open_seal option.inject)

lemma hmac_not_Nil [simp]: "crypto_laws c \<Longrightarrow> hmac_sha256 c k b \<noteq> []"
  using crypto_lengths(2) by (metis list.size(3) zero_neq_numeral)

text \<open>
  An instance, for the witnesses only: the laws are consistent. The tag is constant, so it
  authenticates nothing but the ciphertext's last bytes, which is all the laws ask.
\<close>

definition pad32 :: "bytes \<Rightarrow> bytes" where
  "pad32 b = take 32 (b @ replicate 32 (CHR 0x00))"

definition sample_crypto :: crypto where
  "sample_crypto =
    \<lparr>sha256 = pad32, hmac_sha256 = (\<lambda>k b. pad32 (take 16 b @ take 16 k)),
     gcm_seal = (\<lambda>k n p a. p @ take 16 (pad32 (take 8 k @ take 8 a))),
     gcm_open = (\<lambda>k n ct a.
       if 16 \<le> length ct \<and> drop (length ct - 16) ct = take 16 (pad32 (take 8 k @ take 8 a))
       then Some (take (length ct - 16) ct) else None),
     bcrypt_ok = (\<lambda>h p. h = CHR ''$'' # p), argon2id = (\<lambda>p s. pad32 (p @ s))\<rparr>"

lemma length_pad32 [simp]: "length (pad32 b) = 32"
  by (simp add: pad32_def)

lemma split_tag:
  assumes "length t = 16"
  shows "(if 16 \<le> length ct \<and> drop (length ct - 16) ct = t then Some (take (length ct - 16) ct) else None)
      = Some p \<longleftrightarrow> ct = p @ t"
proof
  assume "(if 16 \<le> length ct \<and> drop (length ct - 16) ct = t
    then Some (take (length ct - 16) ct) else None) = Some p"
  then have "drop (length ct - 16) ct = t" "take (length ct - 16) ct = p"
    by (auto split: if_splits)
  then show "ct = p @ t" by (metis append_take_drop_id)
next
  assume "ct = p @ t"
  with assms show "(if 16 \<le> length ct \<and> drop (length ct - 16) ct = t
    then Some (take (length ct - 16) ct) else None) = Some p" by simp
qed

lemma sample_crypto_laws: "crypto_laws sample_crypto"
proof -
  have tag: "length (take 16 (pad32 b)) = 16" for b by simp
  show ?thesis
    unfolding crypto_laws_def sample_crypto_def crypto.simps
    by (intro conjI allI split_tag [OF tag]) simp_all
qed

end
