(* ===== verification/Go_Json.thy ===== *)
theory Go_Json
  imports Go_Encoding
begin

text \<open>
  JSON strings as \<^verbatim>\<open>encoding/json\<close> writes and reads them: the escapes, with bytes that are not UTF-8 replaced by U+FFFD on both
  sides. The client sends what is typed in such strings, so their length and what they lose matter.
\<close>

section \<open>Writing\<close>

text \<open>The length of the UTF-8 sequence at the front, or 0 when there is none that is valid.\<close>

definition cont_byte :: "char \<Rightarrow> bool" where
  "cont_byte c \<longleftrightarrow> 0x80 \<le> byte c \<and> byte c \<le> 0xBF"

fun rune_len :: "bytes \<Rightarrow> nat" where
  "rune_len [] = 0"
| "rune_len (c # cs) =
     (let b = byte c in
      if b < 0x80 then 1
      else if 0xC2 \<le> b \<and> b \<le> 0xDF then (case cs of c1 # _ \<Rightarrow> if cont_byte c1 then 2 else 0 | _ \<Rightarrow> 0)
      else if 0xE0 \<le> b \<and> b \<le> 0xEF then
        (case cs of c1 # c2 # _ \<Rightarrow>
           if cont_byte c1 \<and> cont_byte c2 \<and> (b = 0xE0 \<longrightarrow> 0xA0 \<le> byte c1) \<and> (b = 0xED \<longrightarrow> byte c1 \<le> 0x9F) then 3 else 0
         | _ \<Rightarrow> 0)
      else if 0xF0 \<le> b \<and> b \<le> 0xF4 then
        (case cs of c1 # c2 # c3 # _ \<Rightarrow>
           if cont_byte c1 \<and> cont_byte c2 \<and> cont_byte c3 \<and> (b = 0xF0 \<longrightarrow> 0x90 \<le> byte c1) \<and> (b = 0xF4 \<longrightarrow> byte c1 \<le> 0x8F) then 4 else 0
         | _ \<Rightarrow> 0)
      else 0)"

definition json_ascii :: "char \<Rightarrow> bytes" where
  "json_ascii c =
    (if c = CHR 0x22 \<or> c = CHR 0x5C then [CHR 0x5C, c]
     else if c = CHR 0x08 then [CHR 0x5C, CHR ''b''] else if c = CHR 0x0C then [CHR 0x5C, CHR ''f'']
     else if c = CHR 0x0A then [CHR 0x5C, CHR ''n''] else if c = CHR 0x0D then [CHR 0x5C, CHR ''r'']
     else if c = CHR 0x09 then [CHR 0x5C, CHR ''t'']
     else if byte c < 0x20 \<or> c = CHR ''<'' \<or> c = CHR ''>'' \<or> c = CHR ''&''
     then [CHR 0x5C, CHR ''u'', CHR ''0'', CHR ''0'', hex_char (byte c div 16), hex_char (byte c mod 16)]
     else [c])"

fun json_escape :: "bytes \<Rightarrow> bytes" where
  "json_escape [] = []"
| "json_escape (c # cs) =
     (if byte c < 0x80 then json_ascii c @ json_escape cs
      else let n = rune_len (c # cs) in
        if n = 0 then (CHR 0x5C # ''ufffd'') @ json_escape cs
        else if take n (c # cs) = [CHR 0xE2, CHR 0x80, CHR 0xA8] then (CHR 0x5C # ''u2028'') @ json_escape (drop (n - 1) cs)
        else if take n (c # cs) = [CHR 0xE2, CHR 0x80, CHR 0xA9] then (CHR 0x5C # ''u2029'') @ json_escape (drop (n - 1) cs)
        else take n (c # cs) @ json_escape (drop (n - 1) cs))"

definition json_quote :: "bytes \<Rightarrow> bytes" where
  "json_quote s = CHR 0x22 # json_escape s @ [CHR 0x22]"

section \<open>Reading\<close>

definition utf8_encode :: "nat \<Rightarrow> bytes" where
  "utf8_encode n =
    (if n < 0x80 then [char_of n]
     else if n < 0x800 then [char_of (0xC0 + n div 64), char_of (0x80 + n mod 64)]
     else if n < 0x10000 then [char_of (0xE0 + n div 4096), char_of (0x80 + n div 64 mod 64), char_of (0x80 + n mod 64)]
     else [char_of (0xF0 + n div 262144), char_of (0x80 + n div 4096 mod 64), char_of (0x80 + n div 64 mod 64), char_of (0x80 + n mod 64)])"

definition replacement :: bytes where
  "replacement = [CHR 0xEF, CHR 0xBF, CHR 0xBD]"

fun hex_four :: "bytes \<Rightarrow> nat option" where
  "hex_four (a # b # c # d # s) =
     (case (hex_val a, hex_val b, hex_val c, hex_val d) of
        (Some w, Some x, Some y, Some z) \<Rightarrow> Some (((16 * w + x) * 16 + y) * 16 + z)
      | _ \<Rightarrow> None)"
| "hex_four _ = None"

text \<open>What follows a backslash: the bytes it stands for and how many it takes. A surrogate counts only as half of a pair.\<close>

definition unicode_escape :: "bytes \<Rightarrow> (bytes \<times> nat) option" where
  "unicode_escape s =
    (case hex_four s of
       None \<Rightarrow> None
     | Some n \<Rightarrow>
         if 0xD800 \<le> n \<and> n < 0xDC00 then
           (case (take 2 (drop 4 s) = CHR 0x5C # ''u'', hex_four (drop 6 s)) of
              (True, Some m) \<Rightarrow>
                if 0xDC00 \<le> m \<and> m < 0xE000 then Some (utf8_encode (0x10000 + (n - 0xD800) * 1024 + (m - 0xDC00)), 11)
                else Some (replacement, 5)
            | _ \<Rightarrow> Some (replacement, 5))
         else if 0xDC00 \<le> n \<and> n < 0xE000 then Some (replacement, 5)
         else Some (utf8_encode n, 5))"

fun escaped :: "bytes \<Rightarrow> (bytes \<times> nat) option" where
  "escaped [] = None"
| "escaped (c # s) =
     (if c = CHR 0x22 \<or> c = CHR 0x5C \<or> c = CHR ''/'' then Some ([c], 1)
      else if c = CHR ''b'' then Some ([CHR 0x08], 1) else if c = CHR ''f'' then Some ([CHR 0x0C], 1)
      else if c = CHR ''n'' then Some ([CHR 0x0A], 1) else if c = CHR ''r'' then Some ([CHR 0x0D], 1)
      else if c = CHR ''t'' then Some ([CHR 0x09], 1)
      else if c = CHR ''u'' then unicode_escape s
      else None)"

fun json_unescape :: "bytes \<Rightarrow> bytes option" where
  "json_unescape [] = Some []"
| "json_unescape (c # cs) =
     (if c = CHR 0x5C then
        (case escaped cs of None \<Rightarrow> None | Some (r, n) \<Rightarrow> map_option (append r) (json_unescape (drop n cs)))
      else if c = CHR 0x22 \<or> byte c < 0x20 then None
      else if byte c < 0x80 then map_option (Cons c) (json_unescape cs)
      else
        let n = rune_len (c # cs) in
        if n = 0 then map_option (append replacement) (json_unescape cs)
        else map_option (append (take n (c # cs))) (json_unescape (drop (n - 1) cs)))"

definition json_unquote :: "bytes \<Rightarrow> bytes option" where
  "json_unquote q =
    (if length q \<ge> 2 \<and> hd q = CHR 0x22 \<and> last q = CHR 0x22 then json_unescape (butlast (tl q)) else None)"

section \<open>What survives\<close>

fun replace_invalid :: "bytes \<Rightarrow> bytes" where
  "replace_invalid [] = []"
| "replace_invalid (c # cs) =
     (if byte c < 0x80 then c # replace_invalid cs
      else let n = rune_len (c # cs) in
        if n = 0 then replacement @ replace_invalid cs else take n (c # cs) @ replace_invalid (drop (n - 1) cs))"

fun utf8_valid :: "bytes \<Rightarrow> bool" where
  "utf8_valid [] \<longleftrightarrow> True"
| "utf8_valid (c # cs) \<longleftrightarrow>
     (if byte c < 0x80 then utf8_valid cs
      else let n = rune_len (c # cs) in n \<noteq> 0 \<and> utf8_valid (drop (n - 1) cs))"

section \<open>Lemmas\<close>

lemma json_ascii_length: "length (json_ascii c) \<le> 6"
  by (simp add: json_ascii_def)

lemma rune_len_le: "rune_len s \<le> length s"
  by (cases s rule: rune_len.cases) (auto simp: Let_def split: list.split)

lemma json_escape_length: "length (json_escape s) \<le> 6 * length s"
proof (induction s rule: json_escape.induct)
  case 1
  then show ?case by simp
next
  case (2 c cs)
  show ?case
  proof (cases "byte c < 0x80")
    case True
    with 2(1) json_ascii_length [of c] show ?thesis by simp
  next
    case False
    let ?n = "rune_len (c # cs)"
    have n: "?n \<le> Suc (length cs)" using rune_len_le [of "c # cs"] by simp
    show ?thesis
    proof (cases "?n = 0")
      case True
      with False 2(2) show ?thesis by (simp add: Let_def del: rune_len.simps)
    next
      case n0: False
      have "length (json_escape (drop (?n - 1) cs)) \<le> 6 * (length cs - (?n - 1))"
        using 2(3-5) False n0 by (auto simp del: rune_len.simps split: if_split_asm)
      then have "length (json_escape (drop (?n - 1) cs)) \<le> 6 * length cs"
        "?n + length (json_escape (drop (?n - 1) cs)) \<le> 6 + 6 * length cs"
        using n n0 by linarith+
      then show ?thesis using False n0 n by (simp add: Let_def del: rune_len.simps)
    qed
  qed
qed

lemma json_escape_repeat: "json_escape (replicate n CHR ''<'') = concat (replicate n (json_ascii CHR ''<''))"
  by (induction n) simp_all

lemma rune_len_take:
  assumes "rune_len s = n" "n \<noteq> 0"
  shows "rune_len (take n s @ r) = n"
  using assms by (cases s rule: rune_len.cases) (auto simp: Let_def split: list.splits if_split_asm)

lemma utf8_valid_replace: "utf8_valid s \<Longrightarrow> replace_invalid s = s"
proof (induction s rule: utf8_valid.induct)
  case (2 c cs)
  show ?case
  proof (cases "byte c < 0x80")
    case False
    let ?n = "rune_len (c # cs)"
    have n: "?n \<noteq> 0" "utf8_valid (drop (?n - 1) cs)" using 2(3) False by (simp_all add: Let_def del: rune_len.simps)
    then obtain k where k: "?n = Suc k" by (cases ?n) auto
    have "replace_invalid (drop (?n - 1) cs) = drop (?n - 1) cs" using 2(2) False n by simp
    then show ?thesis using False k by (simp add: Let_def del: rune_len.simps)
  qed (use 2 in simp)
qed simp

lemma length_replace_invalid: "length (replace_invalid s) \<le> 3 * length s"
proof (induction s rule: replace_invalid.induct)
  case (2 c cs)
  let ?n = "rune_len (c # cs)"
  have n: "?n \<le> Suc (length cs)" using rune_len_le [of "c # cs"] by simp
  consider "byte c < 0x80" | "\<not> byte c < 0x80" "?n = 0" | "\<not> byte c < 0x80" "?n \<noteq> 0" by blast
  then show ?case
  proof cases
    case 2
    with "2.IH"(2) show ?thesis by (simp add: replacement_def Let_def del: rune_len.simps)
  next
    case 3
    have "length (replace_invalid (drop (?n - 1) cs)) \<le> 3 * length (drop (?n - 1) cs)" using "2.IH"(3) 3 by simp
    then show ?thesis using 3 n by (simp add: Let_def del: rune_len.simps)
  qed (use "2.IH"(1) in simp)
qed simp

lemma hex_four_char:
  "a < 16 \<Longrightarrow> b < 16 \<Longrightarrow> hex_four (CHR ''0'' # CHR ''0'' # hex_char a # hex_char b # s) = Some (16 * a + b)"
proof -
  have "hex_val CHR ''0'' = Some 0" by code_simp
  then show "a < 16 \<Longrightarrow> b < 16 \<Longrightarrow> hex_four (CHR ''0'' # CHR ''0'' # hex_char a # hex_char b # s) = Some (16 * a + b)"
    by (simp add: hex_val_char)
qed

lemma append_one: "append [x] = Cons x"
  by (rule ext) simp

lemma unescape_u:
  "unicode_escape s = Some (r, n) \<Longrightarrow> json_unescape (CHR 0x5C # CHR ''u'' # s) = map_option (append r) (json_unescape (drop n (CHR ''u'' # s)))"
  by simp

lemma unescape_control:
  assumes "byte c < 0x80"
  shows "json_unescape ((CHR 0x5C # ''u00'') @ hex_char (byte c div 16) # hex_char (byte c mod 16) # s) = map_option (Cons c) (json_unescape s)"
proof -
  have "byte c div 16 < 16" using byte_div_lt [of 16 16 c] by simp
  then have h: "hex_four (CHR ''0'' # CHR ''0'' # hex_char (byte c div 16) # hex_char (byte c mod 16) # s) = Some (byte c)"
    by (simp add: hex_four_char del: hex_four.simps)
  have "unicode_escape (CHR ''0'' # CHR ''0'' # hex_char (byte c div 16) # hex_char (byte c mod 16) # s) = Some ([c], 5)"
    using assms unfolding unicode_escape_def h option.case by (simp add: utf8_encode_def)
  from unescape_u [OF this] show ?thesis unfolding append_one append.simps by simp
qed

lemma json_ascii_cases:
  "c \<in> {CHR 0x22, CHR 0x5C} \<or> c \<in> {CHR 0x08, CHR 0x0C, CHR 0x0A, CHR 0x0D, CHR 0x09} \<or>
   json_ascii c = (CHR 0x5C # ''u00'') @ [hex_char (byte c div 16), hex_char (byte c mod 16)] \<or>
   json_ascii c = [c] \<and> c \<noteq> CHR 0x5C \<and> c \<noteq> CHR 0x22 \<and> \<not> byte c < 0x20"
  by (simp add: json_ascii_def)

lemma unescape_ascii:
  assumes "byte c < 0x80"
  shows "json_unescape (json_ascii c @ s) = map_option (Cons c) (json_unescape s)"
proof -
  consider "c \<in> {CHR 0x22, CHR 0x5C}" | "c \<in> {CHR 0x08, CHR 0x0C, CHR 0x0A, CHR 0x0D, CHR 0x09}"
    | "json_ascii c = (CHR 0x5C # ''u00'') @ [hex_char (byte c div 16), hex_char (byte c mod 16)]"
    | "json_ascii c = [c]" "c \<noteq> CHR 0x5C" "c \<noteq> CHR 0x22" "\<not> byte c < 0x20"
    using json_ascii_cases [of c] by blast
  then show ?thesis
  proof cases
    case 1
    then show ?thesis by (elim insertE emptyE; hypsubst; simp add: json_ascii_def append_one)
  next
    case 2
    then show ?thesis by (elim insertE emptyE; hypsubst; simp add: json_ascii_def append_one)
  next
    case 3
    show ?thesis unfolding 3 using unescape_control [OF assms, of s] by simp
  next
    case 4
    with assms show ?thesis by simp
  qed
qed

lemma unescape_replaced: "json_unescape ((CHR 0x5C # ''ufffd'') @ s) = map_option (append replacement) (json_unescape s)"
proof -
  have "hex_four (''fffd'' @ s) = Some 0xFFFD" by (simp add: hex_val_def)
  moreover have "utf8_encode 0xFFFD = replacement" by code_simp
  ultimately have "unicode_escape (''fffd'' @ s) = Some (replacement, 5)" by (simp add: unicode_escape_def)
  from unescape_u [OF this] show ?thesis unfolding append.simps by simp
qed

lemma unescape_separator:
  "json_unescape ((CHR 0x5C # ''u2028'') @ s) = map_option (append [CHR 0xE2, CHR 0x80, CHR 0xA8]) (json_unescape s)"
  "json_unescape ((CHR 0x5C # ''u2029'') @ s) = map_option (append [CHR 0xE2, CHR 0x80, CHR 0xA9]) (json_unescape s)"
proof -
  have h: "hex_four (''2028'' @ s) = Some 0x2028" "hex_four (''2029'' @ s) = Some 0x2029" by (simp_all add: hex_val_def)
  have u: "utf8_encode 0x2028 = [CHR 0xE2, CHR 0x80, CHR 0xA8]" "utf8_encode 0x2029 = [CHR 0xE2, CHR 0x80, CHR 0xA9]" by code_simp+
  have "unicode_escape (''2028'' @ s) = Some ([CHR 0xE2, CHR 0x80, CHR 0xA8], 5)"
    "unicode_escape (''2029'' @ s) = Some ([CHR 0xE2, CHR 0x80, CHR 0xA9], 5)"
    using h by (simp_all add: unicode_escape_def u del: hex_four.simps)
  then show "json_unescape ((CHR 0x5C # ''u2028'') @ s) = map_option (append [CHR 0xE2, CHR 0x80, CHR 0xA8]) (json_unescape s)"
    "json_unescape ((CHR 0x5C # ''u2029'') @ s) = map_option (append [CHR 0xE2, CHR 0x80, CHR 0xA9]) (json_unescape s)"
    using unescape_u by simp_all
qed

lemma unescape_rune:
  assumes "rune_len (c # cs) = Suc k" "\<not> byte c < 0x80"
  shows "json_unescape (take (Suc k) (c # cs) @ s) = map_option (append (take (Suc k) (c # cs))) (json_unescape s)"
proof -
  have "rune_len (c # take k cs @ s) = Suc k" using rune_len_take [OF assms(1), of s] by simp
  moreover have "k \<le> length cs" using rune_len_le [of "c # cs"] assms(1) by simp
  moreover have "c \<noteq> CHR 0x5C" "c \<noteq> CHR 0x22" "\<not> byte c < 0x20" using assms(2) by auto
  ultimately show ?thesis using assms(2) by (simp add: Let_def del: rune_len.simps)
qed

lemma json_unescape_escape: "json_unescape (json_escape s) = Some (replace_invalid s)"
proof (induction s rule: json_escape.induct)
  case (2 c cs)
  let ?n = "rune_len (c # cs)"
  note defs = json_escape.simps(2) replace_invalid.simps(2) Let_def
  consider "byte c < 0x80" | "\<not> byte c < 0x80" "?n = 0" | k where "\<not> byte c < 0x80" "?n = Suc k"
    by (cases ?n) blast+
  then show ?case
  proof cases
    case 1
    with "2.IH"(1) show ?thesis by (simp add: unescape_ascii)
  next
    case 2
    with "2.IH"(2) show ?thesis unfolding defs using unescape_replaced [of "json_escape cs"] by (simp del: rune_len.simps json_unescape.simps)
  next
    case 3
    have "?n \<noteq> 0" using 3(2) by simp
    then have "json_unescape (json_escape (drop (?n - 1) cs)) = Some (replace_invalid (drop (?n - 1) cs))"
      using "2.IH"(3-5) 3(1) by blast
    then have ih: "json_unescape (json_escape (drop k cs)) = Some (replace_invalid (drop k cs))" unfolding 3(2) by simp
    note separators = unescape_separator [of "json_escape (drop k cs)", unfolded ih]
    note rune = unescape_rune [OF 3(2,1), of "json_escape (drop k cs)", unfolded ih]
    show ?thesis
      unfolding defs 3(2) using 3(1) separators rune by (simp del: rune_len.simps json_unescape.simps)
  qed
qed simp

text \<open>
  A string that is written and read again is the same when it is UTF-8; bytes that are not are replaced.
\<close>

theorem json_string_roundtrip:
  "json_unquote (json_quote s) = Some (replace_invalid s) \<and> (utf8_valid s \<longrightarrow> replace_invalid s = s)"
  using json_unescape_escape [of s] utf8_valid_replace [of s] by (simp add: json_unquote_def json_quote_def butlast_append)

end
