(* ===== verification/Go_Json_Object.thy ===== *)
theory Go_Json_Object
  imports Go_Json
begin

text \<open>
  JSON documents as \<^verbatim>\<open>encoding/json\<close> reads them into structs and writes them from structs. A value is the text
  it has in the document (\<^verbatim>\<open>json.RawMessage\<close>), and reading a document first checks all of it.
\<close>

section \<open>The syntax\<close>

definition json_space :: "char \<Rightarrow> bool" where
  "json_space c \<longleftrightarrow> c \<in> {CHR '' '', CHR 0x09, CHR 0x0A, CHR 0x0D}"

abbreviation skip_space :: "bytes \<Rightarrow> bytes" where
  "skip_space \<equiv> dropWhile json_space"

text \<open>A scanner returns what follows the value at the front, or None when there is none. This one is inside a string.\<close>

fun scan_string :: "bytes \<Rightarrow> bytes option" where
  "scan_string [] = None"
| "scan_string (c # cs) =
     (if c = CHR 0x22 then Some cs
      else if c = CHR 0x5C then
        (case cs of
           e # h =>
             if e \<in> set ''bfnrt/'' \<or> e = CHR 0x22 \<or> e = CHR 0x5C then scan_string h
             else if e = CHR ''u'' \<and> hex_four h \<noteq> None then scan_string (drop 4 h)
             else None
         | [] \<Rightarrow> None)
      else if byte c < 0x20 then None
      else scan_string cs)"

definition scan_digits :: "bytes \<Rightarrow> bytes option" where
  "scan_digits s = (if s \<noteq> [] \<and> is_digit (hd s) then Some (dropWhile is_digit s) else None)"

text \<open>The four parts of a number: sign, integer, fraction, exponent.\<close>

fun scan_sign :: "char list \<Rightarrow> bytes \<Rightarrow> bytes" where
  "scan_sign signs (c # s) = (if c \<in> set signs then s else c # s)"
| "scan_sign signs [] = []"

fun scan_integer :: "bytes \<Rightarrow> bytes option" where
  "scan_integer (c # s) = (if c = CHR ''0'' then Some s else scan_digits (c # s))"
| "scan_integer [] = None"

fun scan_fraction :: "bytes \<Rightarrow> bytes option" where
  "scan_fraction (c # s) = (if c = CHR ''.'' then scan_digits s else Some (c # s))"
| "scan_fraction [] = Some []"

fun scan_exponent :: "bytes \<Rightarrow> bytes option" where
  "scan_exponent (c # s) = (if c = CHR ''e'' \<or> c = CHR ''E'' then scan_digits (scan_sign ''+-'' s) else Some (c # s))"
| "scan_exponent [] = Some []"

definition scan_number :: "bytes \<Rightarrow> bytes option" where
  "scan_number s =
    Option.bind (scan_integer (scan_sign ''-'' s)) (\<lambda>s1. Option.bind (scan_fraction s1) scan_exponent)"

definition scan_word :: "string \<Rightarrow> bytes \<Rightarrow> bytes option" where
  "scan_word w s = (if has_prefix s w then Some (drop (length w) s) else None)"

text \<open>What was read of \<open>s\<close> when \<open>r\<close> is left.\<close>

definition consumed :: "bytes \<Rightarrow> bytes \<Rightarrow> bytes" where
  "consumed s r = take (length s - length r) s"

lemma skip_space_shorter: "skip_space s = c # r \<Longrightarrow> Suc (length r) \<le> length s"
  using length_dropWhile_le [of json_space s] by simp

text \<open>
  \<open>d\<close> counts the objects and arrays that may still be opened. The members of an object are returned as the texts of their
  keys and values. The comparisons of lengths hold of every scanner (\<open>scan_shorter\<close>).
\<close>

function scan_value :: "nat \<Rightarrow> bytes \<Rightarrow> bytes option"
  and scan_elements :: "nat \<Rightarrow> bytes \<Rightarrow> bytes option"
  and scan_members :: "nat \<Rightarrow> bytes \<Rightarrow> ((bytes \<times> bytes) list \<times> bytes) option" where
  "scan_value d s =
     (case s of
        [] \<Rightarrow> None
      | c # cs \<Rightarrow>
          if c = CHR 0x22 then scan_string cs
          else if c = CHR ''{'' then
            (if d = 0 then None
             else (case skip_space cs of
                 [] \<Rightarrow> None
               | b # r \<Rightarrow> if b = CHR ''}'' then Some r else map_option snd (scan_members (d - 1) (skip_space cs))))
          else if c = CHR ''['' then
            (if d = 0 then None
             else (case skip_space cs of
                 [] \<Rightarrow> None
               | b # r \<Rightarrow> if b = CHR '']'' then Some r else scan_elements (d - 1) (skip_space cs)))
          else if c = CHR ''t'' then scan_word ''true'' s
          else if c = CHR ''f'' then scan_word ''false'' s
          else if c = CHR ''n'' then scan_word ''null'' s
          else scan_number s)"
| "scan_elements d s =
     (case scan_value d s of
        None \<Rightarrow> None
      | Some s1 \<Rightarrow>
          (case skip_space s1 of
             [] \<Rightarrow> None
           | c # r \<Rightarrow>
               if c = CHR '']'' then Some r
               else if c = CHR '','' \<and> length (skip_space r) < length s then scan_elements d (skip_space r)
               else None))"
| "scan_members d s =
     (if s = [] \<or> hd s \<noteq> CHR 0x22 then None
      else (case scan_string (tl s) of
         None \<Rightarrow> None
       | Some s1 \<Rightarrow>
           (case skip_space s1 of
              [] \<Rightarrow> None
            | c # r \<Rightarrow>
                if c = CHR '':'' \<and> length (skip_space r) < length s then
                  (case scan_value d (skip_space r) of
                     None \<Rightarrow> None
                   | Some s2 \<Rightarrow>
                       let member = (consumed s s1, consumed (skip_space r) s2) in
                       (case skip_space s2 of
                          [] \<Rightarrow> None
                        | e # t \<Rightarrow>
                            if e = CHR ''}'' then Some ([member], t)
                            else if e = CHR '','' \<and> length (skip_space t) < length s then
                              map_option (\<lambda>(ms, u). (member # ms, u)) (scan_members d (skip_space t))
                            else None))
                else None)))"
  by pat_completeness auto
termination
proof (relation "measure (\<lambda>x. case x of Inl (d, s) \<Rightarrow> 2 * length s | Inr (Inl (d, s)) \<Rightarrow> 2 * length s + 1 | Inr (Inr (d, s)) \<Rightarrow> 2 * length s + 1)")
qed (auto simp: le_imp_less_Suc length_dropWhile_le dest: skip_space_shorter)

declare scan_value.simps [simp del] scan_elements.simps [simp del] scan_members.simps [simp del]

text \<open>\<^verbatim>\<open>json.Unmarshal\<close> accepts 10000 levels.\<close>

definition max_nesting :: nat where
  "max_nesting = 10000"

definition json_valid :: "bytes \<Rightarrow> bool" where
  "json_valid s \<longleftrightarrow> (case scan_value max_nesting (skip_space s) of None \<Rightarrow> False | Some r \<Rightarrow> skip_space r = [])"

text \<open>The text of the value of a valid document, and the members when it is an object.\<close>

definition document_value :: "bytes \<Rightarrow> bytes" where
  "document_value s = (case scan_value max_nesting (skip_space s) of None \<Rightarrow> [] | Some r \<Rightarrow> consumed (skip_space s) r)"

definition object_members :: "bytes \<Rightarrow> (bytes \<times> bytes) list" where
  "object_members v =
    (case skip_space (tl v) of
       [] \<Rightarrow> []
     | b # r \<Rightarrow> if b = CHR ''}'' then [] else (case scan_members (max_nesting - 1) (skip_space (tl v)) of None \<Rightarrow> [] | Some (ms, _) \<Rightarrow> ms))"

section \<open>Reading into a variable\<close>

text \<open>
  Storing the text of a value: whether its type fits, and the variable after it. A null is stored as nothing, and a value
  of the wrong type leaves the variable as it was; a pointer to a number is set first, to a number that is 0.
\<close>

definition store_string :: "bytes \<Rightarrow> string \<Rightarrow> bool \<times> string" where
  "store_string v old =
    (if v = ''null'' then (True, old) else case json_unquote v of None \<Rightarrow> (False, old) | Some s \<Rightarrow> (True, s))"

definition store_int :: "bytes \<Rightarrow> int \<Rightarrow> bool \<times> int" where
  "store_int v old = (if v = ''null'' then (True, old) else case atoi v of None \<Rightarrow> (False, old) | Some n \<Rightarrow> (True, n))"

definition store_bool :: "bytes \<Rightarrow> bool \<Rightarrow> bool \<times> bool" where
  "store_bool v old =
    (if v = ''null'' then (True, old) else if v = ''true'' then (True, True) else if v = ''false'' then (True, False) else (False, old))"

definition store_int_pointer :: "bytes \<Rightarrow> int option \<Rightarrow> bool \<times> int option" where
  "store_int_pointer v old =
    (if v = ''null'' then (True, None)
     else (case store_int v (case old of None \<Rightarrow> 0 | Some n \<Rightarrow> n) of (fits, n) \<Rightarrow> (fits, Some n)))"

text \<open>The fields of a struct by their names in JSON. A key means the field of that name, or else the first whose name it is up to case.\<close>

type_synonym 'a json_fields = "(string \<times> (bytes \<Rightarrow> 'a \<Rightarrow> bool \<times> 'a)) list"

definition field_of :: "'a json_fields \<Rightarrow> bytes \<Rightarrow> (bytes \<Rightarrow> 'a \<Rightarrow> bool \<times> 'a) option" where
  "field_of fields key =
    (case json_unquote key of
       None \<Rightarrow> None
     | Some name \<Rightarrow>
         (case map_of fields name of
            Some store \<Rightarrow> Some store
          | None \<Rightarrow> map_option snd (find (\<lambda>(field, _). equal_fold field name) fields)))"

text \<open>Every member is stored, in order, whether or not those before it fit; the result tells whether all of them did.\<close>

fun store_members :: "'a json_fields \<Rightarrow> (bytes \<times> bytes) list \<Rightarrow> 'a \<Rightarrow> bool \<times> 'a" where
  "store_members fields [] x = (True, x)"
| "store_members fields ((key, v) # ms) x =
     (case (case field_of fields key of None \<Rightarrow> (True, x) | Some store \<Rightarrow> store v x) of
        (fits, y) \<Rightarrow> (case store_members fields ms y of (rest, z) \<Rightarrow> (fits \<and> rest, z)))"

definition store_struct :: "'a json_fields \<Rightarrow> bytes \<Rightarrow> 'a \<Rightarrow> bool \<times> 'a" where
  "store_struct fields v x =
    (if v = ''null'' then (True, x)
     else if v \<noteq> [] \<and> hd v = CHR ''{'' then store_members fields (object_members v) x
     else (False, x))"

text \<open>\<^verbatim>\<open>json.Unmarshal\<close>: no error, and the variable after it.\<close>

definition json_unmarshal :: "(bytes \<Rightarrow> 'a \<Rightarrow> bool \<times> 'a) \<Rightarrow> bytes \<Rightarrow> 'a \<Rightarrow> bool \<times> 'a" where
  "json_unmarshal store s x = (if json_valid s then store (document_value s) x else (False, x))"

text \<open>A field of a struct, by how its value is stored, read and replaced.\<close>

definition field :: "(bytes \<Rightarrow> 'b \<Rightarrow> bool \<times> 'b) \<Rightarrow> ('a \<Rightarrow> 'b) \<Rightarrow> ('b \<Rightarrow> 'a \<Rightarrow> 'a) \<Rightarrow> bytes \<Rightarrow> 'a \<Rightarrow> bool \<times> 'a" where
  "field store get put v x = (case store v (get x) of (fits, y) \<Rightarrow> (fits, put y x))"

text \<open>The callers that look at the error of \<^verbatim>\<open>json.Unmarshal\<close>.\<close>

definition if_fits :: "bool \<times> 'a \<Rightarrow> 'a option" where
  "if_fits r = (case r of (fits, x) \<Rightarrow> if fits then Some x else None)"

section \<open>Writing a struct\<close>

fun members_text :: "(string \<times> bytes) list \<Rightarrow> bytes" where
  "members_text [] = []"
| "members_text [(name, v)] = json_quote name @ CHR '':'' # v"
| "members_text ((name, v) # ms) = json_quote name @ CHR '':'' # v @ CHR '','' # members_text ms"

definition object_text :: "(string \<times> bytes) list \<Rightarrow> bytes" where
  "object_text ms = CHR ''{'' # members_text ms @ ''}''"

definition bool_text :: "bool \<Rightarrow> bytes" where
  "bool_text b = (if b then ''true'' else ''false'')"

text \<open>A member that is left out when it is empty.\<close>

definition omit_empty :: "string \<Rightarrow> string \<Rightarrow> (string \<times> bytes) list" where
  "omit_empty name s = (if s = [] then [] else [(name, json_quote s)])"

section \<open>What is written is read\<close>

text \<open>A text that is scanned as one value, whatever may follow it in an object or an array.\<close>

definition value_end :: "bytes \<Rightarrow> bool" where
  "value_end r \<longleftrightarrow> r = [] \<or> hd r = CHR '','' \<or> hd r = CHR ''}'' \<or> hd r = CHR '']''"

definition value_text :: "nat \<Rightarrow> bytes \<Rightarrow> bool" where
  "value_text d v \<longleftrightarrow> v \<noteq> [] \<and> \<not> json_space (hd v) \<and> (\<forall>r. value_end r \<longrightarrow> scan_value d (v @ r) = Some r)"

lemma hex_char_four: "a < 16 \<Longrightarrow> b < 16 \<Longrightarrow> hex_four (CHR ''0'' # CHR ''0'' # hex_char a # hex_char b # s) \<noteq> None"
  by (simp only: hex_four_char option.distinct not_False_eq_True)

lemma scan_string_ascii:
  assumes "byte c < 0x80"
  shows "scan_string (json_ascii c @ s) = scan_string s"
proof -
  consider "c \<in> {CHR 0x22, CHR 0x5C}" | "c \<in> {CHR 0x08, CHR 0x0C, CHR 0x0A, CHR 0x0D, CHR 0x09}"
    | "json_ascii c = (CHR 0x5C # ''u00'') @ [hex_char (byte c div 16), hex_char (byte c mod 16)]"
    | "json_ascii c = [c]" "c \<noteq> CHR 0x5C" "c \<noteq> CHR 0x22" "\<not> byte c < 0x20"
    using json_ascii_cases [of c] by blast
  then show ?thesis
  proof cases
    case 1
    then show ?thesis by (elim insertE emptyE; hypsubst; simp add: json_ascii_def)
  next
    case 2
    then show ?thesis by (elim insertE emptyE; hypsubst; simp add: json_ascii_def)
  next
    case 3
    have "byte c div 16 < 16" using byte_div_lt [of 16 16 c] by simp
    then have "hex_four (CHR ''0'' # CHR ''0'' # hex_char (byte c div 16) # hex_char (byte c mod 16) # s) \<noteq> None"
      by (intro hex_char_four) simp_all
    then show ?thesis unfolding 3 by (simp del: hex_four.simps)
  qed simp
qed

lemma scan_string_high: "list_all (\<lambda>c. \<not> byte c < 0x80) h \<Longrightarrow> scan_string (h @ s) = scan_string s"
proof (induction h)
  case (Cons c h)
  then have "c \<noteq> CHR 0x22" "c \<noteq> CHR 0x5C" "\<not> byte c < 0x20" by auto
  with Cons show ?case by simp
qed simp

lemma rune_bytes_high:
  assumes "rune_len (c # cs) = n" "\<not> byte c < 0x80"
  shows "list_all (\<lambda>c. \<not> byte c < 0x80) (take n (c # cs))"
  using assms by (auto simp: Let_def cont_byte_def split: list.splits if_split_asm)

lemma scan_string_escape: "scan_string (json_escape s @ CHR 0x22 # r) = Some r"
proof (induction s rule: json_escape.induct)
  case (2 c cs)
  let ?n = "rune_len (c # cs)"
  consider "byte c < 0x80" | "\<not> byte c < 0x80" "?n = 0" | "\<not> byte c < 0x80" "?n \<noteq> 0" by blast
  then show ?case
  proof cases
    case 1
    with "2.IH"(1) show ?thesis by (simp add: scan_string_ascii)
  next
    case 2
    with "2.IH"(2) show ?thesis by (simp add: Let_def hex_val_def del: rune_len.simps)
  next
    case 3
    note ih = "2.IH"(3-5) [OF 3(1) refl 3(2)]
    have h: "scan_string (take ?n (c # cs) @ t) = scan_string t" for t
      by (rule scan_string_high, rule rune_bytes_high) (use 3 in simp_all)
    have "json_escape (c # cs) \<in> {(CHR 0x5C # ''u2028'') @ json_escape (drop (?n - 1) cs),
        (CHR 0x5C # ''u2029'') @ json_escape (drop (?n - 1) cs), take ?n (c # cs) @ json_escape (drop (?n - 1) cs)}"
      using 3 by (simp add: Let_def del: rune_len.simps)
    moreover have "scan_string (json_escape (drop (?n - 1) cs) @ CHR 0x22 # r) = Some r" using ih by blast
    ultimately show ?thesis
      using h [of "json_escape (drop (?n - 1) cs) @ CHR 0x22 # r"]
      by (elim insertE emptyE) (simp_all add: hex_val_def del: rune_len.simps json_escape.simps take_Cons)
  qed
qed simp

lemma value_end_not_digit: "value_end r \<Longrightarrow> r = [] \<or> \<not> is_digit (hd r)"
  by (auto simp: value_end_def is_digit_def)

lemma drop_digits:
  assumes "list_all is_digit ds" "value_end r"
  shows "dropWhile is_digit (ds @ r) = r"
proof -
  have "dropWhile is_digit (ds @ r) = dropWhile is_digit r"
    using assms(1) by (intro dropWhile_append2) (auto simp: list_all_iff)
  then show ?thesis using value_end_not_digit [OF assms(2)] by (cases r) auto
qed

lemma scan_number_end: "value_end r \<Longrightarrow> Option.bind (scan_fraction r) scan_exponent = Some r"
  by (cases r) (auto simp: value_end_def)

lemma scan_number_itoa:
  assumes "value_end r"
  shows "scan_number (itoa i @ r) = Some r"
proof -
  have "scan_integer (dec_string j @ r) = Some r \<and> scan_sign ''-'' (dec_string j @ r) = dec_string j @ r" if j: "0 \<le> j" for j
  proof -
    obtain c cs where c: "dec_string j = c # cs" using dec_string_digits [OF j] by (cases "dec_string j") auto
    have digits: "is_digit c" "list_all is_digit cs" using dec_string_digits [OF j] by (simp_all add: c)
    have sign: "scan_sign ''-'' (dec_string j @ r) = dec_string j @ r" using not_digit_sign [OF digits(1)] by (simp add: c)
    show ?thesis
    proof (cases "j = 0")
      case True
      then have "dec_string j = ''0''" by (simp add: dec_string.simps digit_char_def) code_simp
      with sign show ?thesis by simp
    next
      case False
      then have "c \<noteq> CHR ''0''" using dec_string_no_zero [of j] j by (simp add: c)
      then have "scan_integer (dec_string j @ r) = scan_digits (c # cs @ r)" by (simp add: c)
      also have "\<dots> = Some r" using digits drop_digits [OF digits(2) assms] by (simp add: scan_digits_def)
      finally show ?thesis using sign by simp
    qed
  qed
  from this [of i] this [of "- i"] scan_number_end [OF assms] show ?thesis
    by (cases "i < 0") (simp_all add: itoa_def scan_number_def)
qed

lemma itoa_front: "\<exists>c cs. itoa i = c # cs \<and> (c = CHR ''-'' \<or> is_digit c)"
proof (cases "i < 0")
  case False
  then have d: "dec_string i \<noteq> [] \<and> list_all is_digit (dec_string i)" using dec_string_digits [of i] by simp
  then show ?thesis using False by (cases "dec_string i") (simp_all add: itoa_def)
qed (simp add: itoa_def)

lemma value_text_string [simp]: "value_text d (json_quote s)"
  using scan_string_escape by (simp add: value_text_def json_quote_def json_space_def scan_value.simps)

lemma value_text_int [simp]: "value_text d (itoa i)"
proof -
  obtain c cs where c: "itoa i = c # cs" "c = CHR ''-'' \<or> is_digit c" using itoa_front by blast
  have "c \<noteq> CHR 0x22 \<and> c \<noteq> CHR ''{'' \<and> c \<noteq> CHR ''['' \<and> c \<noteq> CHR ''t'' \<and> c \<noteq> CHR ''f'' \<and> c \<noteq> CHR ''n'' \<and> \<not> json_space c"
    using c(2) by (auto simp: is_digit_def json_space_def)
  then have "scan_value d (itoa i @ r) = scan_number (itoa i @ r) \<and> \<not> json_space (hd (itoa i))" for r
    unfolding c(1) append.simps by (subst scan_value.simps) simp
  then show ?thesis using scan_number_itoa [of _ i] by (simp add: value_text_def c(1))
qed

lemma value_text_bool [simp]: "value_text d (bool_text b)"
  by (simp add: value_text_def bool_text_def json_space_def scan_value.simps scan_word_def has_prefix_def)

lemma value_textD:
  assumes "value_text d v"
  shows "v \<noteq> []" "skip_space (v @ r) = v @ r" "value_end r \<Longrightarrow> scan_value d (v @ r) = Some r"
  using assms by (cases v; simp add: value_text_def)+

lemma consumed_append [simp]: "consumed (v @ r) r = v"
  by (simp add: consumed_def)

lemma quote_front: "json_quote s = CHR 0x22 # tl (json_quote s)" "scan_string (tl (json_quote s) @ r) = Some r"
  using scan_string_escape by (simp_all add: json_quote_def)

text \<open>The members that are written are those that are read.\<close>

lemma scan_members_step:
  assumes "value_text d v"
  shows "scan_members d (json_quote name @ CHR '':'' # v @ CHR ''}'' # r) = Some ([(json_quote name, v)], r)"
    "skip_space t = t \<Longrightarrow> scan_members d (json_quote name @ CHR '':'' # v @ CHR '','' # t) =
       map_option (\<lambda>(ms, u). ((json_quote name, v) # ms, u)) (scan_members d t)"
proof -
  have colon: "skip_space (CHR '':'' # x) = CHR '':'' # x" "skip_space (CHR '','' # x) = CHR '','' # x"
    "skip_space (CHR ''}'' # x) = CHR ''}'' # x" for x by (simp_all add: json_space_def)
  have key: "json_quote name @ x \<noteq> []" "hd (json_quote name @ x) = CHR 0x22" "scan_string (tl (json_quote name @ x)) = Some x" for x
    using scan_string_escape by (simp_all add: json_quote_def)
  have val: "scan_value d (v @ CHR ''}'' # x) = Some (CHR ''}'' # x)" "scan_value d (v @ CHR '','' # x) = Some (CHR '','' # x)" for x
    by (rule value_textD(3) [OF assms], simp add: value_end_def)+
  note eqs = scan_members.simps [of d "json_quote name @ x" for x] key colon option.case list.case value_textD(2) [OF assms] val
  show "scan_members d (json_quote name @ CHR '':'' # v @ CHR ''}'' # r) = Some ([(json_quote name, v)], r)"
    unfolding eqs by simp
  show "scan_members d (json_quote name @ CHR '':'' # v @ CHR '','' # t) =
       map_option (\<lambda>(ms, u). ((json_quote name, v) # ms, u)) (scan_members d t)" if "skip_space t = t"
    unfolding eqs that by simp
qed

lemma members_text_front: "ms \<noteq> [] \<Longrightarrow> \<exists>t. members_text ms = CHR 0x22 # t"
  by (cases ms rule: members_text.cases) (simp_all add: json_quote_def)

lemma scan_members_text:
  assumes "ms \<noteq> []" "list_all (\<lambda>(_, v). value_text d v) ms"
  shows "scan_members d (members_text ms @ CHR ''}'' # r) = Some (map (\<lambda>(name, v). (json_quote name, v)) ms, r)"
  using assms
proof (induction ms rule: members_text.induct)
  case (3 name v m ms)
  obtain t where t: "members_text (m # ms) = CHR 0x22 # t" using members_text_front [of "m # ms"] by blast
  have "skip_space (members_text (m # ms) @ CHR ''}'' # r) = members_text (m # ms) @ CHR ''}'' # r"
    by (simp add: t json_space_def)
  from scan_members_step(2) [OF _ this, of d v name] 3 show ?case by simp
qed (simp_all add: scan_members_step(1))

lemma scan_object_text:
  assumes "list_all (\<lambda>(_, v). value_text d v) ms"
  shows "scan_value (Suc d) (object_text ms @ r) = Some r"
proof (cases "ms = []")
  case False
  obtain t where "members_text ms = CHR 0x22 # t" using members_text_front [OF False] by blast
  then have f: "skip_space (members_text ms @ CHR ''}'' # r) = members_text ms @ CHR ''}'' # r" "members_text ms @ CHR ''}'' # r = CHR 0x22 # t @ CHR ''}'' # r"
    by (simp_all add: json_space_def)
  show ?thesis using scan_members_text [OF False assms, of r] f
    by (simp add: object_text_def scan_value.simps)
qed (simp add: object_text_def scan_value.simps json_space_def)

lemma value_text_object:
  assumes "0 < d" "list_all (\<lambda>(_, v). value_text (d - 1) v) ms"
  shows "value_text d (object_text ms)"
proof -
  have "Suc (d - 1) = d" using assms(1) by simp
  with scan_object_text [OF assms(2)] have "scan_value d (object_text ms @ r) = Some r" for r by simp
  then show ?thesis by (simp add: value_text_def) (simp add: object_text_def json_space_def)
qed

lemma object_members_text:
  assumes "list_all (\<lambda>(_, v). value_text (max_nesting - 1) v) ms"
  shows "object_members (object_text ms) = map (\<lambda>(name, v). (json_quote name, v)) ms"
proof (cases "ms = []")
  case False
  obtain t where "members_text ms = CHR 0x22 # t" using members_text_front [OF False] by blast
  then have f: "skip_space (members_text ms @ ''}'') = members_text ms @ ''}''" "members_text ms @ ''}'' = CHR 0x22 # t @ ''}''"
    by (simp_all add: json_space_def)
  show ?thesis using scan_members_text [OF False assms, of "[]"] f
    by (simp add: object_members_def object_text_def)
qed (simp add: object_members_def object_text_def json_space_def)

text \<open>A document may end with white space, such as the newline of an encoder.\<close>

lemma scanned_document:
  assumes "scan_value max_nesting (v @ w) = Some w" "v \<noteq> []" "\<not> json_space (hd v)" "list_all json_space w"
  shows "json_unmarshal store (v @ w) x = store v x"
proof -
  have "skip_space (v @ w) = v @ w" using assms(2,3) by (cases v) simp_all
  with assms show ?thesis by (simp add: json_unmarshal_def json_valid_def document_value_def list_all_iff)
qed

lemma unmarshal_text: "value_text max_nesting v \<Longrightarrow> json_unmarshal store v x = store v x"
  using scanned_document [of v "[]" store x] by (simp add: value_text_def value_end_def)

lemma unmarshal_object:
  assumes "list_all (\<lambda>(_, v). value_text (max_nesting - 1) v) ms" "list_all json_space w"
  shows "json_unmarshal (store_struct fields) (object_text ms @ w) x = store_members fields (map (\<lambda>(name, v). (json_quote name, v)) ms) x"
proof -
  have "Suc (max_nesting - 1) = max_nesting" by (simp add: max_nesting_def)
  with scan_object_text [OF assms(1), of w] have "scan_value max_nesting (object_text ms @ w) = Some w" by simp
  moreover have "object_text ms \<noteq> ''null''" "object_text ms \<noteq> []" "hd (object_text ms) = CHR ''{''" "\<not> json_space (hd (object_text ms))"
    by (simp_all add: object_text_def json_space_def)
  ultimately show ?thesis using assms(2) by (simp add: scanned_document store_struct_def object_members_text [OF assms(1)])
qed

lemma json_unquote_quote [simp]: "json_unquote (json_quote s) = Some (replace_invalid s)"
  using json_string_roundtrip by blast

lemma store_quoted [simp]: "store_string (json_quote s) old = (True, replace_invalid s)"
proof -
  have "json_quote s \<noteq> ''null''" by (simp add: json_quote_def)
  then show ?thesis by (simp add: store_string_def)
qed

lemma store_itoa [simp]:
  assumes "- (2 ^ 63) \<le> i" "i < 2 ^ 63"
  shows "store_int (itoa i) old = (True, i)"
proof -
  obtain c cs where "itoa i = c # cs" "c = CHR ''-'' \<or> is_digit c" using itoa_front by blast
  then have "itoa i \<noteq> ''null''" by (auto simp: is_digit_def)
  then show ?thesis using atoi_itoa_signed [OF assms] by (simp add: store_int_def)
qed

lemma store_bool_text [simp]: "store_bool (bool_text b) old = (True, b)"
  by (simp add: store_bool_def bool_text_def)

lemma store_pointer_itoa [simp]: "- (2 ^ 63) \<le> i \<Longrightarrow> i < 2 ^ 63 \<Longrightarrow> store_int_pointer (itoa i) old = (True, Some i)"
proof -
  assume a: "- (2 ^ 63) \<le> i" "i < 2 ^ 63"
  obtain c cs where "itoa i = c # cs" "c = CHR ''-'' \<or> is_digit c" using itoa_front by blast
  then have "itoa i \<noteq> ''null''" by (auto simp: is_digit_def)
  with a show ?thesis by (simp add: store_int_pointer_def)
qed

text \<open>The keys that are written are the names of the fields.\<close>

lemma field_of_quote:
  "utf8_valid name \<Longrightarrow> field_of fs (json_quote name) =
     (case map_of fs name of Some store \<Rightarrow> Some store | None \<Rightarrow> map_option snd (find (\<lambda>(f, _). equal_fold f name) fs))"
  by (simp add: field_of_def utf8_valid_replace)

lemma field_of_hit: "map_of fs name = Some store \<Longrightarrow> utf8_valid name \<Longrightarrow> field_of fs (json_quote name) = Some store"
  by (simp add: field_of_def utf8_valid_replace)

lemmas field_simps_json = field_def field_of_quote if_fits_def

definition int64 :: "int \<Rightarrow> bool" where
  "int64 i \<longleftrightarrow> - (2 ^ 63) \<le> i \<and> i < 2 ^ 63"

end
