(* ===== verification/Auth.thy ===== *)
theory Auth
  imports Go_Crypto Go_Json_Object
begin

text \<open>
  \<^verbatim>\<open>internal/auth/auth.go\<close>: the session store, the authenticator and its cookies. Every call of
  \<^verbatim>\<open>time.Now\<close> is an argument (nanoseconds since the epoch), every \<^verbatim>\<open>rand.Read\<close> an argument that
  is \<open>None\<close> when reading fails, and the store is passed and returned. Each store operation runs
  under the store's mutex, so concurrent use is a sequence of operations (\<open>run_ops\<close>).
\<close>

section \<open>The session store\<close>

record session_info =
  si_username :: string
  si_expires :: int

record auth_store =
  as_sessions :: "string \<Rightarrow> session_info option"
  as_ttl :: duration

definition new_store :: "duration \<Rightarrow> auth_store" where
  "new_store ttl = \<lparr>as_sessions = Map.empty, as_ttl = (if ttl \<le> 0 then 12 * hour else ttl)\<rparr>"

definition cleanup_tick :: "auth_store \<Rightarrow> int \<Rightarrow> auth_store" where
  "cleanup_tick s now =
    s\<lparr>as_sessions := (\<lambda>k. case as_sessions s k of
        None \<Rightarrow> None
      | Some v \<Rightarrow> if now > si_expires v then None else Some v)\<rparr>"

definition store_insert :: "auth_store \<Rightarrow> string \<Rightarrow> session_info \<Rightarrow> auth_store" where
  "store_insert s token info = s\<lparr>as_sessions := (as_sessions s)(token \<mapsto> info)\<rparr>"

definition store_create ::
  "auth_store \<Rightarrow> string \<Rightarrow> duration list \<Rightarrow> bytes option \<Rightarrow> int \<Rightarrow> (string \<times> int \<times> auth_store) option" where
  "store_create s username ttl rnd now =
    (case rnd of
       None \<Rightarrow> None
     | Some b \<Rightarrow>
         let token = b64_encode b;
             d = (if ttl \<noteq> [] \<and> hd ttl > 0 then hd ttl else as_ttl s);
             expires = now + d
         in Some (token, expires, store_insert s token \<lparr>si_username = username, si_expires = expires\<rparr>))"

definition store_delete :: "auth_store \<Rightarrow> string \<Rightarrow> auth_store" where
  "store_delete s token = s\<lparr>as_sessions := (as_sessions s)(token := None)\<rparr>"

definition store_get :: "auth_store \<Rightarrow> string \<Rightarrow> int \<Rightarrow> session_info option \<times> auth_store" where
  "store_get s token now =
    (case as_sessions s token of
       None \<Rightarrow> (None, s)
     | Some info \<Rightarrow> if now > si_expires info then (None, store_delete s token) else (Some info, s))"

section \<open>The authenticator\<close>

datatype auth_error = ErrInvalidCredentials | ErrUnauthorized | RandFailed | CipherFailed

record authenticator =
  au_username :: string
  au_password :: string
  au_password_hash :: string
  au_secure_cookie :: bool
  au_ttl :: duration
  au_secret :: string

record cookie =
  ck_name :: string
  ck_value :: string
  ck_path :: string
  ck_http_only :: bool
  ck_same_site_lax :: bool
  ck_secure :: bool
  ck_expires :: int
  ck_max_age :: int

definition cookie_name :: string where
  "cookie_name = ''gowebssh_session''"

definition persistent_prefix :: string where
  "persistent_prefix = ''p1.''"

definition check_password :: "crypto \<Rightarrow> authenticator \<Rightarrow> string \<Rightarrow> bool" where
  "check_password c a password =
    (if au_password_hash a \<noteq> [] then bcrypt_ok c (au_password_hash a) password
     else password = au_password a)"

definition authenticate :: "crypto \<Rightarrow> authenticator \<Rightarrow> string \<Rightarrow> string \<Rightarrow> auth_error + unit" where
  "authenticate c a username password =
    (if username \<noteq> au_username a then Inl ErrInvalidCredentials
     else if \<not> check_password c a password then Inl ErrInvalidCredentials
     else Inr ())"

definition signed_token :: "crypto \<Rightarrow> authenticator \<Rightarrow> string \<Rightarrow> string" where
  "signed_token c a token = token @ ''.'' @ b64_encode (hmac_sha256 c (au_secret a) token)"

definition verify_token :: "crypto \<Rightarrow> authenticator \<Rightarrow> string \<Rightarrow> string option" where
  "verify_token c a value =
    (case cut value CHR ''.'' of
       None \<Rightarrow> None
     | Some (token, encoded) \<Rightarrow>
         if token = [] \<or> encoded = [] then None
         else (case b64_decode encoded of
                 None \<Rightarrow> None
               | Some sig \<Rightarrow> if sig = hmac_sha256 c (au_secret a) token then Some token else None))"

text \<open>The payload of a sealed cookie: \<^verbatim>\<open>persistentSession\<close> as JSON.\<close>

definition persistent_fields :: "(string \<times> int) json_fields" where
  "persistent_fields = [(''u'', field store_string fst (\<lambda>u (_, e). (u, e))), (''e'', field store_int snd (\<lambda>e (u, _). (u, e)))]"

definition marshal_persistent :: "string \<Rightarrow> int \<Rightarrow> bytes" where
  "marshal_persistent username expires = object_text [(''u'', json_quote username), (''e'', itoa expires)]"

definition unmarshal_persistent :: "bytes \<Rightarrow> (string \<times> int) option" where
  "unmarshal_persistent payload = if_fits (json_unmarshal (store_struct persistent_fields) payload ([], 0))"

definition persistent_key :: "crypto \<Rightarrow> authenticator \<Rightarrow> bytes" where
  "persistent_key c a = sha256 c (''go-webssh/persistent-session/'' @ au_secret a)"

definition seal_persistent_session ::
  "crypto \<Rightarrow> authenticator \<Rightarrow> session_info \<Rightarrow> bytes option \<Rightarrow> auth_error + string" where
  "seal_persistent_session c a info rnd =
    (if \<not> aes_key_ok (persistent_key c a) then Inl CipherFailed
     else let payload = marshal_persistent (si_username info) (si_expires info div second) in
       (case rnd of
          None \<Rightarrow> Inl RandFailed
        | Some b \<Rightarrow>
            let nonce = take nonce_size b;
                sealed = nonce @ gcm_seal c (persistent_key c a) nonce payload cookie_name
            in Inr (persistent_prefix @ b64_encode sealed)))"

definition open_persistent_session ::
  "crypto \<Rightarrow> authenticator \<Rightarrow> string \<Rightarrow> int \<Rightarrow> session_info option" where
  "open_persistent_session c a value now =
    (if \<not> aes_key_ok (persistent_key c a) then None
     else (case b64_decode (trim_prefix value persistent_prefix) of
             None \<Rightarrow> None
           | Some sealed \<Rightarrow>
               if length sealed < nonce_size then None
               else (case gcm_open c (persistent_key c a) (take nonce_size sealed)
                            (drop nonce_size sealed) cookie_name of
                       None \<Rightarrow> None
                     | Some payload \<Rightarrow>
                         (case unmarshal_persistent payload of
                            None \<Rightarrow> None
                          | Some (u, e) \<Rightarrow>
                              if u \<noteq> au_username a \<or> e \<le> now div second then None
                              else Some \<lparr>si_username = u, si_expires = e * second\<rparr>))))"

text \<open>
  \<^verbatim>\<open>Login\<close>. The cookie's \<^verbatim>\<open>MaxAge\<close> is the truncated number of seconds left at \<open>now2\<close>, the later
  reading of the clock.
\<close>

definition session_cookie :: "authenticator \<Rightarrow> string \<Rightarrow> int \<Rightarrow> int \<Rightarrow> cookie" where
  "session_cookie a v expires now2 =
    \<lparr>ck_name = cookie_name, ck_value = v, ck_path = ''/'', ck_http_only = True,
     ck_same_site_lax = True, ck_secure = au_secure_cookie a, ck_expires = expires,
     ck_max_age = go_div (expires - now2) second\<rparr>"

definition login ::
  "crypto \<Rightarrow> authenticator \<Rightarrow> auth_store \<Rightarrow> string \<Rightarrow> string \<Rightarrow> bool list
   \<Rightarrow> bytes option \<Rightarrow> int \<Rightarrow> int \<Rightarrow> (auth_error + cookie) \<times> auth_store" where
  "login c a s username password remember rnd now now2 =
    (case authenticate c a username password of
       Inl e \<Rightarrow> (Inl e, s)
     | Inr _ \<Rightarrow>
         if remember \<noteq> [] \<and> hd remember then
           let expires = now + 30 * 24 * hour in
           (case seal_persistent_session c a \<lparr>si_username = username, si_expires = expires\<rparr> rnd of
              Inl e \<Rightarrow> (Inl e, s)
            | Inr v \<Rightarrow> (Inr (session_cookie a v expires now2), s))
         else
           (case store_create s username [au_ttl a] rnd now of
              None \<Rightarrow> (Inl RandFailed, s)
            | Some (token, expires, s') \<Rightarrow>
                (Inr (session_cookie a (signed_token c a token) expires now2), s')))"

text \<open>A request is seen here through its session cookie, \<open>None\<close> when it carries none.\<close>

definition logout ::
  "crypto \<Rightarrow> authenticator \<Rightarrow> auth_store \<Rightarrow> string option \<Rightarrow> cookie \<times> auth_store" where
  "logout c a s rc =
    (\<lparr>ck_name = cookie_name, ck_value = [], ck_path = ''/'', ck_http_only = True,
      ck_same_site_lax = True, ck_secure = au_secure_cookie a, ck_expires = 0, ck_max_age = -1\<rparr>,
     case rc of
       None \<Rightarrow> s
     | Some v \<Rightarrow> (case verify_token c a v of None \<Rightarrow> s | Some token \<Rightarrow> store_delete s token))"

definition session_from_request ::
  "crypto \<Rightarrow> authenticator \<Rightarrow> auth_store \<Rightarrow> string option \<Rightarrow> int
   \<Rightarrow> session_info option \<times> auth_store" where
  "session_from_request c a s rc now =
    (case rc of
       None \<Rightarrow> (None, s)
     | Some v \<Rightarrow>
         if v = [] then (None, s)
         else if has_prefix v persistent_prefix then (open_persistent_session c a v now, s)
         else (case verify_token c a v of
                 None \<Rightarrow> (None, s)
               | Some token \<Rightarrow> store_get s token now))"

datatype http_error = HttpError (he_status: int) (he_code: string) (he_message: string)

text \<open>\<^verbatim>\<open>RequireAuth\<close> wraps a handler \<open>next\<close>, which gets the store as the lookup left it.\<close>

definition require_auth ::
  "crypto \<Rightarrow> authenticator \<Rightarrow> (auth_store \<Rightarrow> 'r \<times> auth_store) \<Rightarrow> auth_store
   \<Rightarrow> string option \<Rightarrow> int \<Rightarrow> (http_error + 'r) \<times> auth_store" where
  "require_auth c a nxt s rc now =
    (case session_from_request c a s rc now of
       (None, s') \<Rightarrow> (Inl (HttpError 401 ''AUTH_REQUIRED'' ''authentication required''), s')
     | (Some _, s') \<Rightarrow> (case nxt s' of (r, s'') \<Rightarrow> (Inr r, s'')))"

section \<open>Sequences of store operations\<close>

datatype store_op =
    OpCreate string "duration list" "bytes option" int
  | OpGet string int
  | OpDelete string
  | OpCleanup int

fun apply_op :: "auth_store \<Rightarrow> store_op \<Rightarrow> auth_store" where
  "apply_op s (OpCreate u ttl rnd now) =
     (case store_create s u ttl rnd now of None \<Rightarrow> s | Some (_, _, s') \<Rightarrow> s')"
| "apply_op s (OpGet t now) = snd (store_get s t now)"
| "apply_op s (OpDelete t) = store_delete s t"
| "apply_op s (OpCleanup now) = cleanup_tick s now"

fun run_ops :: "auth_store \<Rightarrow> store_op list \<Rightarrow> auth_store" where
  "run_ops s [] = s"
| "run_ops s (x # xs) = run_ops (apply_op s x) xs"

text \<open>\<open>creates ttl x t i\<close>: operation \<open>x\<close>, in a store whose default lifetime is \<open>ttl\<close>, puts session
  \<open>i\<close> under token \<open>t\<close>.\<close>

fun creates :: "duration \<Rightarrow> store_op \<Rightarrow> string \<Rightarrow> session_info \<Rightarrow> bool" where
  "creates d (OpCreate u ttl (Some b) now) t i \<longleftrightarrow>
     t = b64_encode b \<and> si_username i = u
     \<and> si_expires i = now + (if ttl \<noteq> [] \<and> hd ttl > 0 then hd ttl else d)"
| "creates d _ t i \<longleftrightarrow> False"

section \<open>The store as a session table\<close>

text \<open>
  What the authenticator relies on: a session put under a token is found until it expires, a
  deleted one is not found, and neither operation, nor a lookup, touches another token.
\<close>

locale session_table =
  fixes put :: "'s \<Rightarrow> string \<Rightarrow> session_info \<Rightarrow> 's"
    and look :: "'s \<Rightarrow> string \<Rightarrow> int \<Rightarrow> session_info option \<times> 's"
    and remove :: "'s \<Rightarrow> string \<Rightarrow> 's"
  assumes look_put: "now \<le> si_expires i \<Longrightarrow> fst (look (put s t i) t now) = Some i"
    and look_put_other: "t' \<noteq> t \<Longrightarrow> fst (look (put s t i) t' now) = fst (look s t' now)"
    and look_remove: "fst (look (remove s t) t now) = None"
    and look_remove_other: "t' \<noteq> t \<Longrightarrow> fst (look (remove s t) t' now) = fst (look s t' now)"
    and look_after_look: "t' \<noteq> t \<Longrightarrow> fst (look (snd (look s t now)) t' now') = fst (look s t' now')"
    and look_again: "fst (look s t now) = None \<Longrightarrow> fst (look (snd (look s t now)) t now') = None"
    and look_live: "fst (look s t now) = Some i \<Longrightarrow> now \<le> si_expires i"
begin

lemma removed_stays_removed:
  "fst (look (snd (look (remove s t) t' n)) t now) = None"
  by (cases "t' = t") (simp_all add: look_again look_remove look_after_look)

lemma put_survives_other_traffic:
  assumes "now \<le> si_expires i" "t' \<noteq> t"
  shows "fst (look (snd (look (remove (put s t i) t') t' n)) t now) = Some i"
  using assms by (simp add: look_after_look look_remove_other look_put)

end

interpretation tab: session_table store_insert store_get store_delete
  by unfold_locales
    (auto simp: store_get_def store_insert_def store_delete_def split: option.splits if_splits)

section \<open>Lemmas\<close>

lemma verify_token_iff:
  "verify_token c a v = Some t \<longleftrightarrow>
     (\<exists>sig. v = t @ CHR ''.'' # sig \<and> CHR ''.'' \<notin> set t \<and> t \<noteq> [] \<and> sig \<noteq> []
        \<and> b64_decode sig = Some (hmac_sha256 c (au_secret a) t))"
proof -
  have "verify_token c a v = Some t \<longleftrightarrow> (\<exists>sig. cut v CHR ''.'' = Some (t, sig) \<and> t \<noteq> [] \<and> sig \<noteq> []
      \<and> b64_decode sig = Some (hmac_sha256 c (au_secret a) t))"
    by (auto simp: verify_token_def split: option.splits if_splits)
  then show ?thesis by (simp only: cut_Some_iff) blast
qed

lemma verify_signed_token:
  assumes "crypto_laws c" "t \<noteq> []" "CHR ''.'' \<notin> set t"
  shows "verify_token c a (signed_token c a t) = Some t"
  using assms by (auto simp: verify_token_iff signed_token_def b64_roundtrip)

lemma store_get_sound:
  assumes "fst (store_get s t now) = Some i"
  shows "as_sessions s t = Some i \<and> now \<le> si_expires i"
  using assms by (auto simp: store_get_def split: option.splits if_splits)

lemma apply_op_ttl [simp]: "as_ttl (apply_op s x) = as_ttl s"
  by (cases x) (auto simp: store_create_def store_insert_def store_delete_def store_get_def
      cleanup_tick_def Let_def split: option.splits)

lemma run_ops_snoc: "run_ops s (xs @ [x]) = apply_op (run_ops s xs) x"
  by (induction xs arbitrary: s) auto

lemma run_ops_ttl [simp]: "as_ttl (run_ops s xs) = as_ttl s"
  by (induction xs arbitrary: s) auto

text \<open>One operation: a session it leaves is one it created or one that was there and that it did
  not delete.\<close>

lemma apply_op_session:
  assumes "as_sessions (apply_op s x) t = Some i"
  shows "creates (as_ttl s) x t i \<or> (as_sessions s t = Some i \<and> x \<noteq> OpDelete t)"
proof (cases x)
  case (OpCreate u ttl rnd now)
  with assms show ?thesis
    by (cases rnd) (auto simp: store_create_def store_insert_def Let_def split: if_splits)
next
  case (OpGet t' now)
  with assms show ?thesis
    by (auto simp: store_get_def store_delete_def split: option.splits if_splits)
next
  case (OpDelete t')
  with assms show ?thesis by (auto simp: store_delete_def split: if_splits)
next
  case (OpCleanup now)
  with assms show ?thesis by (auto simp: cleanup_tick_def split: option.splits if_splits)
qed

lemma absent_stays_absent:
  assumes "as_sessions s t = None" "\<not> list_ex (\<lambda>x. \<exists>i. creates (as_ttl s) x t i) xs"
  shows "as_sessions (run_ops s xs) t = None"
  using assms
proof (induction xs arbitrary: s)
  case (Cons x xs)
  have "as_sessions (apply_op s x) t = None"
  proof (cases "as_sessions (apply_op s x) t")
    case (Some i)
    from apply_op_session [OF this] Cons.prems show ?thesis by auto
  qed
  with Cons show ?case by auto
qed simp

lemma login_session_mode:
  assumes "login c a s u pw rem (Some b) now now2 = (Inr ck, s')" "\<not> (rem \<noteq> [] \<and> hd rem)"
  shows "ck_value ck = signed_token c a (b64_encode b)"
    and "s' = store_insert s (b64_encode b) \<lparr>si_username = u, si_expires = ck_expires ck\<rparr>"
    and "ck_expires ck = now + (if au_ttl a > 0 then au_ttl a else as_ttl s)"
  using assms
  by (auto simp: login_def store_create_def session_cookie_def Let_def split: sum.splits if_splits)

lemma login_persistent_mode:
  assumes "login c a s u pw (True # rem) (Some b) now now2 = (Inr ck, s')"
  shows "ck_value ck = persistent_prefix @ b64_encode (take nonce_size b @
            gcm_seal c (persistent_key c a) (take nonce_size b) (marshal_persistent u (ck_expires ck div second)) cookie_name)"
    and "ck_expires ck = now + 30 * 24 * hour" "s' = s" "u = au_username a"
  using assms
  by (auto simp: login_def seal_persistent_session_def session_cookie_def authenticate_def Let_def
      split: sum.splits if_splits option.splits)

lemma persistent_roundtrip: "utf8_valid u \<Longrightarrow> int64 e \<Longrightarrow> unmarshal_persistent (marshal_persistent u e) = Some (u, e)"
  using unmarshal_object [of "[(''u'', json_quote u), (''e'', itoa e)]" "[]" persistent_fields "([], 0)"]
  by (simp add: unmarshal_persistent_def marshal_persistent_def persistent_fields_def field_simps_json int64_def utf8_valid_replace)

lemma persistent_key_ok: "crypto_laws c \<Longrightarrow> aes_key_ok (persistent_key c a)"
  by (simp add: aes_key_ok_def persistent_key_def)

lemma open_sealed:
  assumes "crypto_laws c" "length n = nonce_size" "unmarshal_persistent payload = Some (u, e)"
    and "u = au_username a" "now div second < e"
  shows "open_persistent_session c a (persistent_prefix @ b64_encode (n @
            gcm_seal c (persistent_key c a) n payload cookie_name)) now
         = Some \<lparr>si_username = u, si_expires = e * second\<rparr>"
  using assms by (simp add: open_persistent_session_def b64_roundtrip persistent_key_ok)

lemma signed_not_persistent:
  assumes "3 \<le> length t" "CHR ''.'' \<notin> set t"
  shows "\<not> has_prefix (signed_token c a t) persistent_prefix"
proof
  assume "has_prefix (signed_token c a t) persistent_prefix"
  then have "take 3 t = ''p1.''"
    using assms(1) by (simp add: has_prefix_def persistent_prefix_def signed_token_def numeral_3_eq_3)
  then have "CHR ''.'' \<in> set (take 3 t)" by simp
  with assms(2) show False by (meson in_set_takeD)
qed

section \<open>Properties\<close>

lemma login_cookie_session:
  assumes "crypto_laws c" "length b = 32"
    and "login c a s u pw [False] (Some b) now now2 = (Inr ck, s')"
    and "now' \<le> ck_expires ck"
  shows "fst (session_from_request c a s' (Some (ck_value ck)) now')
           = Some \<lparr>si_username = u, si_expires = ck_expires ck\<rparr>"
proof -
  let ?t = "b64_encode b"
  have len: "3 \<le> length ?t" using assms(2) by (simp add: length_b64_encode)
  have t: "?t \<noteq> []" "CHR ''.'' \<notin> set ?t" using len b64_encode_no_dot by auto
  note lg = login_session_mode [OF assms(3)]
  have np: "\<not> has_prefix (ck_value ck) persistent_prefix"
    using signed_not_persistent [OF len t(2)] lg(1) by simp
  have "fst (store_get s' ?t now') = Some \<lparr>si_username = u, si_expires = ck_expires ck\<rparr>"
    using lg(2) assms(4) tab.look_put by simp
  moreover have "ck_value ck \<noteq> []" using t(1) lg(1) by (simp add: signed_token_def)
  ultimately show ?thesis
    using np verify_signed_token [OF assms(1) t] lg(1) by (simp add: session_from_request_def)
qed

text \<open>
  Logging in without \<^verbatim>\<open>remember\<close> gives a cookie that authenticates its user, through the
  returned store, at every moment up to its expiry.
\<close>

theorem login_cookie_authenticates:
  assumes "crypto_laws c" "length b = 32"
    and "login c a s u pw [False] (Some b) now now2 = (Inr ck, s')"
    and "now' \<le> ck_expires ck"
  shows "fst (session_from_request c a s' (Some (ck_value ck)) now')
           = Some \<lparr>si_username = u, si_expires = ck_expires ck\<rparr>"
  by (rule login_cookie_session [OF assms])

lemma signed_cookie_found:
  assumes "crypto_laws c" "length b = 32" "as_sessions s (b64_encode b) = Some info" "now \<le> si_expires info"
  shows "fst (session_from_request c a s (Some (signed_token c a (b64_encode b))) now) = Some info"
proof -
  have len: "3 \<le> length (b64_encode b)" using assms(2) by (simp add: length_b64_encode)
  have t: "b64_encode b \<noteq> []" "CHR ''.'' \<notin> set (b64_encode b)" using len b64_encode_no_dot by auto
  have "fst (store_get s (b64_encode b) now) = Some info" using assms(3,4) by (simp add: store_get_def)
  moreover have "signed_token c a (b64_encode b) \<noteq> []" by (simp add: signed_token_def)
  ultimately show ?thesis
    using signed_not_persistent [OF len t(2)] verify_signed_token [OF assms(1) t] by (simp add: session_from_request_def)
qed

text \<open>How long a cookie serves: a remembered one for whole seconds.\<close>

definition cookie_live :: "bool \<Rightarrow> cookie \<Rightarrow> int \<Rightarrow> bool" where
  "cookie_live remember ck now =
    (if remember then now div second < ck_expires ck div second else now \<le> ck_expires ck)"

lemma remembered_cookie_session:
  assumes "crypto_laws c" "nonce_size \<le> length b"
    and "utf8_valid u" "int64 ((now + 30 * 24 * hour) div second)"
    and "login c a s u pw [True] (Some b) now now2 = (Inr ck, s')"
    and "now' div second < (now + 30 * 24 * hour) div second"
  shows "fst (session_from_request c a st (Some (ck_value ck)) now')
           = Some \<lparr>si_username = au_username a, si_expires = (now + 30 * 24 * hour) div second * second\<rparr>"
proof -
  note lg = login_persistent_mode [OF assms(5)]
  note v = lg(1) [unfolded lg(2)] note pl = persistent_roundtrip [OF assms(3,4)]
  have "length (take nonce_size b) = nonce_size" using assms(2) by simp
  from open_sealed [OF assms(1) this pl lg(4) assms(6)] lg(4)
  have "open_persistent_session c a (ck_value ck) now' =
      Some \<lparr>si_username = au_username a, si_expires = (now + 30 * 24 * hour) div second * second\<rparr>"
    by (simp only: v)
  moreover have "has_prefix (ck_value ck) persistent_prefix" by (simp only: v has_prefix_append)
  moreover have "ck_value ck \<noteq> []" by (simp add: v persistent_prefix_def)
  ultimately show ?thesis by (simp add: session_from_request_def)
qed

lemma login_cookie_live:
  assumes "crypto_laws c" "length b = 32" "login c a s u pw [remember] (Some b) now now2 = (Inr ck, s')"
    and "remember \<Longrightarrow> utf8_valid u \<and> int64 (ck_expires ck div second)" "cookie_live remember ck now'"
  shows "\<exists>info. fst (session_from_request c a s' (Some (ck_value ck)) now') = Some info"
proof (cases remember)
  case False
  with login_cookie_session [OF assms(1,2)] assms(3,5) show ?thesis by (auto simp: cookie_live_def)
next
  case True
  with assms(3) have l: "login c a s u pw [True] (Some b) now now2 = (Inr ck, s')" by simp
  have "nonce_size \<le> length b" using assms(2) by (simp add: nonce_size_def)
  from remembered_cookie_session [OF assms(1) this _ _ l, of now' s'] assms(4,5) True login_persistent_mode(2) [OF l]
  show ?thesis by (simp add: cookie_live_def)
qed

text \<open>An authenticator for the witnesses.\<close>

definition sample_auth :: authenticator where
  "sample_auth = \<lparr>au_username = ''admin'', au_password = ''pw'', au_password_hash = [],
     au_secure_cookie = True, au_ttl = hour, au_secret = ''0123456789abcdef''\<rparr>"

definition sample_token :: bytes where
  "sample_token = replicate 32 CHR ''x''"

definition sample_login :: "bool \<Rightarrow> (auth_error + cookie) \<times> auth_store" where
  "sample_login remember =
    login sample_crypto sample_auth (new_store 0) ''admin'' ''pw'' [remember]
      (Some sample_token) 0 0"

lemma sample_login_ok:
  "\<exists>ck s. sample_login r = (Inr ck, s) \<and> ck_expires ck = (if r then 30 * 24 * hour else hour)"
  by (cases r)
    (auto simp: sample_login_def login_def authenticate_def check_password_def sample_auth_def
      seal_persistent_session_def persistent_key_ok sample_crypto_laws sample_token_def
      store_create_def session_cookie_def Let_def)

theorem login_cookie_authenticates_witness:
  "\<exists>ck s. sample_login False = (Inr ck, s)
     \<and> fst (session_from_request sample_crypto sample_auth s (Some (ck_value ck)) minute)
         = Some \<lparr>si_username = ''admin'', si_expires = hour\<rparr>"
proof -
  from sample_login_ok [of False] obtain ck s where
    l: "sample_login False = (Inr ck, s)" "ck_expires ck = hour" by auto
  have "length sample_token = 32" by (simp add: sample_token_def)
  from login_cookie_authenticates [OF sample_crypto_laws this l(1) [unfolded sample_login_def], of minute]
    l show ?thesis by auto
qed

text \<open>
  C25: logging in with \<^verbatim>\<open>remember\<close> gives a cookie that authenticates the user for thirty days
  (whole seconds) with any store, so also after a restart, and logging out with that very
  cookie does not end it: the cookie stays valid until it expires.
\<close>

theorem remembered_cookie_outlives_logout:
  assumes "crypto_laws c" "nonce_size \<le> length b"
    and "utf8_valid u" "int64 ((now + 30 * 24 * hour) div second)"
    and "login c a s u pw [True] (Some b) now now2 = (Inr ck, s')"
    and "now' div second < (now + 30 * 24 * hour) div second"
  shows "fst (session_from_request c a (snd (logout c a s0 (Some (ck_value ck)))) (Some (ck_value ck)) now')
           = Some \<lparr>si_username = au_username a, si_expires = (now + 30 * 24 * hour) div second * second\<rparr>"
  by (rule remembered_cookie_session [OF assms])

theorem remembered_cookie_outlives_logout_witness:
  "\<exists>ck s. sample_login True = (Inr ck, s)
     \<and> fst (session_from_request sample_crypto sample_auth
         (snd (logout sample_crypto sample_auth s (Some (ck_value ck)))) (Some (ck_value ck)) (24 * hour))
         = Some \<lparr>si_username = ''admin'', si_expires = 30 * 24 * hour\<rparr>"
proof -
  from sample_login_ok [of True] obtain ck s where l: "sample_login True = (Inr ck, s)" by auto
  have n: "nonce_size \<le> length sample_token" by (simp add: sample_token_def nonce_size_def)
  have u: "utf8_valid ''admin''" by simp
  have e: "int64 ((0 + 30 * 24 * hour) div second)" by (simp add: int64_def)
  have "au_username sample_auth = ''admin''" by (simp add: sample_auth_def)
  with remembered_cookie_outlives_logout
    [OF sample_crypto_laws n u e l [unfolded sample_login_def], of "24 * hour" s] l
  show ?thesis by auto
qed

text \<open>
  C5: a request is taken as authenticated only on one of two grounds. A signed cookie: its token
  carries the HMAC of the token under the server's secret, and the store holds an unexpired
  session under it, which is the one returned. A persistent cookie: it is the base64 of a
  nonce and of the sealing, under the key derived from the server's secret, of a payload that
  names the configured user and has not expired.
\<close>

theorem authenticated_request_grounds:
  assumes "crypto_laws c"
    and "fst (session_from_request c a s rc now) = Some info"
  shows "\<exists>v. rc = Some v \<and>
    ((\<exists>t sig. \<not> has_prefix v persistent_prefix \<and> v = t @ CHR ''.'' # sig
        \<and> b64_decode sig = Some (hmac_sha256 c (au_secret a) t)
        \<and> as_sessions s t = Some info \<and> now \<le> si_expires info)
     \<or> (\<exists>enc n payload e. v = persistent_prefix @ enc
        \<and> b64_decode enc = Some (n @ gcm_seal c (persistent_key c a) n payload cookie_name)
        \<and> length n = nonce_size \<and> unmarshal_persistent payload = Some (au_username a, e)
        \<and> now div second < e
        \<and> info = \<lparr>si_username = au_username a, si_expires = e * second\<rparr>))"
proof -
  obtain v where v: "rc = Some v"
    using assms(2) by (auto simp: session_from_request_def split: option.splits)
  show ?thesis
  proof (cases "has_prefix v persistent_prefix")
    case False
    with assms(2) v obtain t where "verify_token c a v = Some t" "fst (store_get s t now) = Some info"
      by (auto simp: session_from_request_def split: option.splits if_splits)
    with False v show ?thesis by (auto simp: verify_token_iff dest!: store_get_sound)
  next
    case True
    then obtain enc where enc: "v = persistent_prefix @ enc" by (auto simp: has_prefix_iff)
    from True v assms(2) have "open_persistent_session c a v now = Some info"
      by (auto simp: session_from_request_def split: if_splits)
    then obtain sealed payload e where
      d: "b64_decode enc = Some sealed" "nonce_size \<le> length sealed"
      and o: "gcm_open c (persistent_key c a) (take nonce_size sealed) (drop nonce_size sealed) cookie_name
               = Some payload"
      and r: "unmarshal_persistent payload = Some (au_username a, e)" "now div second < e"
             "info = \<lparr>si_username = au_username a, si_expires = e * second\<rparr>"
      by (auto simp: open_persistent_session_def enc split: if_splits option.splits)
    define n where "n = take nonce_size sealed"
    have "sealed = n @ gcm_seal c (persistent_key c a) n payload cookie_name"
      using o gcm_open_iff [OF assms(1)] unfolding n_def by (metis append_take_drop_id)
    moreover have "length n = nonce_size" using d(2) by (simp add: n_def)
    ultimately show ?thesis using v enc d(1) r by blast
  qed
qed

theorem authenticated_request_grounds_witness:
  "\<exists>ck s v. sample_login False = (Inr ck, s) \<and> Some (ck_value ck) = Some v
     \<and> fst (session_from_request sample_crypto sample_auth s (Some v) minute) \<noteq> None"
proof -
  from sample_login_ok [of False] obtain ck s where
    l: "sample_login False = (Inr ck, s)" "ck_expires ck = hour" by auto
  have "length sample_token = 32" by (simp add: sample_token_def)
  then have len: "3 \<le> length (b64_encode sample_token)" by (simp add: length_b64_encode)
  have t: "b64_encode sample_token \<noteq> []" "CHR ''.'' \<notin> set (b64_encode sample_token)"
    using len b64_encode_no_dot by auto
  note lg = login_session_mode [OF l(1) [unfolded sample_login_def]]
  have f: "fst (session_from_request sample_crypto sample_auth s (Some (ck_value ck)) minute)
      = Some \<lparr>si_username = ''admin'', si_expires = hour\<rparr>"
    using lg l(2) signed_not_persistent [OF len t(2)] verify_signed_token [OF sample_crypto_laws t] t(1)
      tab.look_put
    by (simp add: session_from_request_def) (simp add: signed_token_def)
  from authenticated_request_grounds [OF sample_crypto_laws f] l f show ?thesis by auto
qed

text \<open>
  C26: logging out with a signed cookie revokes it for good: whatever the store does afterwards,
  as long as the random token is not drawn again, a request with that cookie is refused.
\<close>

theorem logout_revokes_session:
  assumes "verify_token c a v = Some t" "\<not> has_prefix v persistent_prefix"
    and "\<not> list_ex (\<lambda>x. \<exists>i. creates (as_ttl s) x t i) xs"
  shows "fst (session_from_request c a (run_ops (snd (logout c a s (Some v))) xs) (Some v) now) = None"
proof -
  let ?s = "snd (logout c a s (Some v))"
  have "as_sessions ?s t = None" "as_ttl ?s = as_ttl s"
    using assms(1) by (simp_all add: logout_def store_delete_def)
  then have "as_sessions (run_ops ?s xs) t = None" using assms(3) absent_stays_absent by metis
  then have "fst (store_get (run_ops ?s xs) t now) = None" by (simp add: store_get_def)
  with assms(1,2) show ?thesis by (simp add: session_from_request_def)
qed

theorem logout_revokes_session_witness:
  "fst (session_from_request sample_crypto sample_auth
      (run_ops (snd (logout sample_crypto sample_auth (snd (sample_login False))
          (Some (signed_token sample_crypto sample_auth (b64_encode sample_token)))))
        [OpCleanup 5, OpGet ''zzz'' 7])
      (Some (signed_token sample_crypto sample_auth (b64_encode sample_token))) 9) = None"
proof (rule logout_revokes_session)
  have "length sample_token = 32" by (simp add: sample_token_def)
  then have len: "3 \<le> length (b64_encode sample_token)" by (simp add: length_b64_encode)
  have t: "b64_encode sample_token \<noteq> []" "CHR ''.'' \<notin> set (b64_encode sample_token)"
    using len b64_encode_no_dot by auto
  show "verify_token sample_crypto sample_auth (signed_token sample_crypto sample_auth (b64_encode sample_token))
      = Some (b64_encode sample_token)" by (rule verify_signed_token [OF sample_crypto_laws t])
  show "\<not> has_prefix (signed_token sample_crypto sample_auth (b64_encode sample_token)) persistent_prefix"
    by (rule signed_not_persistent [OF len t(2)])
qed simp

text \<open>
  In a store that started empty, after any sequence of operations by any callers, every
  session held was put there by a \<^verbatim>\<open>Create\<close> call of the sequence, for that user and with exactly
  the lifetime asked for (or the store's default), and no \<^verbatim>\<open>Delete\<close> of its token came later.
\<close>

theorem session_provenance:
  assumes "as_sessions (run_ops (new_store ttl) xs) t = Some i"
  shows "\<exists>before x after. xs = before @ x # after \<and> creates (as_ttl (new_store ttl)) x t i
           \<and> OpDelete t \<notin> set after"
  using assms
proof (induction xs rule: rev_induct)
  case Nil
  then show ?case by (simp add: new_store_def)
next
  case (snoc x xs)
  then have "as_sessions (apply_op (run_ops (new_store ttl) xs) x) t = Some i"
    by (simp add: run_ops_snoc)
  from apply_op_session [OF this]
  consider "creates (as_ttl (new_store ttl)) x t i"
    | "as_sessions (run_ops (new_store ttl) xs) t = Some i" "x \<noteq> OpDelete t"
    by auto
  then show ?case
  proof cases
    case 1
    then show ?thesis by (intro exI [of _ xs] exI [of _ x] exI [of _ "[]"]) simp
  next
    case 2
    from snoc.IH [OF 2(1)] obtain before y after where
      "xs = before @ y # after" "creates (as_ttl (new_store ttl)) y t i" "OpDelete t \<notin> set after"
      by blast
    with 2(2) show ?thesis
      by (intro exI [of _ before] exI [of _ y] exI [of _ "after @ [x]"]) auto
  qed
qed

theorem session_provenance_witness:
  "\<exists>before x after. [OpCreate ''u'' [] (Some ''k'') 3, OpGet ''a'' 4] = before @ x # after
     \<and> creates (12 * hour) x (b64_encode ''k'') \<lparr>si_username = ''u'', si_expires = 3 + 12 * hour\<rparr>"
proof -
  have "as_sessions (run_ops (new_store 0) [OpCreate ''u'' [] (Some ''k'') 3, OpGet ''a'' 4]) (b64_encode ''k'')
      = Some \<lparr>si_username = ''u'', si_expires = 3 + 12 * hour\<rparr>"
    by code_simp
  from session_provenance [OF this] show ?thesis by (auto simp: new_store_def)
qed

end
