(* ===== verification/Config.thy ===== *)
theory Config
  imports Go_Encoding
begin

text \<open>
  \<^verbatim>\<open>internal/config/config.go\<close>: the configuration, its defaults, the merge of a YAML file, of the
  environment and of the command line into it, and its validation. The YAML parser is not part
  of the repository: its result, the \<^verbatim>\<open>rawConfig\<close> value, is the input of \<open>apply_raw\<close>. A Go slice
  that may be nil is an \<open>option\<close>; durations are nanoseconds.
\<close>

section \<open>Data\<close>

record server_config =
  sv_listen :: string
  sv_session_secret :: string
  sv_secure_cookie :: bool
  sv_allowed_origins :: "string list"

record auth_config =
  ac_username :: string
  ac_password :: string
  ac_password_hash :: string
  ac_session_ttl :: duration

record ssh_config =
  sh_connect_timeout :: duration
  sh_idle_timeout :: duration
  sh_max_sessions :: int
  sh_host_key_policy :: string
  sh_known_hosts_file :: string

record tunnel_config =
  tn_enabled :: bool
  tn_connect_timeout :: duration
  tn_write_timeout :: duration
  tn_idle_timeout :: duration
  tn_max_connections :: int
  tn_allowed_ports :: "int list"

record network_policy_config =
  nc_allow_private :: bool
  nc_deny :: "string list"
  nc_allow :: "string list"

record credentials_config =
  cr_enabled :: bool
  cr_db_file :: string
  cr_key_file :: string
  cr_key_hex :: string

record config =
  c_server :: server_config
  c_auth :: auth_config
  c_ssh :: ssh_config
  c_tunnel :: tunnel_config
  c_network :: network_policy_config
  c_log_level :: string
  c_credentials :: credentials_config
  c_themes_dir :: string

record raw_config =
  raw_listen :: string
  raw_session_secret :: string
  raw_secure_cookie :: bool
  raw_allowed_origins :: "string list option"
  raw_username :: string
  raw_password :: string
  raw_password_hash :: string
  raw_session_ttl :: duration
  raw_ssh_connect_timeout :: duration
  raw_ssh_idle_timeout :: duration
  raw_max_sessions :: int
  raw_host_key_policy :: string
  raw_known_hosts_file :: string
  raw_tunnel_enabled :: bool
  raw_tunnel_connect_timeout :: duration
  raw_tunnel_write_timeout :: duration
  raw_tunnel_idle_timeout :: duration
  raw_max_connections :: int
  raw_allowed_ports :: "int list option"
  raw_allow_private :: bool
  raw_deny :: "string list option"
  raw_allow :: "string list option"
  raw_log_level :: string
  raw_cred_enabled :: "bool option"
  raw_db_file :: string
  raw_key_file :: string
  raw_themes_dir :: string

datatype config_error =
    ReadFailed | ParseFailed
  | ListenRequired | UsernameRequired | PasswordRequired | SecretRequired | SecretTooShort
  | BadHostKeyPolicy string | KnownHostsRequired
  | PortsRequired | InvalidPort int | DuplicatePort int
  | DbFileRequired | BadKeyHex

section \<open>Durations in YAML\<close>

text \<open>
  \<^verbatim>\<open>duration.UnmarshalYAML\<close>: \<open>parse_duration\<close> is \<^verbatim>\<open>time.ParseDuration\<close>; a text it rejects is tried
  as a number of seconds, multiplied in 64 bits.
\<close>

datatype duration_error = NotScalar | BadDuration

definition duration_unmarshal ::
  "(string \<Rightarrow> duration option) \<Rightarrow> bool \<Rightarrow> string \<Rightarrow> duration_error + duration" where
  "duration_unmarshal parse_duration scalar v =
    (if \<not> scalar then Inl NotScalar
     else if v = [] then Inr 0
     else (case parse_duration v of
             Some d \<Rightarrow> Inr d
           | None \<Rightarrow> (case atoi v of
                        Some sec \<Rightarrow> Inr (wrap64 (sec * second))
                      | None \<Rightarrow> Inl BadDuration)))"

section \<open>Defaults and merging\<close>

definition default_config :: config where
  "default_config =
    \<lparr>c_server = \<lparr>sv_listen = ''127.0.0.1:8080'', sv_session_secret = [], sv_secure_cookie = False,
                 sv_allowed_origins = []\<rparr>,
     c_auth = \<lparr>ac_username = ''admin'', ac_password = [], ac_password_hash = [],
               ac_session_ttl = 12 * hour\<rparr>,
     c_ssh = \<lparr>sh_connect_timeout = 15 * second, sh_idle_timeout = 30 * minute, sh_max_sessions = 5,
              sh_host_key_policy = ''known-hosts'', sh_known_hosts_file = ''./known_hosts''\<rparr>,
     c_tunnel = \<lparr>tn_enabled = False, tn_connect_timeout = 15 * second, tn_write_timeout = 30 * second,
                 tn_idle_timeout = 30 * minute, tn_max_connections = 5, tn_allowed_ports = [22]\<rparr>,
     c_network = \<lparr>nc_allow_private = False,
                  nc_deny = [''127.0.0.0/8'', ''169.254.0.0/16'', ''::1/128'', ''0.0.0.0/8''],
                  nc_allow = []\<rparr>,
     c_log_level = ''info'',
     c_credentials = \<lparr>cr_enabled = True, cr_db_file = ''./credentials.db'', cr_key_file = [],
                      cr_key_hex = []\<rparr>,
     c_themes_dir = ''./themes''\<rparr>"

definition override :: "string \<Rightarrow> string \<Rightarrow> string" where
  "override v old = (if v \<noteq> [] then v else old)"

lemma override_simps [simp]: "override v [] = v" "override v d = [] \<longleftrightarrow> v = [] \<and> d = []"
  by (simp_all add: override_def)

definition override_pos :: "int \<Rightarrow> int \<Rightarrow> int" where
  "override_pos v old = (if v > 0 then v else old)"

definition override_opt :: "'a option \<Rightarrow> 'a \<Rightarrow> 'a" where
  "override_opt v old = (case v of Some x \<Rightarrow> x | None \<Rightarrow> old)"

definition apply_raw_server :: "server_config \<Rightarrow> raw_config \<Rightarrow> server_config" where
  "apply_raw_server s raw =
    \<lparr>sv_listen = override (raw_listen raw) (sv_listen s),
     sv_session_secret = override (raw_session_secret raw) (sv_session_secret s),
     sv_secure_cookie = raw_secure_cookie raw,
     sv_allowed_origins = override_opt (raw_allowed_origins raw) (sv_allowed_origins s)\<rparr>"

definition apply_raw_auth :: "auth_config \<Rightarrow> raw_config \<Rightarrow> auth_config" where
  "apply_raw_auth a raw =
    \<lparr>ac_username = override (raw_username raw) (ac_username a),
     ac_password = override (raw_password raw) (ac_password a),
     ac_password_hash = override (raw_password_hash raw) (ac_password_hash a),
     ac_session_ttl = override_pos (raw_session_ttl raw) (ac_session_ttl a)\<rparr>"

definition apply_raw_ssh :: "ssh_config \<Rightarrow> raw_config \<Rightarrow> ssh_config" where
  "apply_raw_ssh s raw =
    \<lparr>sh_connect_timeout = override_pos (raw_ssh_connect_timeout raw) (sh_connect_timeout s),
     sh_idle_timeout = override_pos (raw_ssh_idle_timeout raw) (sh_idle_timeout s),
     sh_max_sessions = override_pos (raw_max_sessions raw) (sh_max_sessions s),
     sh_host_key_policy = override (raw_host_key_policy raw) (sh_host_key_policy s),
     sh_known_hosts_file = override (raw_known_hosts_file raw) (sh_known_hosts_file s)\<rparr>"

definition apply_raw_tunnel :: "tunnel_config \<Rightarrow> raw_config \<Rightarrow> tunnel_config" where
  "apply_raw_tunnel t raw =
    \<lparr>tn_enabled = raw_tunnel_enabled raw,
     tn_connect_timeout = override_pos (raw_tunnel_connect_timeout raw) (tn_connect_timeout t),
     tn_write_timeout = override_pos (raw_tunnel_write_timeout raw) (tn_write_timeout t),
     tn_idle_timeout = override_pos (raw_tunnel_idle_timeout raw) (tn_idle_timeout t),
     tn_max_connections = override_pos (raw_max_connections raw) (tn_max_connections t),
     tn_allowed_ports = override_opt (raw_allowed_ports raw) (tn_allowed_ports t)\<rparr>"

definition apply_raw_network :: "network_policy_config \<Rightarrow> raw_config \<Rightarrow> network_policy_config" where
  "apply_raw_network n raw =
    (if raw_deny raw \<noteq> None \<or> raw_allow raw \<noteq> None \<or> raw_allow_private raw
     then \<lparr>nc_allow_private = raw_allow_private raw,
           nc_deny = override_opt (raw_deny raw) (nc_deny n),
           nc_allow = override_opt (raw_allow raw) (nc_allow n)\<rparr>
     else n)"

definition apply_raw_credentials :: "credentials_config \<Rightarrow> raw_config \<Rightarrow> credentials_config" where
  "apply_raw_credentials k raw =
    k\<lparr>cr_db_file := override (raw_db_file raw) (cr_db_file k),
      cr_key_file := override (raw_key_file raw) (cr_key_file k),
      cr_enabled := override_opt (raw_cred_enabled raw) (cr_enabled k)\<rparr>"

definition apply_raw :: "config \<Rightarrow> raw_config \<Rightarrow> config" where
  "apply_raw cfg raw =
    \<lparr>c_server = apply_raw_server (c_server cfg) raw,
     c_auth = apply_raw_auth (c_auth cfg) raw,
     c_ssh = apply_raw_ssh (c_ssh cfg) raw,
     c_tunnel = apply_raw_tunnel (c_tunnel cfg) raw,
     c_network = apply_raw_network (c_network cfg) raw,
     c_log_level = override (raw_log_level raw) (c_log_level cfg),
     c_credentials = apply_raw_credentials (c_credentials cfg) raw,
     c_themes_dir = override (raw_themes_dir raw) (c_themes_dir cfg)\<rparr>"

text \<open>\<open>read_file\<close> is \<^verbatim>\<open>os.ReadFile\<close>, \<open>unmarshal\<close> the YAML parser.\<close>

definition load ::
  "(string \<Rightarrow> bytes option) \<Rightarrow> (bytes \<Rightarrow> raw_config option) \<Rightarrow> string \<Rightarrow> config_error + config" where
  "load read_file unmarshal path =
    (if path = [] then Inr default_config
     else (case read_file path of
             None \<Rightarrow> Inl ReadFailed
           | Some data \<Rightarrow> (case unmarshal data of
                             None \<Rightarrow> Inl ParseFailed
                           | Some raw \<Rightarrow> Inr (apply_raw default_config raw))))"

definition env_bool :: "string \<Rightarrow> bool \<Rightarrow> bool" where
  "env_bool v old = (if v \<noteq> [] then equal_fold v ''true'' \<or> v = ''1'' else old)"

definition apply_env :: "config \<Rightarrow> (string \<Rightarrow> string) \<Rightarrow> config" where
  "apply_env cfg env =
    cfg\<lparr>c_server := (c_server cfg)
          \<lparr>sv_listen := override (env ''GOWEBSSH_LISTEN'') (sv_listen (c_server cfg)),
           sv_session_secret := override (env ''GOWEBSSH_SESSION_SECRET'') (sv_session_secret (c_server cfg)),
           sv_secure_cookie := env_bool (env ''GOWEBSSH_SECURE_COOKIE'') (sv_secure_cookie (c_server cfg))\<rparr>,
        c_auth := (c_auth cfg)
          \<lparr>ac_username := override (env ''GOWEBSSH_USERNAME'') (ac_username (c_auth cfg)),
           ac_password := override (env ''GOWEBSSH_PASSWORD'') (ac_password (c_auth cfg)),
           ac_password_hash := override (env ''GOWEBSSH_PASSWORD_HASH'') (ac_password_hash (c_auth cfg))\<rparr>,
        c_ssh := (c_ssh cfg)
          \<lparr>sh_host_key_policy := override (env ''GOWEBSSH_HOST_KEY_POLICY'') (sh_host_key_policy (c_ssh cfg)),
           sh_known_hosts_file := override (env ''GOWEBSSH_KNOWN_HOSTS_FILE'') (sh_known_hosts_file (c_ssh cfg))\<rparr>,
        c_tunnel := (c_tunnel cfg)
          \<lparr>tn_enabled := env_bool (env ''GOWEBSSH_TUNNEL_ENABLED'') (tn_enabled (c_tunnel cfg))\<rparr>,
        c_network := (c_network cfg)
          \<lparr>nc_allow_private := env_bool (env ''GOWEBSSH_ALLOW_PRIVATE_RANGES'') (nc_allow_private (c_network cfg))\<rparr>,
        c_log_level := override (env ''GOWEBSSH_LOG_LEVEL'') (c_log_level cfg),
        c_credentials := (c_credentials cfg)
          \<lparr>cr_key_file := override (env ''GOWEBSSH_CREDENTIALS_KEY_FILE'') (cr_key_file (c_credentials cfg)),
           cr_key_hex := override (env ''GOWEBSSH_CREDENTIALS_KEY'') (cr_key_hex (c_credentials cfg))\<rparr>,
        c_themes_dir := override (env ''GOWEBSSH_THEMES_DIR'') (c_themes_dir cfg)\<rparr>"

definition apply_flags :: "config \<Rightarrow> string \<Rightarrow> config" where
  "apply_flags cfg listen =
    cfg\<lparr>c_server := (c_server cfg)\<lparr>sv_listen := override listen (sv_listen (c_server cfg))\<rparr>\<rparr>"

section \<open>Validation\<close>

fun check_ports :: "int list \<Rightarrow> int list \<Rightarrow> config_error + unit" where
  "check_ports seen [] = Inr ()"
| "check_ports seen (p # ps) =
     (if p < 1 \<or> p > 65535 then Inl (InvalidPort p)
      else if p \<in> set seen then Inl (DuplicatePort p)
      else check_ports (p # seen) ps)"

definition default_pos :: "int \<Rightarrow> int \<Rightarrow> int" where
  "default_pos d v = (if v \<le> 0 then d else v)"

definition key_hex_ok :: "string \<Rightarrow> bool" where
  "key_hex_ok s \<longleftrightarrow> (case hex_decode (trim_space s) of Some k \<Rightarrow> length k = 32 | None \<Rightarrow> False)"

definition validate_credentials :: "credentials_config \<Rightarrow> config_error + credentials_config" where
  "validate_credentials k =
    (if \<not> cr_enabled k then Inr k
     else if trim_space (cr_db_file k) = [] then Inl DbFileRequired
     else
       let k' = (if trim_space (cr_key_file k) = [] then k\<lparr>cr_key_file := cr_db_file k @ ''.key''\<rparr> else k) in
       if cr_key_hex k' \<noteq> [] \<and> \<not> key_hex_ok (cr_key_hex k') then Inl BadKeyHex
       else Inr k')"

definition validate :: "config \<Rightarrow> config_error + config" where
  "validate c =
    bind_result (ensure (sv_listen (c_server c) \<noteq> []) ListenRequired) (\<lambda>_.
    bind_result (ensure (ac_username (c_auth c) \<noteq> []) UsernameRequired) (\<lambda>_.
    bind_result (ensure (\<not> (ac_password (c_auth c) = [] \<and> ac_password_hash (c_auth c) = [])) PasswordRequired) (\<lambda>_.
    bind_result (ensure (sv_session_secret (c_server c) \<noteq> []) SecretRequired) (\<lambda>_.
    bind_result (ensure (\<not> length (sv_session_secret (c_server c)) < 16) SecretTooShort) (\<lambda>_.
      let policy = to_lower (trim_space (sh_host_key_policy (c_ssh c))) in
    bind_result (ensure (policy = ''known-hosts'' \<or> policy = ''insecure-ignore'')
                   (BadHostKeyPolicy (sh_host_key_policy (c_ssh c)))) (\<lambda>_.
    bind_result (ensure (\<not> (policy = ''known-hosts'' \<and> trim_space (sh_known_hosts_file (c_ssh c)) = []))
                   KnownHostsRequired) (\<lambda>_.
      let ssh = (c_ssh c)\<lparr>sh_host_key_policy := policy,
                  sh_max_sessions := default_pos 5 (sh_max_sessions (c_ssh c)),
                  sh_connect_timeout := default_pos (15 * second) (sh_connect_timeout (c_ssh c)),
                  sh_idle_timeout := default_pos (30 * minute) (sh_idle_timeout (c_ssh c))\<rparr>;
          auth = (c_auth c)\<lparr>ac_session_ttl := default_pos (12 * hour) (ac_session_ttl (c_auth c))\<rparr>;
          tunnel = (c_tunnel c)
                 \<lparr>tn_connect_timeout := default_pos (15 * second) (tn_connect_timeout (c_tunnel c)),
                  tn_write_timeout := default_pos (30 * second) (tn_write_timeout (c_tunnel c)),
                  tn_idle_timeout := default_pos (30 * minute) (tn_idle_timeout (c_tunnel c)),
                  tn_max_connections := default_pos 5 (tn_max_connections (c_tunnel c))\<rparr> in
    bind_result (ensure (tn_allowed_ports (c_tunnel c) \<noteq> []) PortsRequired) (\<lambda>_.
    bind_result (check_ports [] (tn_allowed_ports (c_tunnel c))) (\<lambda>_.
    bind_result (validate_credentials (c_credentials c)) (\<lambda>cred.
      Inr (c\<lparr>c_ssh := ssh, c_auth := auth, c_tunnel := tunnel, c_credentials := cred\<rparr>)))))))))))"

definition uses_plaintext_password :: "config \<Rightarrow> bool" where
  "uses_plaintext_password c \<longleftrightarrow> ac_password (c_auth c) \<noteq> [] \<and> ac_password_hash (c_auth c) = []"

section \<open>The invariant of a validated configuration\<close>

definition ports_valid :: "int list \<Rightarrow> bool" where
  "ports_valid ps \<longleftrightarrow> ps \<noteq> [] \<and> list_all (\<lambda>p. 1 \<le> p \<and> p \<le> 65535) ps \<and> distinct ps"

definition credentials_valid :: "credentials_config \<Rightarrow> bool" where
  "credentials_valid k \<longleftrightarrow> cr_enabled k \<longrightarrow>
     trim_space (cr_db_file k) \<noteq> [] \<and> trim_space (cr_key_file k) \<noteq> [] \<and>
     (cr_key_hex k = [] \<or> key_hex_ok (cr_key_hex k))"

definition limits_positive :: "config \<Rightarrow> bool" where
  "limits_positive c \<longleftrightarrow>
     0 < ac_session_ttl (c_auth c) \<and>
     0 < sh_connect_timeout (c_ssh c) \<and> 0 < sh_idle_timeout (c_ssh c) \<and> 0 < sh_max_sessions (c_ssh c) \<and>
     0 < tn_connect_timeout (c_tunnel c) \<and> 0 < tn_write_timeout (c_tunnel c) \<and>
     0 < tn_idle_timeout (c_tunnel c) \<and> 0 < tn_max_connections (c_tunnel c)"

text \<open>What the caller of \<^verbatim>\<open>Validate\<close> has to provide, whatever is defaulted.\<close>

definition acceptable :: "config \<Rightarrow> bool" where
  "acceptable c \<longleftrightarrow>
     sv_listen (c_server c) \<noteq> [] \<and> 16 \<le> length (sv_session_secret (c_server c)) \<and>
     ac_username (c_auth c) \<noteq> [] \<and>
     (ac_password (c_auth c) \<noteq> [] \<or> ac_password_hash (c_auth c) \<noteq> []) \<and>
     (let policy = to_lower (trim_space (sh_host_key_policy (c_ssh c))) in
        policy = ''insecure-ignore'' \<or>
        policy = ''known-hosts'' \<and> trim_space (sh_known_hosts_file (c_ssh c)) \<noteq> []) \<and>
     ports_valid (tn_allowed_ports (c_tunnel c)) \<and>
     (cr_enabled (c_credentials c) \<longrightarrow> trim_space (cr_db_file (c_credentials c)) \<noteq> [] \<and>
        (cr_key_hex (c_credentials c) = [] \<or> key_hex_ok (cr_key_hex (c_credentials c))))"

definition config_valid :: "config \<Rightarrow> bool" where
  "config_valid c \<longleftrightarrow> acceptable c \<and> limits_positive c \<and> credentials_valid (c_credentials c) \<and>
     sh_host_key_policy (c_ssh c) \<in> {''known-hosts'', ''insecure-ignore''}"

lemma check_ports_Inr_iff [result_iff]:
  "check_ports seen ps = Inr u \<longleftrightarrow>
     list_all (\<lambda>p. 1 \<le> p \<and> p \<le> 65535) ps \<and> distinct ps \<and> set ps \<inter> set seen = {}"
  by (induction ps arbitrary: seen) (auto simp: not_less)

lemma default_pos_positive [simp]: "0 < d \<Longrightarrow> 0 < default_pos d v"
  by (simp add: default_pos_def)

lemma default_pos_id [simp]: "0 < v \<Longrightarrow> default_pos d v = v"
  by (simp add: default_pos_def)

lemma policy_normal:
  "policy \<in> {''known-hosts'', ''insecure-ignore''} \<Longrightarrow> to_lower (trim_space policy) = policy"
  by (elim insertE emptyE; hypsubst; code_simp)

lemma key_suffix_not_blank: "trim_space (s @ ''.key'') \<noteq> []"
  using trim_space_keeps [of "CHR ''k''" "s @ ''.key''"] by (auto simp: plain_char_def)

lemma validate_credentials_Inr_iff [result_iff]:
  "validate_credentials k = Inr k' \<longleftrightarrow>
     (cr_enabled k \<longrightarrow> trim_space (cr_db_file k) \<noteq> [] \<and>
        (cr_key_hex k = [] \<or> key_hex_ok (cr_key_hex k))) \<and>
     k' = k\<lparr>cr_key_file := (if cr_enabled k \<and> trim_space (cr_key_file k) = []
                            then cr_db_file k @ ''.key'' else cr_key_file k)\<rparr>"
  by (auto simp: validate_credentials_def Let_def)

text \<open>The values \<^verbatim>\<open>Validate\<close> fills in.\<close>

definition normalised :: "config \<Rightarrow> config" where
  "normalised c =
    c\<lparr>c_ssh := (c_ssh c)
        \<lparr>sh_host_key_policy := to_lower (trim_space (sh_host_key_policy (c_ssh c))),
         sh_max_sessions := default_pos 5 (sh_max_sessions (c_ssh c)),
         sh_connect_timeout := default_pos (15 * second) (sh_connect_timeout (c_ssh c)),
         sh_idle_timeout := default_pos (30 * minute) (sh_idle_timeout (c_ssh c))\<rparr>,
      c_auth := (c_auth c)\<lparr>ac_session_ttl := default_pos (12 * hour) (ac_session_ttl (c_auth c))\<rparr>,
      c_tunnel := (c_tunnel c)
        \<lparr>tn_connect_timeout := default_pos (15 * second) (tn_connect_timeout (c_tunnel c)),
         tn_write_timeout := default_pos (30 * second) (tn_write_timeout (c_tunnel c)),
         tn_idle_timeout := default_pos (30 * minute) (tn_idle_timeout (c_tunnel c)),
         tn_max_connections := default_pos 5 (tn_max_connections (c_tunnel c))\<rparr>,
      c_credentials := (c_credentials c)\<lparr>cr_key_file :=
        (if cr_enabled (c_credentials c) \<and> trim_space (cr_key_file (c_credentials c)) = []
         then cr_db_file (c_credentials c) @ ''.key'' else cr_key_file (c_credentials c))\<rparr>\<rparr>"

lemma validate_Inr_iff: "validate c = Inr c' \<longleftrightarrow> acceptable c \<and> c' = normalised c"
  by (auto simp: validate_def acceptable_def normalised_def ports_valid_def result_iff Let_def not_less)

lemma normalised_valid: "acceptable c \<Longrightarrow> config_valid (normalised c)"
  by (auto simp: config_valid_def acceptable_def normalised_def limits_positive_def
      credentials_valid_def Let_def policy_normal key_suffix_not_blank)

lemma normalised_idem: "config_valid c \<Longrightarrow> normalised c = c"
  by (auto simp: config_valid_def normalised_def limits_positive_def credentials_valid_def policy_normal)

text \<open>
  C27: \<^verbatim>\<open>Validate\<close> establishes the invariant of a usable configuration: identity and secret present,
  host key policy canonical, every timeout and limit positive, tunnel ports in range and distinct,
  credential storage fully configured. Validating again changes nothing, and neither does validating a configuration with the
  invariant. Field by field: a timeout or limit that is positive is kept and any other gets its own default, the policy is
  trimmed and in lower case, a blank key file of an enabled storage is named after the database, and every other field is as configured.
\<close>

theorem validate_establishes_invariant:
  assumes "validate c = Inr c'"
  shows "config_valid c' \<and> validate c' = Inr c' \<and> (config_valid c \<longrightarrow> c' = c) \<and>
    c_server c' = c_server c \<and> c_network c' = c_network c \<and> c_log_level c' = c_log_level c \<and> c_themes_dir c' = c_themes_dir c \<and>
    ac_username (c_auth c') = ac_username (c_auth c) \<and> ac_password (c_auth c') = ac_password (c_auth c) \<and>
    ac_password_hash (c_auth c') = ac_password_hash (c_auth c) \<and>
    ac_session_ttl (c_auth c') = (if 0 < ac_session_ttl (c_auth c) then ac_session_ttl (c_auth c) else 12 * hour) \<and>
    sh_connect_timeout (c_ssh c') = (if 0 < sh_connect_timeout (c_ssh c) then sh_connect_timeout (c_ssh c) else 15 * second) \<and>
    sh_idle_timeout (c_ssh c') = (if 0 < sh_idle_timeout (c_ssh c) then sh_idle_timeout (c_ssh c) else 30 * minute) \<and>
    sh_max_sessions (c_ssh c') = (if 0 < sh_max_sessions (c_ssh c) then sh_max_sessions (c_ssh c) else 5) \<and>
    sh_host_key_policy (c_ssh c') = to_lower (trim_space (sh_host_key_policy (c_ssh c))) \<and>
    sh_known_hosts_file (c_ssh c') = sh_known_hosts_file (c_ssh c) \<and>
    tn_enabled (c_tunnel c') = tn_enabled (c_tunnel c) \<and> tn_allowed_ports (c_tunnel c') = tn_allowed_ports (c_tunnel c) \<and>
    tn_connect_timeout (c_tunnel c') = (if 0 < tn_connect_timeout (c_tunnel c) then tn_connect_timeout (c_tunnel c) else 15 * second) \<and>
    tn_write_timeout (c_tunnel c') = (if 0 < tn_write_timeout (c_tunnel c) then tn_write_timeout (c_tunnel c) else 30 * second) \<and>
    tn_idle_timeout (c_tunnel c') = (if 0 < tn_idle_timeout (c_tunnel c) then tn_idle_timeout (c_tunnel c) else 30 * minute) \<and>
    tn_max_connections (c_tunnel c') = (if 0 < tn_max_connections (c_tunnel c) then tn_max_connections (c_tunnel c) else 5) \<and>
    cr_enabled (c_credentials c') = cr_enabled (c_credentials c) \<and> cr_db_file (c_credentials c') = cr_db_file (c_credentials c) \<and>
    cr_key_hex (c_credentials c') = cr_key_hex (c_credentials c) \<and>
    cr_key_file (c_credentials c') =
      (if cr_enabled (c_credentials c) \<and> trim_space (cr_key_file (c_credentials c)) = []
       then cr_db_file (c_credentials c) @ ''.key'' else cr_key_file (c_credentials c))"
proof -
  from assms have a: "acceptable c" and c': "c' = normalised c" by (simp_all add: validate_Inr_iff)
  have v: "config_valid c'" unfolding c' by (rule normalised_valid [OF a])
  moreover have "validate c' = Inr c'"
    using v normalised_idem [OF v] by (simp add: validate_Inr_iff config_valid_def)
  moreover have "config_valid c \<longrightarrow> c' = c" using normalised_idem c' by blast
  ultimately show ?thesis by (simp add: c' normalised_def default_pos_def not_le [symmetric])
qed
definition sample_env :: "string \<Rightarrow> string" where
  "sample_env k = (if k = ''GOWEBSSH_PASSWORD'' then ''hunter2''
     else if k = ''GOWEBSSH_SESSION_SECRET'' then ''0123456789abcdef'' else [])"

theorem validate_establishes_invariant_witness:
  "config_valid (normalised (apply_env default_config sample_env))"
proof -
  have "validate (apply_env default_config sample_env)
      = Inr (normalised (apply_env default_config sample_env))"
    unfolding validate_Inr_iff by code_simp
  from validate_establishes_invariant [OF this] show ?thesis by blast
qed

text \<open>
  With no configuration file, the environment alone starts the server exactly when it gives a
  password or a password hash, a session secret of at least 16 bytes, no unknown host key policy
  (nor a blank known hosts file under \<^verbatim>\<open>known-hosts\<close>) and no malformed vault key; every other
  variable may be anything.
\<close>

theorem environment_starts_iff:
  "(\<exists>c'. validate (apply_env default_config env) = Inr c') \<longleftrightarrow>
     \<not> (env ''GOWEBSSH_PASSWORD'' = [] \<and> env ''GOWEBSSH_PASSWORD_HASH'' = []) \<and>
     16 \<le> length (env ''GOWEBSSH_SESSION_SECRET'') \<and>
     (let policy = to_lower (trim_space (override (env ''GOWEBSSH_HOST_KEY_POLICY'') ''known-hosts'')) in
        policy = ''insecure-ignore'' \<or> policy = ''known-hosts'' \<and>
        trim_space (override (env ''GOWEBSSH_KNOWN_HOSTS_FILE'') ''./known_hosts'') \<noteq> []) \<and>
     (env ''GOWEBSSH_CREDENTIALS_KEY'' = [] \<or> key_hex_ok (env ''GOWEBSSH_CREDENTIALS_KEY''))"
  (is "_ \<longleftrightarrow> ?r")
proof -
  have d: "trim_space ''./credentials.db'' \<noteq> []" "ports_valid [22]" by code_simp+
  have "acceptable (apply_env default_config env) \<longleftrightarrow> ?r"
    by (simp add: acceptable_def apply_env_def default_config_def Let_def d conj_ac)
  then show ?thesis unfolding validate_Inr_iff by blast
qed

text \<open>
  A duration written in YAML as a plain number means that many seconds, exactly, as long as
  it fits: up to 9223372036 seconds. Past that the 64-bit product wraps without an error, and a
  timeout of 18446744074 seconds becomes about 0.29 seconds.
\<close>

theorem duration_plain_seconds:
  assumes "\<And>s. list_all is_digit s \<Longrightarrow> s \<noteq> ''0'' \<Longrightarrow> parse_duration s = None"
    and "0 < n" "n < 2 ^ 63"
  shows "duration_unmarshal parse_duration True (itoa n) = Inr (wrap64 (n * second)) \<and>
    (wrap64 (n * second) = n * second \<longleftrightarrow> n \<le> 9223372036) \<and>
    duration_unmarshal parse_duration True (itoa 18446744074) = Inr 290448384"
proof -
  have i: "duration_unmarshal parse_duration True (itoa k) = Inr (wrap64 (k * second))"
    if "0 < k" "k < 2 ^ 63" for k
  proof -
    have d: "itoa k = dec_string k" using that by (simp add: itoa_def)
    have "dec_string k \<noteq> []" "list_all is_digit (dec_string k)"
      using dec_string_digits [of k] that by auto
    moreover have "dec_string k \<noteq> ''0''"
      using digits_val_dec_string [of k] that by (auto simp: digits_val_def digit_val_def)
    ultimately show ?thesis
      using assms(1) atoi_itoa [of k] that by (simp add: duration_unmarshal_def d)
  qed
  have "wrap64 (n * second) = n * second \<longleftrightarrow> n \<le> 9223372036"
    using assms(2,3) wrap64_bounds(2) [of "n * second"] wrap64_id [of "n * second"] by auto
  moreover have "wrap64 (18446744074 * second) = 290448384" by code_simp
  ultimately show ?thesis using i [of n] i [of 18446744074] assms(2,3) by simp
qed

text \<open>\<^verbatim>\<open>time.ParseDuration\<close> accepts \<^verbatim>\<open>0\<close> and otherwise wants a unit; here without its sums and fractions.\<close>

definition sample_parse_duration :: "string \<Rightarrow> duration option" where
  "sample_parse_duration s =
    (if s = ''0'' then Some 0
     else if s \<noteq> [] \<and> last s = CHR ''s'' then map_option (\<lambda>n. n * second) (atoi (butlast s))
     else None)"

theorem duration_plain_seconds_witness:
  "duration_unmarshal sample_parse_duration True (itoa 90) = Inr (90 * second)"
proof -
  have "sample_parse_duration s = None" if "list_all is_digit s" "s \<noteq> ''0''" for s
  proof -
    have "\<not> (s \<noteq> [] \<and> last s = CHR ''s'')"
      using that(1) last_in_set [of s] by (fastforce simp: list_all_iff is_digit_def)
    with that(2) show ?thesis by (simp only: sample_parse_duration_def if_False simp_thms)
  qed
  from duration_plain_seconds [where parse_duration = sample_parse_duration and n = 90, OF this]
  show ?thesis by (simp add: wrap64_id)
qed

end
