(* ===== verification/Keyed_Store.thy ===== *)
theory Keyed_Store
  imports Go_Prelude
begin

text \<open>
  The contract of a store of values under keys that the rest of the program relies on: a write or
  a removal that reports success changes the looked-up map at that key and nowhere else, and one
  that reports a failure changes nothing. The store works in an environment (the database, the
  codecs) of which \<open>ok\<close> is assumed, and only for the values that are \<open>storable\<close> in it. What
  follows for every history of operations is proved once, here.
\<close>

datatype ('k, 'v, 'r) change = Put 'k 'v 'r | Del 'k

fun run_changes ::
  "('e \<Rightarrow> 's \<Rightarrow> 'k \<Rightarrow> 'v \<Rightarrow> 'r \<Rightarrow> bool \<times> 's) \<Rightarrow> ('e \<Rightarrow> 's \<Rightarrow> 'k \<Rightarrow> bool \<times> 's) \<Rightarrow>
   'e \<Rightarrow> 's \<Rightarrow> ('k, 'v, 'r) change list \<Rightarrow> ('k, 'v, 'r) change list \<times> 's" where
  "run_changes put del e s [] = ([], s)"
| "run_changes put del e s (x # xs) =
     (case (case x of Put k v r \<Rightarrow> put e s k v r | Del k \<Rightarrow> del e s k) of
        (success, s') \<Rightarrow>
          (case run_changes put del e s' xs of
             (kept, s'') \<Rightarrow> (if success then x # kept else kept, s'')))"

fun abstract_change :: "('k, 'v, 'r) change \<Rightarrow> ('k \<rightharpoonup> 'v) \<Rightarrow> 'k \<rightharpoonup> 'v" where
  "abstract_change (Put k v r) m = m(k \<mapsto> v)"
| "abstract_change (Del k) m = m(k := None)"

fun storable_change :: "('k \<Rightarrow> 'v \<Rightarrow> bool) \<Rightarrow> ('k, 'v, 'r) change \<Rightarrow> bool" where
  "storable_change P (Put k v r) \<longleftrightarrow> P k v"
| "storable_change P (Del k) \<longleftrightarrow> True"

locale keyed_store =
  fixes ok :: "'e \<Rightarrow> bool"
    and storable :: "'e \<Rightarrow> 'k \<Rightarrow> 'v \<Rightarrow> bool"
    and look :: "'e \<Rightarrow> 's \<Rightarrow> 'k \<Rightarrow> 'v option"
    and put :: "'e \<Rightarrow> 's \<Rightarrow> 'k \<Rightarrow> 'v \<Rightarrow> 'r \<Rightarrow> bool \<times> 's"
    and del :: "'e \<Rightarrow> 's \<Rightarrow> 'k \<Rightarrow> bool \<times> 's"
  assumes look_put: "ok e \<Longrightarrow> storable e k v \<Longrightarrow> put e s k v r = (True, s') \<Longrightarrow>
      look e s' = (look e s)(k \<mapsto> v)"
    and look_del: "ok e \<Longrightarrow> del e s k = (True, s') \<Longrightarrow> look e s' = (look e s)(k := None)"
    and put_failed: "put e s k v r = (False, s') \<Longrightarrow> look e s' = look e s"
    and del_failed: "del e s k = (False, s') \<Longrightarrow> look e s' = look e s"
begin

lemma look_step:
  assumes "ok e" "storable_change (storable e) x"
    and "(case x of Put k v r \<Rightarrow> put e s k v r | Del k \<Rightarrow> del e s k) = (success, s')"
  shows "look e s' = (if success then abstract_change x (look e s) else look e s)"
  using assms look_put look_del put_failed del_failed
  by (cases x; cases success) (simp; blast)+

lemma look_history:
  assumes "ok e" "list_all (storable_change (storable e)) xs"
    and "run_changes put del e s xs = (kept, s')"
  shows "look e s' = fold abstract_change kept (look e s)"
  using assms
proof (induction xs arbitrary: s kept)
  case Nil
  then show ?case by simp
next
  case (Cons x xs)
  obtain success s1 where s1: "(case x of Put k v r \<Rightarrow> put e s k v r | Del k \<Rightarrow> del e s k) = (success, s1)"
    by fastforce
  obtain rest where rest: "run_changes put del e s1 xs = (rest, s')"
    and d: "kept = (if success then x # rest else rest)"
    using Cons.prems(3) s1 by (auto split: prod.splits)
  have "look e s' = fold abstract_change rest (look e s1)"
    using Cons.IH [of s1 rest] Cons.prems(1,2) rest by simp
  with look_step [OF Cons.prems(1) _ s1] Cons.prems(2) d show ?case by simp
qed

text \<open>A key no operation of the history names is looked up as before.\<close>

lemma look_untouched:
  assumes "ok e" "list_all (storable_change (storable e)) xs"
    and "run_changes put del e s xs = (kept, s')"
    and "list_all (\<lambda>x. case x of Put k' _ _ \<Rightarrow> k' \<noteq> k | Del k' \<Rightarrow> k' \<noteq> k) kept"
  shows "look e s' k = look e s k"
proof -
  have "fold abstract_change kept m k = m k" for m
    using assms(4) by (induction "kept" arbitrary: m) (auto split: change.splits)
  with look_history [OF assms(1-3)] show ?thesis by simp
qed

end

end
