(* ===== verification/Go_Time.thy ===== *)
theory Go_Time
  imports Go_Json_Object
begin

text \<open>
  Instants as the \<^verbatim>\<open>time\<close> package writes them into JSON and reads them: the calendar, and the layout RFC 3339 with
  a fraction of up to nine digits.
\<close>

section \<open>The calendar\<close>

definition leap_year :: "int \<Rightarrow> bool" where
  "leap_year y \<longleftrightarrow> y mod 4 = 0 \<and> (y mod 100 \<noteq> 0 \<or> y mod 400 = 0)"

text \<open>Days from the first day of the year 0 to that of a year, and the year of a day.\<close>

definition year_start :: "int \<Rightarrow> int" where
  "year_start y = 365 * y + (y + 3) div 4 - (y + 99) div 100 + (y + 399) div 400"

definition year_of_day :: "int \<Rightarrow> int" where
  "year_of_day d =
    (let y = (400 * d) div 146097 in
     if d < year_start y then y - 1 else if year_start (y + 1) \<le> d then y + 1 else y)"

lemma div_step:
  fixes y k :: int
  assumes "0 < k"
  shows "(y + k) div k = (y + (k - 1)) div k + (if y mod k = 0 then 1 else 0)"
proof -
  have r: "y + (k - 1) = (y mod k + (k - 1)) + k * (y div k)" by simp
  have "(y mod k + (k - 1)) div k = (if y mod k = 0 then 0 else 1)"
  proof (cases "y mod k = 0")
    case False
    then have "0 \<le> y mod k - 1" "y mod k - 1 < k" using assms pos_mod_bound [of k y] pos_mod_sign [of k y] by linarith+
    then have "(y mod k - 1) div k = 0" by (rule div_pos_pos_trivial)
    moreover have "(y mod k - 1 + k) div k = (y mod k - 1) div k + 1" using assms by (intro div_add_self2) simp
    moreover have "y mod k + (k - 1) = y mod k - 1 + k" by simp
    ultimately show ?thesis using False by (simp only: if_False add_0)
  qed (use assms in simp)
  then have "(y + (k - 1)) div k = y div k + (if y mod k = 0 then 0 else 1)" using assms by (subst r, subst div_mult_self2) simp_all
  moreover have "(y + k) div k = y div k + 1" using assms by (intro div_add_self2) simp
  ultimately show ?thesis by simp
qed

lemma year_start_next: "year_start (y + 1) = year_start y + (if leap_year y then 366 else 365)"
proof -
  have n: "y mod 100 = 0 \<Longrightarrow> y mod 4 = 0" "y mod 400 = 0 \<Longrightarrow> y mod 100 = 0" by presburger+
  have s: "y + 1 + 3 = y + 4" "y + 1 + 99 = y + 100" "y + 1 + 399 = y + 400" by simp_all
  define x where "x = (\<lambda>k. if y mod k = 0 then 1 else 0 :: int)"
  have d: "(y + 4) div 4 = (y + 3) div 4 + x 4" "(y + 100) div 100 = (y + 99) div 100 + x 100" "(y + 400) div 400 = (y + 399) div 400 + x 400"
    using div_step [of 4 y] div_step [of 100 y] div_step [of 400 y] by (simp_all only: x_def)
  have "x 4 - x 100 + x 400 = (if leap_year y then 1 else 0)" 
  proof -
    have "(if a then 1 else 0) - (if b then 1 else 0) + (if c then 1 else 0 :: int) = (if a \<and> (\<not> b \<or> c) then 1 else 0)"
      if "b \<longrightarrow> a" "c \<longrightarrow> b" for a b c
      using that by (cases a; cases b; cases c) simp_all
    from this [of "y mod 100 = 0" "y mod 4 = 0" "y mod 400 = 0"] n show ?thesis unfolding x_def leap_year_def by blast
  qed
  moreover have "year_start (y + 1) = year_start y + 365 + (x 4 - x 100 + x 400)" 
  proof -
    have "365 * (y + 1) + (a + x 4) - (b + x 100) + (c + x 400) = 365 * y + a - b + c + 365 + (x 4 - x 100 + x 400)" for a b c by simp
    then show ?thesis unfolding year_start_def s d .
  qed
  ultimately show ?thesis by (simp split: if_split)
qed

lemma year_of_day_bounds: "year_start (year_of_day d) \<le> d \<and> d < year_start (year_of_day d + 1)"
proof -
  define y where "y = (400 * d) div 146097"
  have quotient: "k * (n div k) \<le> n \<and> n < k * (n div k) + k" if "0 < k" for n k :: int
    using pos_mod_bound [OF that, of n] pos_mod_sign [OF that, of n] mult_div_mod_eq [of k n] by linarith
  have y: "146097 * y \<le> 400 * d" "400 * d < 146097 * (y + 1)" unfolding y_def using quotient [of 146097 "400 * d"] by simp_all
  have low: "146097 * x - 396 \<le> 400 * year_start x" and high: "400 * year_start x \<le> 146097 * x + 699" for x
    unfolding year_start_def using quotient [of 4 "x + 3"] quotient [of 100 "x + 99"] quotient [of 400 "x + 399"] by simp_all
  have "year_start (y - 1) \<le> d" "d < year_start (y + 2)" using y low [of "y + 2"] high [of "y - 1"] by simp_all
  then show ?thesis by (auto simp: year_of_day_def Let_def y_def [symmetric] add.commute)
qed

definition month_lengths :: "int \<Rightarrow> int list" where
  "month_lengths y = [31, if leap_year y then 29 else 28, 31, 30, 31, 30, 31, 31, 30, 31, 30, 31]"

definition days_in :: "int \<Rightarrow> int \<Rightarrow> int" where
  "days_in m y = month_lengths y ! nat (m - 1)"

definition month_start :: "int \<Rightarrow> int \<Rightarrow> int" where
  "month_start m y = sum_list (take (nat (m - 1)) (month_lengths y))"

text \<open>The month and the day in it of a day of the year.\<close>

fun month_day :: "int list \<Rightarrow> int \<Rightarrow> int \<Rightarrow> int \<times> int" where
  "month_day (l # ls) m d = (if d < l \<or> ls = [] then (m, d + 1) else month_day ls (m + 1) (d - l))"
| "month_day [] m d = (m, d + 1)"

definition civil_of_day :: "int \<Rightarrow> int \<times> int \<times> int" where
  "civil_of_day d = (let y = year_of_day d in (y, month_day (month_lengths y) 1 (d - year_start y)))"

definition day_of_civil :: "int \<Rightarrow> int \<Rightarrow> int \<Rightarrow> int" where
  "day_of_civil y m d = year_start y + month_start m y + d - 1"

lemma month_day_bounds:
  assumes "0 \<le> d" "d < sum_list ls" "month_day ls m d = (m', e)"
  shows "m \<le> m' \<and> m' < m + int (length ls) \<and> 1 \<le> e \<and> e \<le> ls ! nat (m' - m) \<and> sum_list (take (nat (m' - m)) ls) + e = d + 1"
  using assms
proof (induction ls arbitrary: m d)
  case (Cons l ls)
  show ?case
  proof (cases "d < l \<or> ls = []")
    case True
    with Cons.prems show ?thesis by auto
  next
    case False
    then have "month_day ls (m + 1) (d - l) = (m', e)" "0 \<le> d - l" "d - l < sum_list ls" using Cons.prems by auto
    from Cons.IH [OF this(2,3,1)] have ih: "m + 1 \<le> m'" "m' < m + 1 + int (length ls)" "1 \<le> e" "e \<le> ls ! nat (m' - (m + 1))"
      "sum_list (take (nat (m' - (m + 1))) ls) + e = d - l + 1" by simp_all
    moreover have "nat (m' - m) = Suc (nat (m' - (m + 1)))" using ih(1) by simp
    ultimately show ?thesis by simp
  qed
qed simp

lemma civil_of_day_ok:
  assumes "civil_of_day n = (y, m, d)"
  shows "1 \<le> m \<and> m \<le> 12 \<and> 1 \<le> d \<and> d \<le> days_in m y \<and> day_of_civil y m d = n"
proof -
  have y: "y = year_of_day n" and md: "month_day (month_lengths y) 1 (n - year_start y) = (m, d)"
    using assms by (auto simp: civil_of_day_def Let_def)
  have "sum_list (month_lengths y) = (if leap_year y then 366 else 365)" by (simp add: month_lengths_def)
  moreover have "0 \<le> n - year_start y" "n - year_start y < (if leap_year y then 366 else 365)"
    using year_of_day_bounds [of n] year_start_next [of y] by (simp_all add: y split: if_split_asm)
  ultimately have "n - year_start y < sum_list (month_lengths y)" "0 \<le> n - year_start y" by simp_all
  from month_day_bounds [OF this(2,1) md] show ?thesis
    by (auto simp: days_in_def day_of_civil_def month_start_def month_lengths_def)
qed

section \<open>Digits\<close>

fun digits :: "nat \<Rightarrow> int \<Rightarrow> string" where
  "digits 0 n = []"
| "digits (Suc k) n = digits k (n div 10) @ [digit_char (nat (n mod 10))]"

lemma digits_are: "list_all is_digit (digits k n)" "length (digits k n) = k"
  by (induction k arbitrary: n) (simp_all add: digit_char_lt nat_less_iff)

lemma digits_val_digits: "0 \<le> n \<Longrightarrow> n < 10 ^ k \<Longrightarrow> digits_val (digits k n) = n"
proof (induction k arbitrary: n)
  case (Suc k)
  then have "digits_val (digits k (n div 10)) = n div 10" by simp
  then show ?case by (simp add: digits_val_snoc digit_char_lt nat_less_iff)
qed (simp add: digits_val_def)

definition take_digits :: "nat \<Rightarrow> string \<Rightarrow> (int \<times> string) option" where
  "take_digits k s = (if k \<le> length s \<and> list_all is_digit (take k s) then Some (digits_val (take k s), drop k s) else None)"

fun expect :: "char \<Rightarrow> string \<Rightarrow> string option" where
  "expect c [] = None"
| "expect c (x # s) = (if x = c then Some s else None)"

text \<open>The hour may be given with one digit.\<close>

definition take_hour :: "string \<Rightarrow> (int \<times> string) option" where
  "take_hour s = (case take_digits 2 s of Some r \<Rightarrow> Some r | None \<Rightarrow> take_digits 1 s)"

text \<open>A fraction counts nine digits, and needs one.\<close>

definition take_fraction :: "string \<Rightarrow> int \<times> string" where
  "take_fraction s =
    (case s of
       c # r \<Rightarrow>
         (if (c = CHR ''.'' \<or> c = CHR '','') \<and> r \<noteq> [] \<and> is_digit (hd r)
          then (let ds = take 9 (takeWhile is_digit r) in (digits_val ds * 10 ^ (9 - length ds), dropWhile is_digit r))
          else (0, s))
     | [] \<Rightarrow> (0, s))"

definition take_zone :: "string \<Rightarrow> (int \<times> string) option" where
  "take_zone s =
    (case s of
       [] \<Rightarrow> None
     | c # r \<Rightarrow>
         if c = CHR ''Z'' then Some (0, r)
         else if c = CHR ''+'' \<or> c = CHR ''-'' then
           Option.bind (take_digits 2 r) (\<lambda>(h, r). Option.bind (expect CHR '':'' r) (\<lambda>r. Option.bind (take_digits 2 r) (\<lambda>(m, r).
             if h > 24 \<or> m > 60 then None else Some ((if c = CHR ''-'' then -1 else 1) * (h * 60 + m) * 60, r))))
         else None)"

section \<open>Times\<close>

text \<open>Nanoseconds since 1970, and the seconds by which the clock of its location is ahead of UTC.\<close>

record go_time =
  tm_nano :: int
  tm_offset :: int

definition utc :: "int \<Rightarrow> go_time" where
  "utc now = \<lparr>tm_nano = now, tm_offset = 0\<rparr>"

text \<open>The zero \<^verbatim>\<open>Time\<close> is the first instant of the year 1; \<^verbatim>\<open>IsZero\<close> does not look at the location.\<close>

definition zero_time :: go_time where
  "zero_time = utc (- 62135596800 * second)"

definition is_zero_time :: "go_time \<Rightarrow> bool" where
  "is_zero_time t \<longleftrightarrow> tm_nano t = tm_nano zero_time"

definition day_nanos :: int where
  "day_nanos = 86400 * second"

text \<open>The first day of 1970.\<close>

definition epoch_day :: int where
  "epoch_day = 719528"

definition trim_zeros :: "string \<Rightarrow> string" where
  "trim_zeros s = rev (dropWhile (\<lambda>c. c = CHR ''0'') (rev s))"

definition fraction_text :: "int \<Rightarrow> string" where
  "fraction_text ns = (if ns = 0 then [] else CHR ''.'' # trim_zeros (digits 9 ns))"

definition zone_text :: "int \<Rightarrow> string" where
  "zone_text offset =
    (if offset = 0 then ''Z''
     else let zone = go_div offset 60 in
       (if zone < 0 then CHR ''-'' else CHR ''+'') # digits 2 (\<bar>zone\<bar> div 60) @ CHR '':'' # digits 2 (\<bar>zone\<bar> mod 60))"

text \<open>The text of \<^verbatim>\<open>MarshalJSON\<close> without its quotes; an error for a year or a zone that the layout cannot show.\<close>

definition format_time :: "go_time \<Rightarrow> string option" where
  "format_time t =
    (let local = tm_nano t + tm_offset t * second; r = local mod day_nanos; s = r div second in
     case civil_of_day (local div day_nanos + epoch_day) of (y, m, d) \<Rightarrow>
       if y < 0 \<or> y > 9999 \<or> \<bar>tm_offset t\<bar> \<ge> 86400 then None
       else Some (digits 4 y @ CHR ''-'' # digits 2 m @ CHR ''-'' # digits 2 d @ CHR ''T'' #
         digits 2 (s div 3600) @ CHR '':'' # digits 2 (s div 60 mod 60) @ CHR '':'' # digits 2 (s mod 60) @
         fraction_text (r mod second) @ zone_text (tm_offset t)))"

definition parse_time :: "string \<Rightarrow> go_time option" where
  "parse_time s =
    Option.bind (take_digits 4 s) (\<lambda>(y, s). Option.bind (expect CHR ''-'' s) (\<lambda>s.
    Option.bind (take_digits 2 s) (\<lambda>(m, s). Option.bind (expect CHR ''-'' s) (\<lambda>s.
    Option.bind (take_digits 2 s) (\<lambda>(d, s). Option.bind (expect CHR ''T'' s) (\<lambda>s.
    Option.bind (take_hour s) (\<lambda>(h, s). Option.bind (expect CHR '':'' s) (\<lambda>s.
    Option.bind (take_digits 2 s) (\<lambda>(mi, s). Option.bind (expect CHR '':'' s) (\<lambda>s.
    Option.bind (take_digits 2 s) (\<lambda>(sec, s). case take_fraction s of (ns, s) \<Rightarrow>
    Option.bind (take_zone s) (\<lambda>(offset, s).
      if s \<noteq> [] \<or> m < 1 \<or> m > 12 \<or> d < 1 \<or> d > days_in m y \<or> h > 23 \<or> mi > 59 \<or> sec > 59 then None
      else Some \<lparr>tm_nano = ((day_of_civil y m d - epoch_day) * 86400 + h * 3600 + mi * 60 + sec - offset) * second + ns,
                 tm_offset = offset\<rparr>))))))))))))"


section \<open>What is written is read\<close>

lemma take_digits_digits: "0 \<le> n \<Longrightarrow> n < 10 ^ k \<Longrightarrow> take_digits k (digits k n @ r) = Some (n, r)"
  using digits_are [of k n] by (simp add: take_digits_def digits_val_digits)

lemma take_two: "0 \<le> n \<Longrightarrow> n < 100 \<Longrightarrow> take_digits 2 (digits 2 n @ r) = Some (n, r)"
  using take_digits_digits [of n 2 r] by simp

lemma take_hour_digits: "0 \<le> n \<Longrightarrow> n < 100 \<Longrightarrow> take_hour (digits 2 n @ r) = Some (n, r)"
  by (simp add: take_hour_def take_two)

lemma trim_zeros_split: "\<exists>j. s = trim_zeros s @ replicate j CHR ''0''"
proof -
  let ?z = "\<lambda>c. c = CHR ''0''"
  have "\<forall>c \<in> set (takeWhile ?z (rev s)). c = CHR ''0''" by (auto dest: set_takeWhileD)
  then obtain j where j: "takeWhile ?z (rev s) = replicate j CHR ''0''" by (metis replicate_eqI)
  have "s = rev (takeWhile ?z (rev s) @ dropWhile ?z (rev s))" by (simp only: takeWhile_dropWhile_id rev_rev_ident)
  also have "\<dots> = trim_zeros s @ replicate j CHR ''0''" unfolding j trim_zeros_def by (simp only: rev_append rev_replicate)
  finally show ?thesis by blast
qed

lemma digits_val_zeros: "digits_val (s @ replicate j CHR ''0'') = digits_val s * 10 ^ j"
proof (induction j)
  case (Suc j)
  have "s @ replicate (Suc j) CHR ''0'' = (s @ replicate j CHR ''0'') @ [CHR ''0'']" by (simp add: replicate_append_same)
  then have "digits_val (s @ replicate (Suc j) CHR ''0'') = 10 * digits_val (s @ replicate j CHR ''0'') + digit_val CHR ''0''"
    by (simp only: digits_val_snoc)
  with Suc show ?case by (simp add: digit_val_def)
qed simp

lemma fraction_read:
  assumes "0 \<le> ns" "ns < 10 ^ 9" "r = [] \<or> \<not> is_digit (hd r) \<and> hd r \<noteq> CHR ''.'' \<and> hd r \<noteq> CHR '',''"
  shows "take_fraction (fraction_text ns @ r) = (ns, r)"
proof (cases "ns = 0")
  case True
  with assms(3) show ?thesis by (cases r) (auto simp: fraction_text_def take_fraction_def)
next
  case False
  let ?ds = "trim_zeros (digits 9 ns)"
  obtain j where j: "digits 9 ns = ?ds @ replicate j CHR ''0''" using trim_zeros_split by blast
  have val: "digits_val ?ds * 10 ^ j = ns" using digits_val_zeros [of ?ds j] digits_val_digits [OF assms(1,2)] by (simp only: j [symmetric])
  have len: "length ?ds + j = 9" using digits_are(2) [of 9 ns] arg_cong [OF j, of length] by simp
  have all: "list_all is_digit ?ds" using digits_are(1) [of 9 ns] j by (metis list_all_append)
  have ne: "?ds \<noteq> []" using val False by (auto simp: digits_val_def)
  then have "is_digit (hd ?ds)" using all by (cases ?ds) auto
  moreover have "takeWhile is_digit (?ds @ r) = ?ds" "dropWhile is_digit (?ds @ r) = r"
    using all assms(3) by (cases r; auto simp: list_all_iff takeWhile_append2 dropWhile_append2)+
  moreover have "9 - length ?ds = j" "take 9 ?ds = ?ds" using len by simp_all
  ultimately show ?thesis using False ne val by (simp add: fraction_text_def take_fraction_def Let_def)
qed

lemma zone_read:
  assumes "offset mod 60 = 0" "\<bar>offset\<bar> < 86400"
  shows "take_zone (zone_text offset) = Some (offset, [])"
    "hd (zone_text offset) \<in> {CHR ''Z'', CHR ''+'', CHR ''-''}" "zone_text offset \<noteq> []"
proof -
  define z where "z = \<bar>go_div offset 60\<bar>"
  obtain q where q: "offset = 60 * q" using assms(1) by (metis mult_div_mod_eq add.right_neutral)
  have gd: "go_div offset 60 = q" unfolding q by (cases "q < 0"; cases "q = 0") (simp_all add: go_div_def abs_mult sgn_mult)
  have z: "0 \<le> z div 60" "z div 60 \<le> 24" "0 \<le> z mod 60" "z mod 60 < 60" "z div 60 < 100" "z mod 60 < 100"
    using assms(2) unfolding z_def gd unfolding q by linarith+
  have v: "(if q < 0 then - 1 else 1) * (z div 60 * 60 + z mod 60) * 60 = offset" unfolding z_def gd unfolding q by simp
  have zt: "zone_text offset = (if offset = 0 then ''Z'' else
      (if q < 0 then CHR ''-'' else CHR ''+'') # digits 2 (z div 60) @ CHR '':'' # digits 2 (z mod 60))"
    unfolding zone_text_def gd Let_def z_def ..
  have "take_zone ((if q < 0 then CHR ''-'' else CHR ''+'') # digits 2 (z div 60) @ CHR '':'' # digits 2 (z mod 60)) =
      Some ((if q < 0 then - 1 else 1) * (z div 60 * 60 + z mod 60) * 60, [])"
    using z take_two [of "z div 60" "CHR '':'' # digits 2 (z mod 60)"] take_two [of "z mod 60" "[]"]
    by (cases "q < 0") (simp_all add: take_zone_def)
  then show "take_zone (zone_text offset) = Some (offset, [])" unfolding zt v by (simp add: take_zone_def)
  show "hd (zone_text offset) \<in> {CHR ''Z'', CHR ''+'', CHR ''-''}" "zone_text offset \<noteq> []" by (simp_all add: zone_text_def Let_def)
qed

theorem parse_format_time:
  assumes "format_time t = Some s" "tm_offset t mod 60 = 0"
  shows "parse_time s = Some t"
proof -
  define l where "l = tm_nano t + tm_offset t * second"
  define r where "r = l mod day_nanos"
  define n where "n = r div second"
  obtain y m d where c: "civil_of_day (l div day_nanos + epoch_day) = (y, m, d)" by (metis surj_pair)
  have s: "s = digits 4 y @ CHR ''-'' # digits 2 m @ CHR ''-'' # digits 2 d @ CHR ''T'' #
         digits 2 (n div 3600) @ CHR '':'' # digits 2 (n div 60 mod 60) @ CHR '':'' # digits 2 (n mod 60) @
         fraction_text (r mod second) @ zone_text (tm_offset t)" and y: "0 \<le> y" "y < 10 ^ 4" and off: "\<bar>tm_offset t\<bar> < 86400"
    using assms(1) c unfolding format_time_def l_def [symmetric] Let_def r_def [symmetric] n_def [symmetric]
    by (simp_all only: prod.case simp_thms option.distinct option.inject not_less not_le de_Morgan_disj power_numeral split: if_split_asm) simp_all
  note civil = civil_of_day_ok [OF c]
  have "0 \<le> r" "r < day_nanos" unfolding r_def by (simp_all add: day_nanos_def)
  then have n: "0 \<le> n" "n < 86400" unfolding n_def day_nanos_def by simp_all
  have frac: "0 \<le> r mod second" "r mod second < 10 ^ 9" by simp_all
  have dim: "days_in m y \<le> 31" using civil by (auto simp: days_in_def month_lengths_def nth_Cons split: nat.split)
  have parts: "0 \<le> n div 3600" "n div 3600 \<le> 23" "0 \<le> n div 60 mod 60" "n div 60 mod 60 \<le> 59" "0 \<le> n mod 60" "n mod 60 \<le> 59"
    using n by linarith+
  have split: "n div 3600 * 3600 + n div 60 mod 60 * 60 + n mod 60 = n"
  proof -
    have "n div 3600 = n div 60 div 60" using zdiv_zmult2_eq [of 60 n 60] by simp
    moreover have "a * 60 + b = c \<Longrightarrow> c * 60 + e = f \<Longrightarrow> a * 3600 + b * 60 + e = f" for a b c e f :: int by simp
    ultimately show ?thesis using div_mult_mod_eq [of "n div 60" 60] div_mult_mod_eq [of n 60] by metis
  qed
  have gen: "a + b * second = D * day_nanos + r' \<Longrightarrow> r' = n' * second + f \<Longrightarrow> a = (D * 86400 + n' - b) * second + f" for a b D r' n' f
    by (simp add: day_nanos_def algebra_simps)
  have "tm_nano t + tm_offset t * second = l div day_nanos * day_nanos + r" unfolding r_def l_def by (rule div_mult_mod_eq [symmetric])
  moreover have "r = n * second + r mod second" unfolding n_def by (rule div_mult_mod_eq [symmetric])
  ultimately have nano: "tm_nano t = ((l div day_nanos) * 86400 + n - tm_offset t) * second + r mod second" by (rule gen)
  note z = zone_read [OF assms(2) off]
  have "hd (zone_text (tm_offset t)) \<in> {CHR ''Z'', CHR ''+'', CHR ''-''} \<Longrightarrow> \<not> is_digit (hd (zone_text (tm_offset t))) \<and>
     hd (zone_text (tm_offset t)) \<noteq> CHR ''.'' \<and> hd (zone_text (tm_offset t)) \<noteq> CHR '',''" by (auto simp: is_digit_def)
  with z(2) have fr: "take_fraction (fraction_text (r mod second) @ zone_text (tm_offset t)) = (r mod second, zone_text (tm_offset t))"
    by (intro fraction_read frac) blast
  have lt: "m < 100" "0 \<le> m" "d < 100" "0 \<le> d" "n div 3600 < 100" "n div 60 mod 60 < 100" "n mod 60 < 100" using civil dim parts by simp_all
  have "parse_time s = (if [] \<noteq> ([]::string) \<or> m < 1 \<or> m > 12 \<or> d < 1 \<or> d > days_in m y \<or> n div 3600 > 23 \<or> n div 60 mod 60 > 59 \<or> n mod 60 > 59 then None
      else Some \<lparr>tm_nano = ((day_of_civil y m d - epoch_day) * 86400 + n div 3600 * 3600 + n div 60 mod 60 * 60 + n mod 60 - tm_offset t) * second + r mod second,
                 tm_offset = tm_offset t\<rparr>)"
    unfolding s parse_time_def
    by (simp only: take_digits_digits [OF y] bind.bind_lunit prod.case expect.simps if_True simp_thms
      take_two [OF lt(2,1)] take_two [OF lt(4,3)] take_hour_digits [OF parts(1) lt(5)] take_two [OF parts(3) lt(6)] take_two [OF parts(5) lt(7)] fr z(1))
  also have "\<dots> = Some \<lparr>tm_nano = ((l div day_nanos) * 86400 + n - tm_offset t) * second + r mod second, tm_offset = tm_offset t\<rparr>"
    using civil parts(2,4,6) by (simp add: add.assoc split [unfolded add.assoc])
  finally show ?thesis unfolding nano [symmetric] by simp
qed


section \<open>In JSON\<close>

definition time_text :: "go_time \<Rightarrow> bytes option" where
  "time_text t = map_option (\<lambda>s. CHR 0x22 # s @ [CHR 0x22]) (format_time t)"

text \<open>\<^verbatim>\<open>UnmarshalJSON\<close> reads what is between the quotes as it is, and leaves the zero time when that is no time.\<close>

definition store_time :: "bytes \<Rightarrow> go_time \<Rightarrow> bool \<times> go_time" where
  "store_time v old =
    (if v = ''null'' then (True, old)
     else if length v < 2 \<or> hd v \<noteq> CHR 0x22 \<or> last v \<noteq> CHR 0x22 then (False, old)
     else (case parse_time (butlast (tl v)) of None \<Rightarrow> (False, zero_time) | Some t \<Rightarrow> (True, t)))"

text \<open>A time that is written and read back: its year has four digits and its zone is one of whole minutes.\<close>

definition time_ok :: "go_time \<Rightarrow> bool" where
  "time_ok t \<longleftrightarrow> format_time t \<noteq> None \<and> tm_offset t mod 60 = 0"

definition json_plain :: "char \<Rightarrow> bool" where
  "json_plain c \<longleftrightarrow> c \<noteq> CHR 0x22 \<and> c \<noteq> CHR 0x5C \<and> \<not> byte c < 0x20"

lemma scan_string_plain: "list_all json_plain s \<Longrightarrow> scan_string (s @ CHR 0x22 # r) = Some r"
  by (induction s) (simp_all add: json_plain_def)

lemma value_text_plain: "list_all json_plain s \<Longrightarrow> value_text d (CHR 0x22 # s @ [CHR 0x22])"
  by (simp add: value_text_def json_space_def scan_value.simps scan_string_plain)

lemma digits_json: "list_all json_plain (digits k n)" "list_all json_plain (trim_zeros (digits k n))"
proof -
  have d: "is_digit c \<Longrightarrow> json_plain c" for c by (auto simp: is_digit_def json_plain_def)
  show "list_all json_plain (digits k n)" using digits_are(1) [of k n] d by (auto simp: list_all_iff)
  then show "list_all json_plain (trim_zeros (digits k n))"
    by (auto simp: trim_zeros_def list_all_iff dest: set_dropWhileD)
qed

lemma format_time_plain:
  assumes "format_time t = Some s"
  shows "list_all json_plain s"
proof -
  have c: "json_plain CHR ''-''" "json_plain CHR ''T''" "json_plain CHR '':''" "json_plain CHR ''Z''" "json_plain CHR ''+''" "json_plain CHR ''.''"
    by (simp_all add: json_plain_def)
  have z: "list_all json_plain (zone_text o')" "list_all json_plain (fraction_text n)" for o' n
    using c digits_json by (simp_all add: zone_text_def fraction_text_def Let_def del: digits.simps)
  show ?thesis using assms c z digits_json
    by (auto simp: format_time_def Let_def simp del: digits.simps split: prod.split_asm if_split_asm)
qed

lemma store_time_text:
  assumes "time_ok t"
  obtains v where "time_text t = Some v" "value_text d v" "store_time v old = (True, t)"
proof -
  obtain s where s: "format_time t = Some s" using assms by (auto simp: time_ok_def)
  then have "parse_time s = Some t" using assms parse_format_time by (simp add: time_ok_def)
  with s show ?thesis using that [of "CHR 0x22 # s @ [CHR 0x22]"] value_text_plain [OF format_time_plain [OF s]]
    by (simp add: time_text_def store_time_def butlast_append)
qed

end
