(* ===== verification/Vault_Record.thy ===== *)
theory Vault_Record
  imports Go_Time
begin

text \<open>
  The records of \<^verbatim>\<open>internal/vault/vault.go\<close> and their JSON. Both carry the flag for Herdr a second time
  under its former name, \<^verbatim>\<open>useTmux\<close>, and reading takes the disjunction of the two.
\<close>

section \<open>Data\<close>

record credential =
  cd_id :: string
  cd_name :: string
  cd_host :: string
  cd_port :: int
  cd_username :: string
  cd_private_key :: string
  cd_passphrase :: string
  cd_term :: string
  cd_use_herdr :: bool
  cd_created_at :: go_time
  cd_updated_at :: go_time

record summary =
  sm_id :: string
  sm_owner :: string
  sm_name :: string
  sm_host :: string
  sm_port :: int
  sm_username :: string
  sm_term :: string
  sm_use_herdr :: bool
  sm_has_private_key :: bool
  sm_has_passphrase :: bool
  sm_updated_at :: go_time

definition new_credential :: credential where
  "new_credential =
    \<lparr>cd_id = [], cd_name = [], cd_host = [], cd_port = 0, cd_username = [], cd_private_key = [], cd_passphrase = [],
     cd_term = [], cd_use_herdr = False, cd_created_at = zero_time, cd_updated_at = zero_time\<rparr>"

definition new_summary :: summary where
  "new_summary =
    \<lparr>sm_id = [], sm_owner = [], sm_name = [], sm_host = [], sm_port = 0, sm_username = [], sm_term = [], sm_use_herdr = False,
     sm_has_private_key = False, sm_has_passphrase = False, sm_updated_at = zero_time\<rparr>"

section \<open>Writing and reading\<close>

text \<open>The second component of what is read is the former flag.\<close>

definition part :: "(bytes \<Rightarrow> 'b \<Rightarrow> bool \<times> 'b) \<Rightarrow> ('a \<Rightarrow> 'b) \<Rightarrow> ('b \<Rightarrow> 'a \<Rightarrow> 'a) \<Rightarrow> bytes \<Rightarrow> 'a \<times> bool \<Rightarrow> bool \<times> 'a \<times> bool" where
  "part store get put = field store (get \<circ> fst) (\<lambda>v. apfst (put v))"

definition credential_fields :: "(credential \<times> bool) json_fields" where
  "credential_fields =
    [(''id'', part store_string cd_id (\<lambda>v. cd_id_update (\<lambda>_. v))),
     (''name'', part store_string cd_name (\<lambda>v. cd_name_update (\<lambda>_. v))),
     (''host'', part store_string cd_host (\<lambda>v. cd_host_update (\<lambda>_. v))),
     (''port'', part store_int cd_port (\<lambda>v. cd_port_update (\<lambda>_. v))),
     (''username'', part store_string cd_username (\<lambda>v. cd_username_update (\<lambda>_. v))),
     (''privateKey'', part store_string cd_private_key (\<lambda>v. cd_private_key_update (\<lambda>_. v))),
     (''passphrase'', part store_string cd_passphrase (\<lambda>v. cd_passphrase_update (\<lambda>_. v))),
     (''term'', part store_string cd_term (\<lambda>v. cd_term_update (\<lambda>_. v))),
     (''useHerdr'', part store_bool cd_use_herdr (\<lambda>v. cd_use_herdr_update (\<lambda>_. v))),
     (''createdAt'', part store_time cd_created_at (\<lambda>v. cd_created_at_update (\<lambda>_. v))),
     (''updatedAt'', part store_time cd_updated_at (\<lambda>v. cd_updated_at_update (\<lambda>_. v))),
     (''useTmux'', field store_bool snd (\<lambda>v. apsnd (\<lambda>_. v)))]"

definition credential_members :: "credential \<Rightarrow> bytes \<Rightarrow> bytes \<Rightarrow> (string \<times> bytes) list" where
  "credential_members c created updated =
    [(''id'', json_quote (cd_id c)), (''name'', json_quote (cd_name c)), (''host'', json_quote (cd_host c)),
     (''port'', itoa (cd_port c)), (''username'', json_quote (cd_username c)), (''privateKey'', json_quote (cd_private_key c))] @
    omit_empty ''passphrase'' (cd_passphrase c) @
    [(''term'', json_quote (cd_term c)), (''useHerdr'', bool_text (cd_use_herdr c)), (''createdAt'', created), (''updatedAt'', updated),
     (''useTmux'', bool_text (cd_use_herdr c))]"

text \<open>An error only for a time that has no text.\<close>

definition credential_marshal :: "credential \<Rightarrow> bytes option" where
  "credential_marshal c =
    (case (time_text (cd_created_at c), time_text (cd_updated_at c)) of
       (Some created, Some updated) \<Rightarrow> Some (object_text (credential_members c created updated))
     | _ \<Rightarrow> None)"

definition credential_unmarshal :: "bytes \<Rightarrow> credential option" where
  "credential_unmarshal data =
    map_option (\<lambda>(c, legacy). c\<lparr>cd_use_herdr := cd_use_herdr c \<or> legacy\<rparr>)
      (if_fits (json_unmarshal (store_struct credential_fields) data (new_credential, False)))"

definition summary_fields :: "(summary \<times> bool) json_fields" where
  "summary_fields =
    [(''id'', part store_string sm_id (\<lambda>v. sm_id_update (\<lambda>_. v))),
     (''owner'', part store_string sm_owner (\<lambda>v. sm_owner_update (\<lambda>_. v))),
     (''name'', part store_string sm_name (\<lambda>v. sm_name_update (\<lambda>_. v))),
     (''host'', part store_string sm_host (\<lambda>v. sm_host_update (\<lambda>_. v))),
     (''port'', part store_int sm_port (\<lambda>v. sm_port_update (\<lambda>_. v))),
     (''username'', part store_string sm_username (\<lambda>v. sm_username_update (\<lambda>_. v))),
     (''term'', part store_string sm_term (\<lambda>v. sm_term_update (\<lambda>_. v))),
     (''useHerdr'', part store_bool sm_use_herdr (\<lambda>v. sm_use_herdr_update (\<lambda>_. v))),
     (''hasPrivateKey'', part store_bool sm_has_private_key (\<lambda>v. sm_has_private_key_update (\<lambda>_. v))),
     (''hasPassphrase'', part store_bool sm_has_passphrase (\<lambda>v. sm_has_passphrase_update (\<lambda>_. v))),
     (''updatedAt'', part store_time sm_updated_at (\<lambda>v. sm_updated_at_update (\<lambda>_. v))),
     (''useTmux'', field store_bool snd (\<lambda>v. apsnd (\<lambda>_. v)))]"

definition summary_members :: "summary \<Rightarrow> bytes \<Rightarrow> (string \<times> bytes) list" where
  "summary_members s updated =
    [(''id'', json_quote (sm_id s)), (''owner'', json_quote (sm_owner s)), (''name'', json_quote (sm_name s)),
     (''host'', json_quote (sm_host s)), (''port'', itoa (sm_port s)), (''username'', json_quote (sm_username s)),
     (''term'', json_quote (sm_term s)), (''useHerdr'', bool_text (sm_use_herdr s)),
     (''hasPrivateKey'', bool_text (sm_has_private_key s)), (''hasPassphrase'', bool_text (sm_has_passphrase s)),
     (''updatedAt'', updated), (''useTmux'', bool_text (sm_use_herdr s))]"

definition summary_marshal :: "summary \<Rightarrow> bytes option" where
  "summary_marshal s = map_option (\<lambda>updated. object_text (summary_members s updated)) (time_text (sm_updated_at s))"

definition summary_unmarshal :: "bytes \<Rightarrow> summary option" where
  "summary_unmarshal data =
    map_option (\<lambda>(s, legacy). s\<lparr>sm_use_herdr := sm_use_herdr s \<or> legacy\<rparr>)
      (if_fits (json_unmarshal (store_struct summary_fields) data (new_summary, False)))"

section \<open>What is written is read\<close>

text \<open>Go strings of a record should be UTF-8 (other bytes are replaced), its port an \<^verbatim>\<open>int\<close>, its times of the years up to 9999.\<close>

definition cred_storable :: "credential \<Rightarrow> bool" where
  "cred_storable c \<longleftrightarrow>
     list_all utf8_valid [cd_id c, cd_name c, cd_host c, cd_username c, cd_private_key c, cd_passphrase c, cd_term c] \<and>
     int64 (cd_port c) \<and> time_ok (cd_created_at c) \<and> time_ok (cd_updated_at c)"

definition sum_storable :: "summary \<Rightarrow> bool" where
  "sum_storable s \<longleftrightarrow> list_all utf8_valid [sm_id s, sm_owner s, sm_name s, sm_host s, sm_username s, sm_term s] \<and>
     int64 (sm_port s) \<and> time_ok (sm_updated_at s)"

lemma unmarshal_members:
  "list_all (\<lambda>(_, v). value_text (max_nesting - 1) v) ms \<Longrightarrow>
   json_unmarshal (store_struct fs) (object_text ms) x = store_members fs (map (\<lambda>(name, v). (json_quote name, v)) ms) x"
  using unmarshal_object [of ms "[]" fs x] by simp

lemma credential_codec:
  assumes "cred_storable c" "credential_marshal c = Some b"
  shows "credential_unmarshal b = Some c"
proof -
  have ok: "int64 (cd_port c)" "time_ok (cd_created_at c)" "time_ok (cd_updated_at c)"
    "list_all utf8_valid [cd_id c, cd_name c, cd_host c, cd_username c, cd_private_key c, cd_passphrase c, cd_term c]"
    using assms(1) by (simp_all add: cred_storable_def)
  obtain t1 where t1: "time_text (cd_created_at c) = Some t1" "value_text (max_nesting - 1) t1" "store_time t1 zero_time = (True, cd_created_at c)"
    by (rule store_time_text [OF ok(2)])
  obtain t2 where t2: "time_text (cd_updated_at c) = Some t2" "value_text (max_nesting - 1) t2" "store_time t2 zero_time = (True, cd_updated_at c)"
    by (rule store_time_text [OF ok(3)])
  have b: "b = object_text (credential_members c t1 t2)" using assms(2) t1(1) t2(1) by (simp add: credential_marshal_def)
  have "list_all (\<lambda>(_, v). value_text (max_nesting - 1) v) (credential_members c t1 t2)"
    using t1(2) t2(2) by (simp add: credential_members_def omit_empty_def)
  note read = unmarshal_members [OF this]
  show ?thesis unfolding b credential_unmarshal_def read
    using ok(1,4) t1(3) t2(3)
    by (cases "cd_passphrase c = []"; cases c)
      (simp_all add: credential_members_def omit_empty_def credential_fields_def part_def field_simps_json int64_def utf8_valid_replace new_credential_def)
qed

lemma summary_codec:
  assumes "sum_storable s" "summary_marshal s = Some b"
  shows "summary_unmarshal b = Some s"
proof -
  have ok: "int64 (sm_port s)" "time_ok (sm_updated_at s)"
    "list_all utf8_valid [sm_id s, sm_owner s, sm_name s, sm_host s, sm_username s, sm_term s]"
    using assms(1) by (simp_all add: sum_storable_def)
  obtain t where t: "time_text (sm_updated_at s) = Some t" "value_text (max_nesting - 1) t" "store_time t zero_time = (True, sm_updated_at s)"
    by (rule store_time_text [OF ok(2)])
  have b: "b = object_text (summary_members s t)" using assms(2) t(1) by (simp add: summary_marshal_def)
  have "list_all (\<lambda>(_, v). value_text (max_nesting - 1) v) (summary_members s t)"
    using t(2) by (simp add: summary_members_def)
  note read = unmarshal_members [OF this]
  show ?thesis unfolding b summary_unmarshal_def read
    using ok(1,3) t(3)
    by (cases s) (simp_all add: summary_members_def summary_fields_def part_def field_simps_json int64_def utf8_valid_replace new_summary_def)
qed

end
