(* ===== verification/Vault.thy ===== *)
theory Vault
  imports Go_Crypto Keyed_Store Vault_Record "HOL-Library.AList" "HOL-Library.Char_ord" "HOL-Library.List_Lexorder" "HOL-Library.Multiset"
begin

text \<open>
  \<^verbatim>\<open>internal/vault/vault.go\<close>: the encrypted credential store. The key-value database (bbolt) is not
  part of the repository; its operations are the fields of \<open>bolt\<close>, over an arbitrary type of
  database states, and what the code relies on is \<open>bolt_laws\<close>. The primitives
  and \<^verbatim>\<open>sort.Slice\<close> come in the same way, collected in \<open>vault_env\<close>. A Go map that is iterated over is an association list with distinct keys.
\<close>

section \<open>Data\<close>

datatype vault_error =
    ErrBegin | ErrCommit | ErrBucket | ErrPut | ErrDelete
  | ErrMarshal | ErrUnmarshal | ErrCipher | ErrRand | ErrShort | ErrAuthTag | ErrLegacy
  | ErrNotExist | ErrUndecryptable | ErrOwnerRequired | ErrIdRequired | ErrPasswordRequired
  | ErrOpen | ErrChmod | ErrKeyFormat | ErrKeySymlink | ErrKeyRead | ErrKeyInspect | ErrKeyMissing
  | ErrKeyCreate | ErrKeyMismatch

record 'db bolt =
  bk_begin :: "'db \<Rightarrow> bool"
  bk_commit :: "'db \<Rightarrow> bool"
  bk_bucket :: "'db \<Rightarrow> bytes \<Rightarrow> 'db option"
  bk_get :: "'db \<Rightarrow> bytes \<Rightarrow> bytes \<Rightarrow> bytes option"
  bk_put :: "'db \<Rightarrow> bytes \<Rightarrow> bytes \<Rightarrow> bytes \<Rightarrow> 'db option"
  bk_delete :: "'db \<Rightarrow> bytes \<Rightarrow> bytes \<Rightarrow> 'db option"
  bk_entries :: "'db \<Rightarrow> bytes \<Rightarrow> (bytes \<times> bytes) list"
  bk_close :: "'db \<Rightarrow> 'db"

record 'db vault_env =
  ve_crypto :: crypto
  ve_bolt :: "'db bolt"
  ve_sort_cred :: "credential list \<Rightarrow> credential list"
  ve_sort_sum :: "summary list \<Rightarrow> summary list"

record 'db vault =
  vs_db :: 'db
  vs_salt :: bytes
  vs_master_key :: bytes

definition meta_bucket :: bytes where "meta_bucket = ''meta''"

definition credential_bucket :: bytes where "credential_bucket = ''credentials''"

definition summary_bucket :: bytes where "summary_bucket = ''credential_summaries''"

definition salt_key :: bytes where "salt_key = ''vault_salt''"

definition fingerprint_key :: bytes where "fingerprint_key = ''master_key_fingerprint''"

definition v2_prefix :: bytes where "v2_prefix = ''GWS2''"

section \<open>The database, and what is relied on of it\<close>

text \<open>
  A transaction works on its own view of the database, and \<^verbatim>\<open>Update\<close> keeps it only if the function
  succeeds and the commit does.
\<close>

definition bolt_update ::
  "'db bolt \<Rightarrow> 'db \<Rightarrow> ('db \<Rightarrow> vault_error + 'a \<times> 'db) \<Rightarrow> (vault_error + 'a) \<times> 'db" where
  "bolt_update b db f =
    (if \<not> bk_begin b db then (Inl ErrBegin, db)
     else (case f db of
             Inl e \<Rightarrow> (Inl e, db)
           | Inr (x, db') \<Rightarrow> if bk_commit b db' then (Inr x, db') else (Inl ErrCommit, db)))"

definition bolt_view :: "'db bolt \<Rightarrow> 'db \<Rightarrow> ('db \<Rightarrow> vault_error + 'a) \<Rightarrow> vault_error + 'a" where
  "bolt_view b db f = (if bk_begin b db then f db else Inl ErrBegin)"

definition bolt_laws :: "'db bolt \<Rightarrow> bool" where
  "bolt_laws b \<longleftrightarrow>
     (\<forall>db n db'. bk_bucket b db n = Some db' \<longrightarrow> bk_begin b db' = bk_begin b db)
     \<and> (\<forall>db n k v db'. bk_put b db n k v = Some db' \<longrightarrow> bk_begin b db' = bk_begin b db)
     \<and> (\<forall>db n k db'. bk_delete b db n k = Some db' \<longrightarrow> bk_begin b db' = bk_begin b db)
     \<and> (\<forall>db. \<not> bk_begin b (bk_close b db))
     \<and> (\<forall>db n db' m k. bk_bucket b db n = Some db' \<longrightarrow> bk_get b db' m k = bk_get b db m k)
     \<and> (\<forall>db n k v db' m k'. bk_put b db n k v = Some db' \<longrightarrow>
          bk_get b db' m k' = (if m = n \<and> k' = k then Some v else bk_get b db m k'))
     \<and> (\<forall>db n k db' m k'. bk_delete b db n k = Some db' \<longrightarrow>
          bk_get b db' m k' = (if m = n \<and> k' = k then None else bk_get b db m k'))
     \<and> (\<forall>db n. distinct (map fst (bk_entries b db n)))
     \<and> (\<forall>db n k. map_of (bk_entries b db n) k = bk_get b db n k)"

definition sorts_by :: "('a \<Rightarrow> 'k::linorder) \<Rightarrow> ('a list \<Rightarrow> 'a list) \<Rightarrow> bool" where
  "sorts_by key f \<longleftrightarrow> (\<forall>xs. mset (f xs) = mset xs \<and> sorted (map key (f xs)))"

text \<open>\<^verbatim>\<open>rand.Read\<close> into a buffer of \<open>n\<close> bytes; \<open>None\<close> is its error.\<close>

definition rand_read :: "nat \<Rightarrow> bytes option \<Rightarrow> bytes option" where
  "rand_read n rnd = map_option (\<lambda>b. take n (b @ replicate n (CHR 0x00))) rnd"

section \<open>Sealing\<close>

definition encrypt :: "crypto \<Rightarrow> bytes \<Rightarrow> bytes \<Rightarrow> bytes \<Rightarrow> bytes option \<Rightarrow> vault_error + bytes" where
  "encrypt c key plaintext aad rnd =
    (if \<not> aes_key_ok key then Inl ErrCipher
     else (case rand_read nonce_size rnd of
             None \<Rightarrow> Inl ErrRand
           | Some nonce \<Rightarrow> Inr (nonce @ gcm_seal c key nonce plaintext aad)))"

definition decrypt :: "crypto \<Rightarrow> bytes \<Rightarrow> bytes \<Rightarrow> bytes \<Rightarrow> vault_error + bytes" where
  "decrypt c key sealed aad =
    (if \<not> aes_key_ok key then Inl ErrCipher
     else if length sealed < nonce_size then Inl ErrShort
     else of_option ErrAuthTag (gcm_open c key (take nonce_size sealed) (drop nonce_size sealed) aad))"

definition is_v2 :: "bytes \<Rightarrow> bool" where
  "is_v2 sealed \<longleftrightarrow> length v2_prefix < length sealed \<and> take (length v2_prefix) sealed = v2_prefix"

definition encrypt_v2 :: "crypto \<Rightarrow> bytes \<Rightarrow> bytes \<Rightarrow> bytes \<Rightarrow> bytes option \<Rightarrow> vault_error + bytes" where
  "encrypt_v2 c key plaintext aad rnd =
    bind_result (encrypt c key plaintext aad rnd) (\<lambda>sealed. Inr (v2_prefix @ sealed))"

definition decrypt_record :: "'db vault_env \<Rightarrow> 'db vault \<Rightarrow> bytes \<Rightarrow> bytes \<Rightarrow> vault_error + bytes" where
  "decrypt_record e s sealed aad =
    (if \<not> is_v2 sealed then Inl ErrLegacy
     else decrypt (ve_crypto e) (vs_master_key s) (drop (length v2_prefix) sealed) aad)"

section \<open>The operations of an open store\<close>

definition credential_summary :: "credential \<Rightarrow> string \<Rightarrow> summary" where
  "credential_summary c owner =
    \<lparr>sm_id = cd_id c, sm_owner = owner, sm_name = cd_name c, sm_host = cd_host c, sm_port = cd_port c,
     sm_username = cd_username c, sm_term = cd_term c, sm_use_herdr = cd_use_herdr c,
     sm_has_private_key = (cd_private_key c \<noteq> []), sm_has_passphrase = (cd_passphrase c \<noteq> []),
     sm_updated_at = cd_updated_at c\<rparr>"

definition open_record :: "'db vault_env \<Rightarrow> 'db vault \<Rightarrow> bytes \<Rightarrow> bytes \<Rightarrow> credential option" where
  "open_record e s k sealed =
    (case decrypt_record e s sealed k of
       Inl _ \<Rightarrow> None
     | Inr plaintext \<Rightarrow> credential_unmarshal plaintext)"

definition vault_get :: "'db vault_env \<Rightarrow> 'db vault \<Rightarrow> string \<Rightarrow> vault_error + credential" where
  "vault_get e s k = bolt_view (ve_bolt e) (vs_db s) (\<lambda>tx.
     case bk_get (ve_bolt e) tx credential_bucket k of
       None \<Rightarrow> Inl ErrNotExist
     | Some sealed \<Rightarrow>
         (case decrypt_record e s sealed k of
            Inl _ \<Rightarrow> Inl ErrUndecryptable
          | Inr plaintext \<Rightarrow> of_option ErrUnmarshal (credential_unmarshal plaintext)))"

definition random_id :: "bytes option \<Rightarrow> string" where
  "random_id rnd = b64_encode (case rand_read 16 rnd of Some b \<Rightarrow> b | None \<Rightarrow> replicate 16 (CHR 0x00))"

text \<open>The fields \<^verbatim>\<open>PutForUser\<close> fills in before it stores the credential.\<close>

definition stamp :: "'db vault_env \<Rightarrow> 'db vault \<Rightarrow> credential \<Rightarrow> int \<Rightarrow> bytes option \<Rightarrow> credential" where
  "stamp e s c now rnd =
    (let c1 = (if cd_id c = [] then c\<lparr>cd_id := random_id rnd, cd_created_at := utc now\<rparr>
               else if is_zero_time (cd_created_at c) then
                 (case vault_get e s (cd_id c) of
                    Inr existing \<Rightarrow> c\<lparr>cd_created_at := cd_created_at existing\<rparr>
                  | Inl _ \<Rightarrow> c)
               else c);
         c2 = c1\<lparr>cd_updated_at := utc now\<rparr>;
         c3 = (if cd_port c2 = 0 then c2\<lparr>cd_port := 22\<rparr> else c2)
     in if cd_term c3 = [] then c3\<lparr>cd_term := ''xterm-256color''\<rparr> else c3)"

definition write_credential ::
  "'db vault_env \<Rightarrow> string \<Rightarrow> credential \<Rightarrow> bytes \<Rightarrow> 'db \<Rightarrow> vault_error + unit \<times> 'db" where
  "write_credential e owner c sealed tx =
    bind_result (of_option ErrPut (bk_put (ve_bolt e) tx credential_bucket (cd_id c) sealed)) (\<lambda>tx1.
    if owner = [] then Inr ((), tx1)
    else bind_result (of_option ErrMarshal (summary_marshal (credential_summary c owner))) (\<lambda>raw.
         bind_result (of_option ErrPut (bk_put (ve_bolt e) tx1 summary_bucket (cd_id c) raw)) (\<lambda>tx2.
         Inr ((), tx2))))"

definition store_credential ::
  "'db vault_env \<Rightarrow> 'db vault \<Rightarrow> string \<Rightarrow> credential \<Rightarrow> bytes option \<Rightarrow> (vault_error + credential) \<times> 'db vault" where
  "store_credential e s owner c rnd =
    (case bind_result (of_option ErrMarshal (credential_marshal c)) (\<lambda>plaintext.
            encrypt_v2 (ve_crypto e) (vs_master_key s) plaintext (cd_id c) rnd) of
       Inl err \<Rightarrow> (Inl err, s)
     | Inr sealed \<Rightarrow>
         (case bolt_update (ve_bolt e) (vs_db s) (write_credential e owner c sealed) of
            (Inl err, db) \<Rightarrow> (Inl err, s\<lparr>vs_db := db\<rparr>)
          | (Inr _, db) \<Rightarrow> (Inr c, s\<lparr>vs_db := db\<rparr>)))"

definition put_for_user ::
  "'db vault_env \<Rightarrow> 'db vault \<Rightarrow> string \<Rightarrow> credential \<Rightarrow> int \<Rightarrow> bytes option \<Rightarrow> bytes option \<Rightarrow>
   (vault_error + credential) \<times> 'db vault" where
  "put_for_user e s owner c now rnd_id rnd_nonce =
    store_credential e s owner (stamp e s c now rnd_id) rnd_nonce"

definition vault_put ::
  "'db vault_env \<Rightarrow> 'db vault \<Rightarrow> credential \<Rightarrow> int \<Rightarrow> bytes option \<Rightarrow> bytes option \<Rightarrow>
   (vault_error + credential) \<times> 'db vault" where
  "vault_put e s c now rnd_id rnd_nonce = put_for_user e s [] c now rnd_id rnd_nonce"

fun scan_available ::
  "'db vault_env \<Rightarrow> 'db vault \<Rightarrow> (bytes \<times> bytes) list \<Rightarrow> credential list \<times> int \<Rightarrow> credential list \<times> int" where
  "scan_available e s [] acc = acc"
| "scan_available e s ((k, sealed) # rest) (result, skipped) =
     scan_available e s rest
       (case open_record e s k sealed of
          None \<Rightarrow> (result, skipped + 1)
        | Some c \<Rightarrow> (result @ [c], skipped))"

definition list_available :: "'db vault_env \<Rightarrow> 'db vault \<Rightarrow> vault_error + credential list \<times> int" where
  "list_available e s = bolt_view (ve_bolt e) (vs_db s) (\<lambda>tx.
     case scan_available e s (bk_entries (ve_bolt e) tx credential_bucket) ([], 0) of
       (result, skipped) \<Rightarrow> Inr (ve_sort_cred e result, skipped))"

definition vault_list :: "'db vault_env \<Rightarrow> 'db vault \<Rightarrow> vault_error + credential list" where
  "vault_list e s =
    bind_result (list_available e s) (\<lambda>(result, skipped).
      if skipped > 0 then Inl ErrUndecryptable else Inr result)"

fun scan_summaries ::
  "'db vault_env \<Rightarrow> string \<Rightarrow> (bytes \<times> bytes) list \<Rightarrow> (string \<times> summary) list \<times> string list \<Rightarrow>
   (string \<times> summary) list \<times> string list" where
  "scan_summaries e owner [] acc = acc"
| "scan_summaries e owner ((k, raw) # rest) (summaries, known) =
     scan_summaries e owner rest
       (case summary_unmarshal raw of
          None \<Rightarrow> (summaries, known)
        | Some sm \<Rightarrow>
            (if sm_owner sm = owner then AList.update k sm summaries else summaries, k # known))"

fun scan_unsummarised ::
  "'db vault_env \<Rightarrow> 'db vault \<Rightarrow> string \<Rightarrow> string list \<Rightarrow> (bytes \<times> bytes) list \<Rightarrow>
   (string \<times> summary) list \<times> summary list \<times> int \<Rightarrow> (string \<times> summary) list \<times> summary list \<times> int" where
  "scan_unsummarised e s owner known [] acc = acc"
| "scan_unsummarised e s owner known ((k, sealed) # rest) (summaries, backfill, legacy) =
     (let legacy' = (if is_v2 sealed then legacy else legacy + 1) in
      scan_unsummarised e s owner known rest
        (if k \<in> set known then (summaries, backfill, legacy')
         else (case open_record e s k sealed of
                 None \<Rightarrow> (summaries, backfill, legacy')
               | Some c \<Rightarrow>
                   let sm = credential_summary c owner in
                   (AList.update (cd_id c) sm summaries, backfill @ [sm], legacy'))))"

fun write_summaries :: "'db vault_env \<Rightarrow> summary list \<Rightarrow> 'db \<Rightarrow> vault_error + unit \<times> 'db" where
  "write_summaries e [] tx = Inr ((), tx)"
| "write_summaries e (sm # sms) tx =
     bind_result (of_option ErrMarshal (summary_marshal sm)) (\<lambda>raw.
     bind_result (of_option ErrPut (bk_put (ve_bolt e) tx summary_bucket (sm_id sm) raw)) (\<lambda>tx'.
     write_summaries e sms tx'))"

definition list_summaries ::
  "'db vault_env \<Rightarrow> 'db vault \<Rightarrow> string \<Rightarrow> (vault_error + summary list \<times> int) \<times> 'db vault" where
  "list_summaries e s owner =
    (if owner = [] then (Inl ErrOwnerRequired, s)
     else
       (case bind_result (bolt_view (ve_bolt e) (vs_db s) (\<lambda>tx.
                Inr (scan_summaries e owner (bk_entries (ve_bolt e) tx summary_bucket) ([], []))))
              (\<lambda>(summaries, known). bolt_view (ve_bolt e) (vs_db s) (\<lambda>tx.
                Inr (scan_unsummarised e s owner known (bk_entries (ve_bolt e) tx credential_bucket)
                       (summaries, [], 0)))) of
          Inl err \<Rightarrow> (Inl err, s)
        | Inr (summaries, backfill, legacy) \<Rightarrow>
            (let result = Inr (ve_sort_sum e (map snd summaries), legacy) in
             if backfill = [] then (result, s)
             else (case bolt_update (ve_bolt e) (vs_db s) (write_summaries e backfill) of
                     (Inl err, db) \<Rightarrow> (Inl err, s\<lparr>vs_db := db\<rparr>)
                   | (Inr _, db) \<Rightarrow> (result, s\<lparr>vs_db := db\<rparr>)))))"

definition remove_credential :: "'db vault_env \<Rightarrow> string \<Rightarrow> 'db \<Rightarrow> vault_error + unit \<times> 'db" where
  "remove_credential e k tx =
    bind_result (of_option ErrDelete (bk_delete (ve_bolt e) tx credential_bucket k)) (\<lambda>tx1.
    bind_result (of_option ErrDelete (bk_delete (ve_bolt e) tx1 summary_bucket k)) (\<lambda>tx2.
    Inr ((), tx2)))"

definition vault_delete :: "'db vault_env \<Rightarrow> 'db vault \<Rightarrow> string \<Rightarrow> (vault_error + unit) \<times> 'db vault" where
  "vault_delete e s k =
    (if k = [] then (Inl ErrIdRequired, s)
     else (case bolt_update (ve_bolt e) (vs_db s) (remove_credential e k) of
             (r, db) \<Rightarrow> (r, s\<lparr>vs_db := db\<rparr>)))"

text \<open>
  \<^verbatim>\<open>MigrateLegacyFromPassword\<close> returns two counts and an error. \<open>rnd k\<close> is the random read made for
  the record \<open>k\<close>.
\<close>

definition migrate_record ::
  "'db vault_env \<Rightarrow> 'db vault \<Rightarrow> bytes \<Rightarrow> bytes option \<Rightarrow> bytes \<Rightarrow> bytes \<Rightarrow> vault_error + bytes option" where
  "migrate_record e s legacy_key rnd k sealed =
    (case decrypt (ve_crypto e) legacy_key sealed k of
       Inl _ \<Rightarrow> Inr None
     | Inr plaintext \<Rightarrow>
         (case credential_unmarshal plaintext of
            None \<Rightarrow> Inr None
          | Some _ \<Rightarrow> bind_result (encrypt_v2 (ve_crypto e) (vs_master_key s) plaintext k rnd) (\<lambda>v. Inr (Some v))))"

fun scan_legacy ::
  "'db vault_env \<Rightarrow> 'db vault \<Rightarrow> bytes \<Rightarrow> (bytes \<Rightarrow> bytes option) \<Rightarrow> (bytes \<times> bytes) list \<Rightarrow>
   (bytes \<times> bytes) list \<times> int \<Rightarrow> (bytes \<times> bytes) list \<times> int \<times> vault_error option" where
  "scan_legacy e s legacy_key rnd [] (records, remaining) = (records, remaining, None)"
| "scan_legacy e s legacy_key rnd ((k, sealed) # rest) (records, remaining) =
     (if is_v2 sealed then scan_legacy e s legacy_key rnd rest (records, remaining)
      else (case migrate_record e s legacy_key (rnd k) k sealed of
              Inl err \<Rightarrow> (records, remaining, Some err)
            | Inr None \<Rightarrow> scan_legacy e s legacy_key rnd rest (records, remaining + 1)
            | Inr (Some v) \<Rightarrow> scan_legacy e s legacy_key rnd rest (records @ [(k, v)], remaining)))"

fun write_records :: "'db vault_env \<Rightarrow> (bytes \<times> bytes) list \<Rightarrow> 'db \<Rightarrow> vault_error + unit \<times> 'db" where
  "write_records e [] tx = Inr ((), tx)"
| "write_records e ((k, v) # rest) tx =
     bind_result (of_option ErrPut (bk_put (ve_bolt e) tx credential_bucket k v)) (\<lambda>tx'.
     write_records e rest tx')"

definition migrate_legacy_from_password ::
  "'db vault_env \<Rightarrow> 'db vault \<Rightarrow> bytes \<Rightarrow> (bytes \<Rightarrow> bytes option) \<Rightarrow>
   (int \<times> int \<times> vault_error option) \<times> 'db vault" where
  "migrate_legacy_from_password e s password rnd =
    (if password = [] then ((0, 0, Some ErrPasswordRequired), s)
     else
       let legacy_key = argon2id (ve_crypto e) password (vs_salt s) in
       if \<not> bk_begin (ve_bolt e) (vs_db s) then ((0, 0, Some ErrBegin), s)
       else (case scan_legacy e s legacy_key rnd (bk_entries (ve_bolt e) (vs_db s) credential_bucket) ([], 0) of
               (records, remaining, Some err) \<Rightarrow> ((0, remaining, Some err), s)
             | (records, remaining, None) \<Rightarrow>
                 if records = [] then ((0, remaining, None), s)
                 else (case bolt_update (ve_bolt e) (vs_db s) (write_records e records) of
                         (Inl err, db) \<Rightarrow> ((0, remaining + int (length records), Some err), s\<lparr>vs_db := db\<rparr>)
                       | (Inr _, db) \<Rightarrow> ((int (length records), remaining, None), s\<lparr>vs_db := db\<rparr>))))"

definition count_legacy :: "(bytes \<times> bytes) list \<Rightarrow> int" where
  "count_legacy es = int (length (filter (\<lambda>(k, sealed). \<not> is_v2 sealed) es))"

definition legacy_count :: "'db vault_env \<Rightarrow> 'db vault \<Rightarrow> vault_error + int" where
  "legacy_count e s = bolt_view (ve_bolt e) (vs_db s) (\<lambda>tx.
     Inr (count_legacy (bk_entries (ve_bolt e) tx credential_bucket)))"

definition zero_bytes :: "bytes \<Rightarrow> bytes" where
  "zero_bytes b = map (\<lambda>_. CHR 0x00) b"

definition vault_close :: "'db vault_env \<Rightarrow> 'db vault \<Rightarrow> 'db vault" where
  "vault_close e s =
    \<lparr>vs_db = bk_close (ve_bolt e) (vs_db s), vs_salt = zero_bytes (vs_salt s),
     vs_master_key = zero_bytes (vs_master_key s)\<rparr>"

section \<open>Opening the store\<close>

text \<open>
  \<open>key_env\<close> holds the outcomes of the system calls of one run of \<^verbatim>\<open>Open\<close>; \<open>ke_left\<close> is what a failed
  creation of the key file leaves there (nothing, when \<^verbatim>\<open>os.Remove\<close> succeeds). The files are a map
  from paths to contents.
\<close>

record open_options =
  oo_key_file :: string
  oo_key_hex :: string

record key_env =
  ke_open_ok :: bool
  ke_chmod_db :: bool
  ke_salt_rand :: "bytes option"
  ke_lstat_ok :: bool
  ke_symlink :: bool
  ke_read_ok :: bool
  ke_chmod_key :: bool
  ke_rand :: "bytes option"
  ke_create_ok :: bool
  ke_write_ok :: bool
  ke_sync_ok :: bool
  ke_close_ok :: bool
  ke_left :: "bytes option"

type_synonym files = "string \<Rightarrow> bytes option"

definition decode_master_key :: "string \<Rightarrow> vault_error + bytes" where
  "decode_master_key v =
    (case hex_decode (trim_space v) of
       None \<Rightarrow> Inl ErrKeyFormat
     | Some key \<Rightarrow> if length key = 32 then Inr key else Inl ErrKeyFormat)"

definition create_master_key :: "key_env \<Rightarrow> string \<Rightarrow> files \<Rightarrow> (vault_error + bytes) \<times> files" where
  "create_master_key k path fs =
    (case rand_read 32 (ke_rand k) of
       None \<Rightarrow> (Inl ErrRand, fs)
     | Some key \<Rightarrow>
         if \<not> ke_create_ok k then (Inl ErrKeyCreate, fs)
         else if \<not> (ke_write_ok k \<and> ke_sync_ok k \<and> ke_close_ok k) then (Inl ErrKeyCreate, fs(path := ke_left k))
         else (Inr key, fs(path \<mapsto> hex_encode key @ [CHR 0x0A])))"

definition load_master_key :: "key_env \<Rightarrow> open_options \<Rightarrow> bool \<Rightarrow> files \<Rightarrow> (vault_error + bytes) \<times> files" where
  "load_master_key k opts allow_create fs =
    (if trim_space (oo_key_hex opts) \<noteq> [] then (decode_master_key (oo_key_hex opts), fs)
     else if \<not> ke_lstat_ok k then (Inl ErrKeyInspect, fs)
     else (case fs (oo_key_file opts) of
             Some raw \<Rightarrow>
               if ke_symlink k then (Inl ErrKeySymlink, fs)
               else if \<not> ke_read_ok k then (Inl ErrKeyRead, fs)
               else if \<not> ke_chmod_key k then (Inl ErrChmod, fs)
               else (decode_master_key raw, fs)
           | None \<Rightarrow>
               if \<not> allow_create then (Inl ErrKeyMissing, fs)
               else create_master_key k (oo_key_file opts) fs))"

definition create_buckets :: "'db bolt \<Rightarrow> 'db \<Rightarrow> vault_error + 'db" where
  "create_buckets b tx =
    bind_result (of_option ErrBucket (bk_bucket b tx meta_bucket)) (\<lambda>tx1.
    bind_result (of_option ErrBucket (bk_bucket b tx1 credential_bucket)) (\<lambda>tx2.
    of_option ErrBucket (bk_bucket b tx2 summary_bucket)))"

definition stored_bytes :: "'db bolt \<Rightarrow> 'db \<Rightarrow> bytes \<Rightarrow> bytes \<Rightarrow> bytes" where
  "stored_bytes b tx n k = (case bk_get b tx n k of Some v \<Rightarrow> v | None \<Rightarrow> [])"

definition initialise ::
  "'db bolt \<Rightarrow> bytes option \<Rightarrow> 'db \<Rightarrow> vault_error + (bytes \<times> bytes) \<times> 'db" where
  "initialise b rnd tx =
    bind_result (create_buckets b tx) (\<lambda>tx1.
      let salt = stored_bytes b tx1 meta_bucket salt_key in
      if salt = [] then
        bind_result (of_option ErrRand (rand_read 16 rnd)) (\<lambda>fresh.
        bind_result (of_option ErrPut (bk_put b tx1 meta_bucket salt_key fresh)) (\<lambda>tx2.
        Inr ((fresh, stored_bytes b tx2 meta_bucket fingerprint_key), tx2)))
      else Inr ((salt, stored_bytes b tx1 meta_bucket fingerprint_key), tx1))"

definition effective_options :: "string \<Rightarrow> open_options list \<Rightarrow> open_options" where
  "effective_options path options =
    (case options of
       [] \<Rightarrow> \<lparr>oo_key_file = path @ ''.key'', oo_key_hex = []\<rparr>
     | o1 # _ \<Rightarrow> if trim_space (oo_key_file o1) = [] then o1\<lparr>oo_key_file := path @ ''.key''\<rparr> else o1)"

definition put_fingerprint :: "'db bolt \<Rightarrow> bytes \<Rightarrow> 'db \<Rightarrow> vault_error + unit \<times> 'db" where
  "put_fingerprint b fp tx =
    bind_result (of_option ErrPut (bk_put b tx meta_bucket fingerprint_key fp)) (\<lambda>tx'. Inr ((), tx'))"

definition vault_open ::
  "'db vault_env \<Rightarrow> key_env \<Rightarrow> string \<Rightarrow> open_options list \<Rightarrow> 'db \<Rightarrow> files \<Rightarrow>
   (vault_error + 'db vault) \<times> 'db \<times> files" where
  "vault_open e k path options db fs =
    (let opts = effective_options path options; b = ve_bolt e in
     if \<not> ke_open_ok k then (Inl ErrOpen, db, fs)
     else (case bolt_update b db (initialise b (ke_salt_rand k)) of
       (Inl err, db1) \<Rightarrow> (Inl err, db1, fs)
     | (Inr (salt, stored), db1) \<Rightarrow>
         if \<not> ke_chmod_db k then (Inl ErrChmod, db1, fs)
         else (case load_master_key k opts (stored = []) fs of
           (Inl err, fs1) \<Rightarrow> (Inl err, db1, fs1)
         | (Inr key, fs1) \<Rightarrow>
             let fingerprint = sha256 (ve_crypto e) key in
             if stored \<noteq> [] \<and> stored \<noteq> fingerprint then (Inl ErrKeyMismatch, db1, fs1)
             else if stored = [] then
               (case bolt_update b db1 (put_fingerprint b fingerprint) of
                  (Inl err, db2) \<Rightarrow> (Inl err, db2, fs1)
                | (Inr _, db2) \<Rightarrow> (Inr \<lparr>vs_db = db2, vs_salt = salt, vs_master_key = key\<rparr>, db2, fs1))
             else (Inr \<lparr>vs_db = db1, vs_salt = salt, vs_master_key = key\<rparr>, db1, fs1))))"

section \<open>Lemmas\<close>

lemma bolt_begin:
  assumes "bolt_laws b"
  shows "bk_bucket b db n = Some db' \<Longrightarrow> bk_begin b db' = bk_begin b db"
    and "bk_put b db n k v = Some db' \<Longrightarrow> bk_begin b db' = bk_begin b db"
    and "bk_delete b db n k = Some db' \<Longrightarrow> bk_begin b db' = bk_begin b db"
    and "\<not> bk_begin b (bk_close b db)"
  using assms unfolding bolt_laws_def by (elim conjE; metis)+

lemma bolt_get:
  assumes "bolt_laws b"
  shows "bk_bucket b db n = Some db' \<Longrightarrow> bk_get b db' m k' = bk_get b db m k'"
    and "bk_put b db n k v = Some db' \<Longrightarrow>
           bk_get b db' m k' = (if m = n \<and> k' = k then Some v else bk_get b db m k')"
    and "bk_delete b db n k = Some db' \<Longrightarrow>
           bk_get b db' m k' = (if m = n \<and> k' = k then None else bk_get b db m k')"
  using assms unfolding bolt_laws_def by (elim conjE; metis)+

lemma bolt_entries:
  assumes "bolt_laws b"
  shows "distinct (map fst (bk_entries b db n))"
    and "map_of (bk_entries b db n) k = bk_get b db n k"
  using assms unfolding bolt_laws_def by blast+

lemma bolt_entries_set:
  "bolt_laws b \<Longrightarrow> (k, v) \<in> set (bk_entries b db n) \<longleftrightarrow> bk_get b db n k = Some v"
  using bolt_entries by (metis map_of_eq_Some_iff)

lemma bucket_names [simp]:
  "credential_bucket \<noteq> summary_bucket" "summary_bucket \<noteq> credential_bucket"
  "meta_bucket \<noteq> summary_bucket" "summary_bucket \<noteq> meta_bucket"
  "meta_bucket \<noteq> credential_bucket" "credential_bucket \<noteq> meta_bucket"
  "fingerprint_key \<noteq> salt_key" "salt_key \<noteq> fingerprint_key"
  by (simp_all add: credential_bucket_def summary_bucket_def meta_bucket_def fingerprint_key_def salt_key_def)

lemma bolt_update_Inr_iff:
  "bolt_update b db f = (Inr x, db') \<longleftrightarrow> bk_begin b db \<and> f db = Inr (x, db') \<and> bk_commit b db'"
  by (auto simp: bolt_update_def split: sum.splits if_splits)

lemma bolt_update_Inl: "bolt_update b db f = (Inl err, db') \<Longrightarrow> db' = db"
  by (auto simp: bolt_update_def split: sum.splits if_splits)

lemma rand_read_length: "rand_read n rnd = Some b \<Longrightarrow> length b = n"
  by (auto simp: rand_read_def)

lemma decrypt_encrypt:
  assumes "crypto_laws c" "encrypt c key p aad rnd = Inr sealed"
  shows "decrypt c key sealed aad = Inr p"
proof -
  from assms(2) obtain nonce where n: "rand_read nonce_size rnd = Some nonce" "aes_key_ok key"
    "sealed = nonce @ gcm_seal c key nonce p aad"
    by (auto simp: encrypt_def split: if_splits option.splits)
  with rand_read_length [OF n(1)] assms(1) show ?thesis by (simp add: decrypt_def)
qed

lemma length_encrypt:
  assumes "crypto_laws c" "encrypt c key p aad rnd = Inr sealed"
  shows "length sealed = nonce_size + length p + 16"
  using assms rand_read_length by (auto simp: encrypt_def split: if_splits option.splits)

lemma encrypt_v2_Inr:
  assumes "crypto_laws c" "encrypt_v2 c key p aad rnd = Inr sealed"
  shows "is_v2 sealed \<and> decrypt c key (drop (length v2_prefix) sealed) aad = Inr p"
proof -
  from assms(2) obtain t where t: "encrypt c key p aad rnd = Inr t" "sealed = v2_prefix @ t"
    by (auto simp: encrypt_v2_def result_iff)
  with decrypt_encrypt [OF assms(1) t(1)] length_encrypt [OF assms(1) t(1)] show ?thesis
    by (auto simp: is_v2_def)
qed

definition env_ok :: "'db vault_env \<Rightarrow> bool" where
  "env_ok e \<longleftrightarrow> crypto_laws (ve_crypto e) \<and> bolt_laws (ve_bolt e)"

lemma env_okD [simp]: "env_ok e \<Longrightarrow> crypto_laws (ve_crypto e)" "env_ok e \<Longrightarrow> bolt_laws (ve_bolt e)"
  by (simp_all add: env_ok_def)

text \<open>What the record under a key holds, and what is known about it without the master key.\<close>

definition stored_credential :: "'db vault_env \<Rightarrow> 'db vault \<Rightarrow> string \<Rightarrow> credential option" where
  "stored_credential e s k =
    Option.bind (bk_get (ve_bolt e) (vs_db s) credential_bucket k) (open_record e s k)"

definition stored_summary :: "'db vault_env \<Rightarrow> 'db \<Rightarrow> string \<Rightarrow> summary option" where
  "stored_summary e db k = Option.bind (bk_get (ve_bolt e) db summary_bucket k) summary_unmarshal"

lemma open_record_db [simp]: "open_record e (s\<lparr>vs_db := db\<rparr>) = open_record e s"
  by (simp add: fun_eq_iff open_record_def decrypt_record_def)

lemma vault_get_Inr_iff:
  "vault_get e s k = Inr c \<longleftrightarrow> bk_begin (ve_bolt e) (vs_db s) \<and> stored_credential e s k = Some c"
  by (auto simp: vault_get_def bolt_view_def stored_credential_def open_record_def result_iff
      split: option.splits sum.splits)

lemma store_credential_Inr_cases:
  assumes "store_credential e s owner c rnd = (Inr c', s')"
  obtains p sealed db where "credential_marshal c = Some p"
    "encrypt_v2 (ve_crypto e) (vs_master_key s) p (cd_id c) rnd = Inr sealed"
    "bolt_update (ve_bolt e) (vs_db s) (write_credential e owner c sealed) = (Inr (), db)"
    "c' = c" "s' = s\<lparr>vs_db := db\<rparr>"
proof (cases "bind_result (of_option ErrMarshal (credential_marshal c)) (\<lambda>plaintext.
            encrypt_v2 (ve_crypto e) (vs_master_key s) plaintext (cd_id c) rnd)")
  case (Inl err)
  with assms show ?thesis by (simp add: store_credential_def)
next
  case (Inr sealed)
  obtain r db where r: "bolt_update (ve_bolt e) (vs_db s) (write_credential e owner c sealed) = (r, db)"
    by fastforce
  with assms Inr have "r = Inr () \<and> c' = c \<and> s' = s\<lparr>vs_db := db\<rparr>"
    by (cases r) (simp_all add: store_credential_def)
  with that r Inr show ?thesis by (auto simp: result_iff)
qed

text \<open>Writing a credential changes the record under its key, and its summary when it has an owner.\<close>

lemma store_credential_Inr:
  assumes "env_ok e" "store_credential e s owner c rnd = (Inr c', s')"
  shows "c' = c"
    and "bk_begin (ve_bolt e) (vs_db s) \<and> bk_begin (ve_bolt e) (vs_db s')"
    and "vs_master_key s' = vs_master_key s \<and> vs_salt s' = vs_salt s"
    and "cred_storable c \<Longrightarrow> stored_credential e s' k = (if k = cd_id c then Some c else stored_credential e s k)"
    and "(owner = [] \<longrightarrow> stored_summary e (vs_db s') = stored_summary e (vs_db s)) \<and>
         (sum_storable (credential_summary c owner) \<and> owner \<noteq> [] \<longrightarrow>
            stored_summary e (vs_db s') = (stored_summary e (vs_db s))(cd_id c \<mapsto> credential_summary c owner))"
    and "k \<noteq> cd_id c \<Longrightarrow> stored_credential e s' k = stored_credential e s k"
proof -
  let ?b = "ve_bolt e"
  note laws = bolt_get [OF env_okD(2) [OF assms(1)]] bolt_begin [OF env_okD(2) [OF assms(1)]]
  obtain p sealed db where
    p: "credential_marshal c = Some p" and
    sealed: "encrypt_v2 (ve_crypto e) (vs_master_key s) p (cd_id c) rnd = Inr sealed" and
    up: "bolt_update ?b (vs_db s) (write_credential e owner c sealed) = (Inr (), db)" and
    s': "c' = c" "s' = s\<lparr>vs_db := db\<rparr>"
    by (rule store_credential_Inr_cases [OF assms(2)])
  from up obtain db1 where began: "bk_begin ?b (vs_db s)" and
    db1: "bk_put ?b (vs_db s) credential_bucket (cd_id c) sealed = Some db1" and
    cases: "owner = [] \<and> db = db1 \<or>
      owner \<noteq> [] \<and> (\<exists>raw. summary_marshal (credential_summary c owner) = Some raw \<and>
         bk_put ?b db1 summary_bucket (cd_id c) raw = Some db)"
    by (auto simp: bolt_update_Inr_iff write_credential_def result_iff split: if_splits)
  have cred: "bk_get ?b db credential_bucket k =
      (if k = cd_id c then Some sealed else bk_get ?b (vs_db s) credential_bucket k)" for k
    using cases
  proof (elim disjE conjE exE)
    show "bk_get ?b db credential_bucket k =
      (if k = cd_id c then Some sealed else bk_get ?b (vs_db s) credential_bucket k)" if "db = db1"
      using laws(2) [OF db1] that by simp
  next
    fix raw assume "bk_put ?b db1 summary_bucket (cd_id c) raw = Some db"
    from laws(2) [OF this] show "bk_get ?b db credential_bucket k =
      (if k = cd_id c then Some sealed else bk_get ?b (vs_db s) credential_bucket k)"
      using laws(2) [OF db1] by simp
  qed
  show "c' = c" by (rule s')
  show "bk_begin ?b (vs_db s) \<and> bk_begin ?b (vs_db s')"
    using began cases laws(5) [OF db1] laws(5) by (auto simp: s')
  show "vs_master_key s' = vs_master_key s \<and> vs_salt s' = vs_salt s" by (simp add: s')
  show "stored_credential e s' k = stored_credential e s k" if "k \<noteq> cd_id c"
    using cred that by (simp add: stored_credential_def s')
  show "stored_credential e s' k = (if k = cd_id c then Some c else stored_credential e s k)"
    if "cred_storable c"
    using cred credential_codec [OF that p] encrypt_v2_Inr [OF env_okD(1) [OF assms(1)] sealed]
    by (simp add: stored_credential_def open_record_def decrypt_record_def s')
  show "(owner = [] \<longrightarrow> stored_summary e (vs_db s') = stored_summary e (vs_db s)) \<and>
     (sum_storable (credential_summary c owner) \<and> owner \<noteq> [] \<longrightarrow>
        stored_summary e (vs_db s') = (stored_summary e (vs_db s))(cd_id c \<mapsto> credential_summary c owner))"
    using cases
  proof (elim disjE conjE exE)
    show ?thesis if "owner = []" "db = db1"
      using laws(2) [OF db1] that by (simp add: stored_summary_def s' fun_eq_iff)
  next
    fix raw assume raw: "summary_marshal (credential_summary c owner) = Some raw" "owner \<noteq> []"
      and "bk_put ?b db1 summary_bucket (cd_id c) raw = Some db"
    from laws(2) [OF this(3)] laws(2) [OF db1] raw show ?thesis
      by (simp add: stored_summary_def s' fun_eq_iff summary_codec)
  qed
qed

lemma vault_delete_Inr:
  assumes "env_ok e" "vault_delete e s i = (Inr (), s')"
  shows "i \<noteq> []"
    and "bk_begin (ve_bolt e) (vs_db s) \<and> bk_begin (ve_bolt e) (vs_db s')"
    and "vs_master_key s' = vs_master_key s \<and> vs_salt s' = vs_salt s"
    and "stored_credential e s' = (stored_credential e s)(i := None)"
    and "stored_summary e (vs_db s') = (stored_summary e (vs_db s))(i := None)"
proof -
  let ?b = "ve_bolt e"
  note laws = bolt_get(3) [OF env_okD(2) [OF assms(1)]] bolt_begin(3) [OF env_okD(2) [OF assms(1)]]
  from assms(2) obtain db db1 where i: "i \<noteq> []" and s': "s' = s\<lparr>vs_db := db\<rparr>"
    and began: "bk_begin ?b (vs_db s)"
    and db1: "bk_delete ?b (vs_db s) credential_bucket i = Some db1"
    and db: "bk_delete ?b db1 summary_bucket i = Some db"
    by (auto simp: vault_delete_def bolt_update_Inr_iff remove_credential_def result_iff
        split: if_splits prod.splits)
  show "i \<noteq> []" by (rule i)
  show "bk_begin ?b (vs_db s) \<and> bk_begin ?b (vs_db s')"
    using began laws(2) [OF db1] laws(2) [OF db] by (simp add: s')
  show "vs_master_key s' = vs_master_key s \<and> vs_salt s' = vs_salt s" by (simp add: s')
  show "stored_credential e s' = (stored_credential e s)(i := None)"
    and "stored_summary e (vs_db s') = (stored_summary e (vs_db s))(i := None)"
    using laws(1) [OF db1] laws(1) [OF db]
    by (simp_all add: stored_credential_def stored_summary_def s' fun_eq_iff)
qed

text \<open>An operation that fails leaves the store as it was.\<close>

lemma store_credential_Inl: "store_credential e s owner c rnd = (Inl err, s') \<Longrightarrow> s' = s"
  by (auto simp: store_credential_def split: sum.split_asm prod.split_asm dest: bolt_update_Inl)

lemma vault_delete_Inl: "vault_delete e s i = (Inl err, s') \<Longrightarrow> s' = s"
  by (auto simp: vault_delete_def split: if_split_asm prod.split_asm dest: bolt_update_Inl)

lemma list_summaries_Inl: "list_summaries e s owner = (Inl err, s') \<Longrightarrow> s' = s"
  by (auto simp: list_summaries_def Let_def split: if_split_asm sum.split_asm prod.split_asm dest: bolt_update_Inl)

lemma migrate_Some:
  "migrate_legacy_from_password e s password rnd = ((n, remaining, Some err), s') \<Longrightarrow> s' = s \<and> n = 0"
  by (auto simp: migrate_legacy_from_password_def Let_def
      split: if_split_asm sum.split_asm prod.split_asm option.split_asm dest: bolt_update_Inl)

section \<open>The vault and the database as keyed stores\<close>

definition bucket_put ::
  "'db bolt \<Rightarrow> 'db \<Rightarrow> bytes \<times> bytes \<Rightarrow> bytes \<Rightarrow> unit \<Rightarrow> bool \<times> 'db" where
  "bucket_put b db nk v r =
    (case bk_put b db (fst nk) (snd nk) v of Some db' \<Rightarrow> (True, db') | None \<Rightarrow> (False, db))"

definition bucket_del :: "'db bolt \<Rightarrow> 'db \<Rightarrow> bytes \<times> bytes \<Rightarrow> bool \<times> 'db" where
  "bucket_del b db nk =
    (case bk_delete b db (fst nk) (snd nk) of Some db' \<Rightarrow> (True, db') | None \<Rightarrow> (False, db))"

interpretation bucket: keyed_store bolt_laws "\<lambda>b nk v. True" "\<lambda>b db nk. bk_get b db (fst nk) (snd nk)"
  bucket_put bucket_del
proof unfold_locales
  fix b :: "'a bolt" and nk :: "bytes \<times> bytes" and v r db db'
  show "(\<lambda>m. bk_get b db' (fst m) (snd m)) = (\<lambda>m. bk_get b db (fst m) (snd m))(nk \<mapsto> v)"
    if "bolt_laws b" "bucket_put b db nk v r = (True, db')"
  proof -
    from that(2) have "bk_put b db (fst nk) (snd nk) v = Some db'"
      by (simp add: bucket_put_def split: option.splits)
    from bolt_get(2) [OF that(1) this] show ?thesis by (simp add: fun_eq_iff prod_eq_iff)
  qed
  show "(\<lambda>m. bk_get b db' (fst m) (snd m)) = (\<lambda>m. bk_get b db (fst m) (snd m))(nk := None)"
    if "bolt_laws b" "bucket_del b db nk = (True, db')"
  proof -
    from that(2) have "bk_delete b db (fst nk) (snd nk) = Some db'"
      by (simp add: bucket_del_def split: option.splits)
    from bolt_get(3) [OF that(1) this] show ?thesis by (simp add: fun_eq_iff prod_eq_iff)
  qed
qed (auto simp: bucket_put_def bucket_del_def split: option.splits)

definition vault_look :: "'db vault_env \<Rightarrow> 'db vault \<Rightarrow> string \<Rightarrow> credential option" where
  "vault_look e s k = (case vault_get e s k of Inr c \<Rightarrow> Some c | Inl _ \<Rightarrow> None)"

definition vault_write ::
  "'db vault_env \<Rightarrow> 'db vault \<Rightarrow> string \<Rightarrow> credential \<Rightarrow> string \<times> bytes option \<Rightarrow> bool \<times> 'db vault" where
  "vault_write e s k c r =
    (case store_credential e s (fst r) (c\<lparr>cd_id := k\<rparr>) (snd r) of
       (Inr _, s') \<Rightarrow> (True, s')
     | (Inl _, s') \<Rightarrow> (False, s'))"

definition vault_remove :: "'db vault_env \<Rightarrow> 'db vault \<Rightarrow> string \<Rightarrow> bool \<times> 'db vault" where
  "vault_remove e s k = (case vault_delete e s k of (Inr _, s') \<Rightarrow> (True, s') | (Inl _, s') \<Rightarrow> (False, s'))"

lemma vault_look_eq:
  "vault_look e s k = (if bk_begin (ve_bolt e) (vs_db s) then stored_credential e s k else None)"
proof (cases "vault_get e s k")
  case (Inl err)
  then have "\<not> (bk_begin (ve_bolt e) (vs_db s) \<and> stored_credential e s k = Some c)" for c
    using vault_get_Inr_iff [of e s k c] by simp
  with Inl show ?thesis by (cases "stored_credential e s k") (auto simp: vault_look_def)
next
  case (Inr c)
  with vault_get_Inr_iff [of e s k c] show ?thesis by (simp add: vault_look_def)
qed

interpretation creds: keyed_store env_ok "\<lambda>e k c. cd_id c = k \<and> cred_storable c"
  vault_look vault_write vault_remove
proof unfold_locales
  fix e :: "'a vault_env" and k c s r s'
  show "vault_look e s' = (vault_look e s)(k \<mapsto> c)"
    if ok: "env_ok e" "cd_id c = k \<and> cred_storable c" and w: "vault_write e s k c r = (True, s')"
  proof -
    from ok(2) have c: "c\<lparr>cd_id := k\<rparr> = c" by simp
    obtain c' where "store_credential e s (fst r) c (snd r) = (Inr c', s')"
      using w unfolding vault_write_def c by (auto split: prod.split_asm sum.split_asm)
    from store_credential_Inr [OF ok(1) this] ok(2) show ?thesis
      by (simp add: fun_eq_iff vault_look_eq)
  qed
  show "vault_look e s' = (vault_look e s)(k := None)"
    if ok: "env_ok e" and w: "vault_remove e s k = (True, s')"
  proof -
    have "vault_delete e s k = (Inr (), s')"
      using w by (auto simp: vault_remove_def split: prod.split_asm sum.split_asm)
    from vault_delete_Inr [OF ok this] show ?thesis by (simp add: fun_eq_iff vault_look_eq)
  qed
qed (auto simp: vault_write_def vault_remove_def split: prod.split_asm sum.split_asm
      dest: store_credential_Inl vault_delete_Inl)

lemma vault_get_look: "vault_look e s k = Some c \<longleftrightarrow> vault_get e s k = Inr c"
  by (simp add: vault_look_def split: sum.splits)

section \<open>Properties\<close>

lemma put_get:
  assumes "env_ok e" "cred_storable c'"
    and "put_for_user e s owner c now rnd_id rnd_nonce = (Inr c', s')"
  shows "vault_get e s' (cd_id c') = Inr c' \<and>
    (\<forall>k. k \<noteq> cd_id c' \<longrightarrow> vault_look e s' k = vault_look e s k) \<and>
    (cd_id c \<noteq> [] \<longrightarrow> cd_id c' = cd_id c) \<and>
    cd_updated_at c' = utc now \<and> cd_port c' \<noteq> 0 \<and> cd_term c' \<noteq> [] \<and>
    cd_private_key c' = cd_private_key c \<and> cd_passphrase c' = cd_passphrase c"
proof -
  let ?c = "stamp e s c now rnd_id"
  from assms(3) have w: "store_credential e s owner ?c rnd_nonce = (Inr c', s')"
    by (simp add: put_for_user_def)
  have c': "c' = ?c" by (rule store_credential_Inr(1) [OF assms(1) w])
  note look = store_credential_Inr(2,4) [OF assms(1) w]
  have "vault_get e s' (cd_id c') = Inr c'"
    using look assms(2) by (simp add: vault_get_Inr_iff c')
  moreover have "vault_look e s' k = vault_look e s k" if "k \<noteq> cd_id c'" for k
    using look assms(2) that by (simp add: vault_look_eq c')
  ultimately show ?thesis by (auto simp: c' stamp_def Let_def split: sum.splits)
qed

text \<open>
  C10: a credential that \<^verbatim>\<open>PutForUser\<close> reports as stored is what \<^verbatim>\<open>Get\<close> returns for its identifier,
  with the time of the write, a port and a terminal filled in; every other identifier reads as
  before. The hypotheses are the documented behaviour of the database and of the primitives, and
  that the credential is one JSON can carry: UTF-8, and times of four-digit years.
\<close>

theorem put_then_get:
  assumes "env_ok e" "cred_storable c'"
    and "put_for_user e s owner c now rnd_id rnd_nonce = (Inr c', s')"
  shows "vault_get e s' (cd_id c') = Inr c' \<and>
    (\<forall>k. k \<noteq> cd_id c' \<longrightarrow> vault_look e s' k = vault_look e s k) \<and>
    (cd_id c \<noteq> [] \<longrightarrow> cd_id c' = cd_id c) \<and>
    cd_updated_at c' = utc now \<and> cd_port c' \<noteq> 0 \<and> cd_term c' \<noteq> [] \<and>
    cd_private_key c' = cd_private_key c \<and> cd_passphrase c' = cd_passphrase c"
  by (rule put_get [OF assms])

text \<open>
  C4: the vault refines a map from identifiers to credentials: after any sequence of writes and
  deletions, some of which may fail, the credentials that can be read are those of the map that
  results from the successful ones, in order.
\<close>

theorem vault_refines_map:
  assumes "env_ok e" "list_all (storable_change (\<lambda>k c. cd_id c = k \<and> cred_storable c)) xs"
    and "run_changes vault_write vault_remove e s xs = (kept, s')"
  shows "vault_look e s' = fold abstract_change kept (vault_look e s)"
  by (rule creds.look_history [OF assms])

text \<open>
  C28: no operation of the vault is half done: whenever storing, deleting, listing with its
  backfill or migrating reports an error, the store is what it was.
\<close>

theorem vault_errors_change_nothing:
  "(fst (put_for_user e s owner c now r1 r2) = Inl err \<longrightarrow> snd (put_for_user e s owner c now r1 r2) = s) \<and>
   (fst (vault_delete e s i) = Inl err \<longrightarrow> snd (vault_delete e s i) = s) \<and>
   (fst (list_summaries e s owner) = Inl err \<longrightarrow> snd (list_summaries e s owner) = s) \<and>
   (snd (snd (fst (migrate_legacy_from_password e s pw rnd))) = Some err \<longrightarrow>
      snd (migrate_legacy_from_password e s pw rnd) = s)"
  by (metis prod.collapse put_for_user_def store_credential_Inl vault_delete_Inl list_summaries_Inl
      migrate_Some)

section \<open>An environment for the witnesses\<close>

text \<open>A database held in memory and a stable sort.\<close>

type_synonym memory_db = "bool \<times> (bytes \<Rightarrow> (bytes \<times> bytes) list)"

definition memory_bolt :: "memory_db bolt" where
  "memory_bolt =
    \<lparr>bk_begin = fst, bk_commit = (\<lambda>_. True), bk_bucket = (\<lambda>db n. Some db),
     bk_get = (\<lambda>db n k. map_of (snd db n) k),
     bk_put = (\<lambda>db n k v. if k = [] then None else Some (fst db, (snd db)(n := AList.update k v (snd db n)))),
     bk_delete = (\<lambda>db n k. Some (fst db, (snd db)(n := AList.delete k (snd db n)))),
     bk_entries = (\<lambda>db n. AList.clearjunk (snd db n)),
     bk_close = (\<lambda>db. (False, snd db))\<rparr>"

lemma memory_bolt_laws: "bolt_laws memory_bolt"
  unfolding bolt_laws_def memory_bolt_def
  by (auto simp: update_conv' delete_conv' map_of_clearjunk distinct_clearjunk split: if_splits)

definition vault_sample_env :: "memory_db vault_env" where
  "vault_sample_env =
    \<lparr>ve_crypto = sample_crypto, ve_bolt = memory_bolt, ve_sort_cred = sort_key cd_name, ve_sort_sum = sort_key sm_name\<rparr>"

lemma vault_sample_env_ok: "env_ok vault_sample_env"
  by (simp add: env_ok_def vault_sample_env_def sample_crypto_laws memory_bolt_laws)

definition empty_vault :: "memory_db vault" where
  "empty_vault = \<lparr>vs_db = (True, \<lambda>_. []), vs_salt = replicate 16 CHR ''s'', vs_master_key = replicate 32 CHR ''k''\<rparr>"

definition sample_cred :: credential where
  "sample_cred =
    \<lparr>cd_id = [], cd_name = ''web'', cd_host = ''example.org'', cd_port = 0, cd_username = ''root'',
     cd_private_key = ''KEY'', cd_passphrase = [], cd_term = [], cd_use_herdr = True,
     cd_created_at = zero_time, cd_updated_at = zero_time\<rparr>"

definition sample_nonce :: "bytes option" where
  "sample_nonce = Some (replicate 16 CHR ''n'')"

definition sample_put :: "(vault_error + credential) \<times> memory_db vault" where
  "sample_put = put_for_user vault_sample_env empty_vault ''admin'' sample_cred 1000 sample_nonce sample_nonce"

definition sample_stored :: credential where
  "sample_stored = sample_cred\<lparr>cd_id := random_id sample_nonce, cd_created_at := utc 1000, cd_updated_at := utc 1000,
     cd_port := 22, cd_term := ''xterm-256color''\<rparr>"

lemma sample_put_ok: "fst sample_put = Inr sample_stored"
  by code_simp

lemma sample_stored_storable: "cred_storable sample_stored"
  by code_simp

theorem put_then_get_witness:
  "vault_get vault_sample_env (snd sample_put) (cd_id sample_stored) = Inr sample_stored"
proof -
  have "put_for_user vault_sample_env empty_vault ''admin'' sample_cred 1000 sample_nonce sample_nonce
      = (Inr sample_stored, snd sample_put)"
    using sample_put_ok by (simp add: sample_put_def prod_eq_iff)
  from put_then_get [OF vault_sample_env_ok sample_stored_storable this] show ?thesis by blast
qed

theorem vault_refines_map_witness:
  "vault_look vault_sample_env (snd (run_changes vault_write vault_remove vault_sample_env empty_vault
      [Put (cd_id sample_stored) sample_stored (''admin'', sample_nonce), Del ''other'', Del []]))
     (cd_id sample_stored) = Some sample_stored"
proof -
  let ?xs = "[Put (cd_id sample_stored) sample_stored (''admin'', sample_nonce), Del ''other'', Del []]"
  let ?r = "run_changes vault_write vault_remove vault_sample_env empty_vault ?xs"
  have kept: "fst ?r = take 2 ?xs" by code_simp
  have "list_all (storable_change (\<lambda>k c. cd_id c = k \<and> cred_storable c)) ?xs"
    using sample_stored_storable by simp
  from vault_refines_map [OF vault_sample_env_ok this prod.collapse [symmetric]] kept
  have "vault_look vault_sample_env (snd ?r) = fold abstract_change (take 2 ?xs)
      (vault_look vault_sample_env empty_vault)" by simp
  moreover have "cd_id sample_stored \<noteq> ''other''" by code_simp
  ultimately show ?thesis by simp
qed

theorem vault_errors_change_nothing_witness:
  "fst (vault_delete vault_sample_env empty_vault []) = Inl ErrIdRequired \<and>
   snd (vault_delete vault_sample_env empty_vault []) = empty_vault"
proof -
  have f: "fst (vault_delete vault_sample_env empty_vault []) = Inl ErrIdRequired"
    by (simp add: vault_delete_def)
  with vault_errors_change_nothing [of vault_sample_env empty_vault "[]" sample_cred 0 None None
      ErrIdRequired "[]" "[]" "\<lambda>_. None"] show ?thesis by blast
qed

end
