(* ===== verification/Vault_Listing.thy ===== *)
theory Vault_Listing
  imports Vault
begin

text \<open>
  The credential vault's listings, the backfill of summaries and the migration of records sealed
  under a password: what each returns, and what it leaves in the database.
\<close>

section \<open>Scans\<close>

definition opened :: "'db vault_env \<Rightarrow> 'db vault \<Rightarrow> bytes \<times> bytes \<Rightarrow> credential option" where
  "opened e s kv = open_record e s (fst kv) (snd kv)"

lemma scan_available_eq:
  "scan_available e s es (r, n) =
     (r @ List.map_filter (opened e s) es, n + int (length (filter (\<lambda>kv. opened e s kv = None) es)))"
proof (induction es arbitrary: r n)
  case Nil
  then show ?case by (simp add: List.map_filter_def)
next
  case (Cons kv es)
  obtain k v where "kv = (k, v)" by fastforce
  with Cons show ?case by (simp add: opened_def List.map_filter_def split: option.splits)
qed

lemma length_map_filter:
  "length (List.map_filter f xs) + length (filter (\<lambda>x. f x = None) xs) = length xs"
  by (induction xs) (auto simp: List.map_filter_def)

lemma set_map_filter: "y \<in> set (List.map_filter f xs) \<longleftrightarrow> (\<exists>x\<in>set xs. f x = Some y)"
  by (auto simp: List.map_filter_def) force

lemma stored_credential_entries:
  assumes "env_ok e"
  shows "stored_credential e s k = Some c \<longleftrightarrow>
    (\<exists>v. (k, v) \<in> set (bk_entries (ve_bolt e) (vs_db s) credential_bucket) \<and> opened e s (k, v) = Some c)"
  using bolt_entries_set [OF env_okD(2) [OF assms]]
  by (auto simp: stored_credential_def opened_def bind_eq_Some_conv)

text \<open>
  \<^verbatim>\<open>ListAvailable\<close> returns, sorted by name, exactly the credentials that \<^verbatim>\<open>Get\<close> returns for some
  identifier, and counts every other record as skipped: results and skipped records together are
  all records. \<^verbatim>\<open>List\<close> gives the same when nothing was skipped and an error otherwise.
\<close>

theorem list_available_complete:
  assumes "env_ok e" "sorts_by cd_name (ve_sort_cred e)"
    and "list_available e s = Inr (r, skipped)"
  shows "sorted (map cd_name r) \<and>
    (\<forall>c. c \<in> set r \<longleftrightarrow> (\<exists>k. vault_get e s k = Inr c)) \<and>
    int (length r) + skipped = int (length (bk_entries (ve_bolt e) (vs_db s) credential_bucket)) \<and>
    vault_list e s = (if skipped = 0 then Inr r else Inl ErrUndecryptable)"
proof -
  let ?es = "bk_entries (ve_bolt e) (vs_db s) credential_bucket"
  from assms(3) have began: "bk_begin (ve_bolt e) (vs_db s)"
    and r: "r = ve_sort_cred e (List.map_filter (opened e s) ?es)"
    and n: "skipped = int (length (filter (\<lambda>kv. opened e s kv = None) ?es))"
    by (auto simp: list_available_def bolt_view_def scan_available_eq split: if_splits)
  have m: "mset r = mset (List.map_filter (opened e s) ?es)" and "sorted (map cd_name r)"
    using assms(2) by (auto simp: sorts_by_def r)
  moreover have "c \<in> set r \<longleftrightarrow> (\<exists>k. vault_get e s k = Inr c)" for c
    using mset_eq_setD [OF m] stored_credential_entries [OF assms(1)] began
    by (auto simp: set_map_filter vault_get_Inr_iff)
  moreover have "length r = length (List.map_filter (opened e s) ?es)"
    using m by (metis size_mset)
  ultimately show ?thesis
    using length_map_filter [of "opened e s" ?es] assms(3) n by (auto simp: vault_list_def)
qed

section \<open>Summaries\<close>

text \<open>Every record holds the credential of its own identifier.\<close>

definition ids_match :: "'db vault_env \<Rightarrow> 'db vault \<Rightarrow> bool" where
  "ids_match e s \<longleftrightarrow> (\<forall>k c. stored_credential e s k = Some c \<longrightarrow> cd_id c = k)"

text \<open>The summary of the record \<open>k\<close> that \<open>owner\<close> gets to see.\<close>

definition visible :: "'db vault_env \<Rightarrow> 'db vault \<Rightarrow> string \<Rightarrow> string \<Rightarrow> summary option" where
  "visible e s owner k =
    (case stored_summary e (vs_db s) k of
       Some sm \<Rightarrow> if sm_owner sm = owner then Some sm else None
     | None \<Rightarrow> map_option (\<lambda>c. credential_summary c owner) (stored_credential e s k))"

lemma scan_summaries_eq:
  assumes "distinct (map fst es)" "distinct (map fst sms)"
    and "scan_summaries e owner es (sms, known) = (sms', known')"
  shows "distinct (map fst sms') \<and>
    map_of sms' k = (case Option.bind (map_of es k) summary_unmarshal of
      Some sm \<Rightarrow> if sm_owner sm = owner then Some sm else map_of sms k | None \<Rightarrow> map_of sms k) \<and>
    (k \<in> set known' \<longleftrightarrow> k \<in> set known \<or> Option.bind (map_of es k) summary_unmarshal \<noteq> None)"
  using assms
proof (induction es arbitrary: sms known)
  case Nil
  then show ?case by simp
next
  case (Cons kv es)
  obtain j v where kv: "kv = (j, v)" by fastforce
  define acc where "acc = (case summary_unmarshal v of None \<Rightarrow> (sms, known)
     | Some sm \<Rightarrow> (if sm_owner sm = owner then AList.update j sm sms else sms, j # known))"
  have d: "distinct (map fst es)" "distinct (map fst (fst acc))" "map_of es j = None"
    using Cons.prems(1,2)
    by (auto simp: acc_def kv distinct_update map_of_eq_None_iff split: option.splits)
  have "scan_summaries e owner es (fst acc, snd acc) = (sms', known')"
    using Cons.prems(3) by (simp add: kv acc_def)
  from Cons.IH [OF d(1,2) this] d(3) show ?case
    by (cases "k = j") (auto simp: kv acc_def update_conv' split: option.splits)
qed

lemma scan_unsummarised_eq:
  assumes "distinct (map fst es)" "distinct (map fst sms)"
    and "\<And>k v c. (k, v) \<in> set es \<Longrightarrow> opened e s (k, v) = Some c \<Longrightarrow> cd_id c = k"
    and "scan_unsummarised e s owner known es (sms, bf, lg) = (sms', bf', lg')"
  shows "distinct (map fst sms') \<and> lg' = lg + count_legacy es \<and>
    bf' = bf @ map (\<lambda>c. credential_summary c owner)
                 (List.map_filter (opened e s) (filter (\<lambda>kv. fst kv \<notin> set known) es)) \<and>
    map_of sms' k = (if k \<in> set known then map_of sms k
      else case Option.bind (map_of es k) (open_record e s k) of
        Some c \<Rightarrow> Some (credential_summary c owner) | None \<Rightarrow> map_of sms k)"
  using assms
proof (induction es arbitrary: sms bf lg)
  case Nil
  then show ?case by (simp add: count_legacy_def List.map_filter_def)
next
  case (Cons kv es)
  obtain j v where kv: "kv = (j, v)" by fastforce
  define lg1 where "lg1 = (if is_v2 v then lg else lg + 1)"
  define new where "new = (if j \<in> set known then None else opened e s (j, v))"
  define sms1 where "sms1 = (case new of None \<Rightarrow> sms | Some c \<Rightarrow> AList.update (cd_id c) (credential_summary c owner) sms)"
  define bf1 where "bf1 = (case new of None \<Rightarrow> bf | Some c \<Rightarrow> bf @ [credential_summary c owner])"
  have d: "distinct (map fst es)" "distinct (map fst sms1)" "map_of es j = None"
    using Cons.prems(1,2) by (auto simp: sms1_def kv distinct_update map_of_eq_None_iff split: option.splits)
  have i: "new = Some c \<Longrightarrow> cd_id c = j" for c
    using Cons.prems(3) [of j v c] by (auto simp: kv new_def split: if_splits)
  have es: "cd_id c = k" if "(k, v) \<in> set es" "opened e s (k, v) = Some c" for k v c
    using Cons.prems(3) that by (metis list.set_intros(2))
  have "scan_unsummarised e s owner known es (sms1, bf1, lg1) = (sms', bf', lg')"
    using Cons.prems(4) by (simp add: kv lg1_def sms1_def bf1_def new_def opened_def Let_def split: option.splits if_splits)
  note ih = Cons.IH [OF d(1,2) es this]
  have n: "new = (if j \<in> set known then None else open_record e s j v)"
    by (simp add: new_def opened_def)
  have "lg1 + count_legacy es = lg + count_legacy (kv # es)"
    by (simp add: lg1_def kv count_legacy_def)
  moreover have "bf1 @ map f (List.map_filter (opened e s) (filter (\<lambda>kv. fst kv \<notin> set known) es))
      = bf @ map f (List.map_filter (opened e s) (filter (\<lambda>kv. fst kv \<notin> set known) (kv # es)))"
    if "f = (\<lambda>c. credential_summary c owner)" for f
    unfolding bf1_def new_def that
    by (cases "j \<in> set known"; cases "opened e s (j, v)") (simp_all add: kv List.map_filter_def)
  moreover have "(if k \<in> set known then map_of sms1 k
      else case Option.bind (map_of es k) (open_record e s k) of
        Some c \<Rightarrow> Some (credential_summary c owner) | None \<Rightarrow> map_of sms1 k)
    = (if k \<in> set known then map_of sms k
      else case Option.bind (map_of (kv # es) k) (open_record e s k) of
        Some c \<Rightarrow> Some (credential_summary c owner) | None \<Rightarrow> map_of sms k)"
  proof (cases "new")
    case None
    then have "sms1 = sms" by (simp add: sms1_def)
    with None d(3) n show ?thesis by (auto simp: kv split: if_splits)
  next
    case (Some c)
    with i have "sms1 = AList.update j (credential_summary c owner) sms" by (simp add: sms1_def)
    with Some d(3) n show ?thesis by (auto simp: kv update_conv' split: if_splits option.splits)
  qed
  ultimately show ?case using ih by simp
qed

text \<open>What a listing sees before it writes anything.\<close>

lemma summaries_scanned:
  assumes "env_ok e" "ids_match e s"
    and "scan_summaries e owner (bk_entries (ve_bolt e) (vs_db s) summary_bucket) ([], []) = (sms, known)"
    and "scan_unsummarised e s owner known (bk_entries (ve_bolt e) (vs_db s) credential_bucket) (sms, [], 0)
      = (sms', bf, lg)"
  shows "distinct (map fst sms')" "map_of sms' k = visible e s owner k"
    and "lg = count_legacy (bk_entries (ve_bolt e) (vs_db s) credential_bucket)"
    and "sm \<in> set bf \<longleftrightarrow> (\<exists>c. stored_summary e (vs_db s) (cd_id c) = None \<and>
           stored_credential e s (cd_id c) = Some c \<and> sm = credential_summary c owner)"
    and "distinct (map sm_id bf)"
proof -
  let ?S = "bk_entries (ve_bolt e) (vs_db s) summary_bucket"
  let ?C = "bk_entries (ve_bolt e) (vs_db s) credential_bucket"
  note entries = bolt_entries [OF env_okD(2) [OF assms(1)]]
  have sum: "distinct (map fst sms) \<and>
      map_of sms k = (case stored_summary e (vs_db s) k of
        Some sm \<Rightarrow> if sm_owner sm = owner then Some sm else None | None \<Rightarrow> None) \<and>
      (k \<in> set known \<longleftrightarrow> stored_summary e (vs_db s) k \<noteq> None)" for k
    using scan_summaries_eq [OF entries(1) _ assms(3), of k] entries(2)
    by (auto simp: stored_summary_def split: option.splits)
  have ids: "opened e s (k, v) = Some c \<Longrightarrow> cd_id c = k" if "(k, v) \<in> set ?C" for k v c
    using assms(2) stored_credential_entries [OF assms(1)] that by (auto simp: ids_match_def)
  note cred = scan_unsummarised_eq [where k = k, OF entries(1) _ ids assms(4)]
  show "distinct (map fst sms')" and lg: "lg = count_legacy ?C" using cred sum by auto
  show "map_of sms' k = visible e s owner k"
    using cred sum [of k] entries(2)
    by (auto simp: visible_def stored_credential_def split: option.splits)
  have bf: "bf = map (\<lambda>c. credential_summary c owner)
      (List.map_filter (opened e s) (filter (\<lambda>kv. fst kv \<notin> set known) ?C))"
    using cred sum by auto
  have "sm \<in> set bf \<longleftrightarrow> (\<exists>k v c. (k, v) \<in> set ?C \<and> k \<notin> set known \<and>
      opened e s (k, v) = Some c \<and> sm = credential_summary c owner)"
    by (auto simp: bf set_map_filter image_iff Bex_def)
  also have "\<dots> \<longleftrightarrow> (\<exists>k c. stored_summary e (vs_db s) k = None \<and> stored_credential e s k = Some c \<and>
      sm = credential_summary c owner)"
    using sum stored_credential_entries [OF assms(1)] by auto
  finally show "sm \<in> set bf \<longleftrightarrow> (\<exists>c. stored_summary e (vs_db s) (cd_id c) = None \<and>
      stored_credential e s (cd_id c) = Some c \<and> sm = credential_summary c owner)"
    using assms(2) unfolding ids_match_def by blast
  have "map sm_id (map (\<lambda>c. credential_summary c owner) (List.map_filter (opened e s) es)) =
      map fst (filter (\<lambda>kv. opened e s kv \<noteq> None) es)" if "set es \<subseteq> set ?C" for es
    using that ids by (induction es) (auto simp: List.map_filter_def credential_summary_def)
  from this [of "filter (\<lambda>kv. fst kv \<notin> set known) ?C"] show "distinct (map sm_id bf)"
    using entries(1) by (simp add: bf distinct_map_filter)
qed

lemma write_summaries_Inr:
  assumes "env_ok e" "write_summaries e sms db = Inr ((), db')"
    and "list_all (sum_storable) sms" "distinct (map sm_id sms)"
  shows "bk_get (ve_bolt e) db' credential_bucket = bk_get (ve_bolt e) db credential_bucket \<and>
    stored_summary e db' k = (case find (\<lambda>sm. sm_id sm = k) sms of
      Some sm \<Rightarrow> Some sm | None \<Rightarrow> stored_summary e db k)"
  using assms(2-)
proof (induction sms arbitrary: db)
  case Nil
  then show ?case by simp
next
  case (Cons sm sms)
  from Cons.prems(1) obtain raw db1 where raw: "summary_marshal sm = Some raw"
    and db1: "bk_put (ve_bolt e) db summary_bucket (sm_id sm) raw = Some db1"
    and rest: "write_summaries e sms db1 = Inr ((), db')"
    by (auto simp: result_iff)
  have "stored_summary e db1 = (stored_summary e db)(sm_id sm \<mapsto> sm)"
    and "bk_get (ve_bolt e) db1 credential_bucket = bk_get (ve_bolt e) db credential_bucket"
    using bolt_get(2) [OF env_okD(2) [OF assms(1)] db1] summary_codec [OF _ raw] Cons.prems(2)
    by (simp_all add: stored_summary_def fun_eq_iff)
  moreover have "find (\<lambda>x. sm_id x = sm_id sm) sms = None"
    using Cons.prems(3) by (auto simp: find_None_iff image_iff)
  ultimately show ?case
    using Cons.IH [OF rest] Cons.prems(2,3) by (auto split: option.splits)
qed

lemma list_summaries_Inr_cases:
  assumes "list_summaries e s owner = (Inr (r, n), s')"
  obtains sms known sms' bf where "owner \<noteq> []" "bk_begin (ve_bolt e) (vs_db s)"
    "scan_summaries e owner (bk_entries (ve_bolt e) (vs_db s) summary_bucket) ([], []) = (sms, known)"
    "scan_unsummarised e s owner known (bk_entries (ve_bolt e) (vs_db s) credential_bucket) (sms, [], 0)
      = (sms', bf, n)"
    "r = ve_sort_sum e (map snd sms')" "s' = s\<lparr>vs_db := vs_db s'\<rparr>"
    "write_summaries e bf (vs_db s) = Inr ((), vs_db s')"
proof -
  let ?b = "ve_bolt e"
  obtain sms known where s1: "scan_summaries e owner (bk_entries ?b (vs_db s) summary_bucket) ([], []) = (sms, known)"
    by fastforce
  obtain sms' bf lg where s2: "scan_unsummarised e s owner known (bk_entries ?b (vs_db s) credential_bucket)
      (sms, [], 0) = (sms', bf, lg)"
    using prod_cases3 by blast
  have o: "owner \<noteq> []" using assms by (auto simp: list_summaries_def)
  have b: "bk_begin ?b (vs_db s)"
    using assms o by (auto simp: list_summaries_def bolt_view_def split: if_split_asm)
  obtain u db where up: "bolt_update ?b (vs_db s) (write_summaries e bf) = (u, db)" by fastforce
  show ?thesis
  proof (cases "bf = []")
    case True
    with assms o b s1 s2 show ?thesis
      by (intro that) (auto simp: list_summaries_def bolt_view_def)
  next
    case False
    with assms o b s1 s2 up have "u = Inr ()" "s' = s\<lparr>vs_db := db\<rparr>" "r = ve_sort_sum e (map snd sms')" "n = lg"
      by (cases u; simp add: list_summaries_def bolt_view_def Let_def)+
    with up o b s1 s2 show ?thesis by (intro that) (auto simp: bolt_update_Inr_iff)
  qed
qed

lemma mset_values:
  "distinct (map fst al) \<Longrightarrow> mset (map snd al) = image_mset (\<lambda>k. the (map_of al k)) (mset_set (dom (map_of al)))"
proof (induction al)
  case Nil
  then show ?case by simp
next
  case (Cons kv al)
  have "fst kv \<notin> dom (map_of al)" "finite (dom (map_of al))"
    using Cons.prems by (auto simp: dom_map_of_conv_image_fst finite_dom_map_of)
  moreover from this have "image_mset (\<lambda>k. the (map_of (kv # al) k)) (mset_set (dom (map_of al)))
      = image_mset (\<lambda>k. the (map_of al k)) (mset_set (dom (map_of al)))"
    by (intro image_mset_cong) (auto simp: split: prod.splits)
  moreover have "dom (map_of (kv # al)) = insert (fst kv) (dom (map_of al))"
    and "the (map_of (kv # al) (fst kv)) = snd kv" by (cases kv; simp)+
  ultimately show ?case using Cons by (simp del: map_of.simps)
qed

lemma find_unique:
  assumes "x \<in> set xs" "P x" "\<And>y. y \<in> set xs \<Longrightarrow> P y \<Longrightarrow> y = x"
  shows "find P xs = Some x"
proof (cases "find P xs")
  case None
  with assms(1,2) show ?thesis by (simp add: find_None_iff)
next
  case (Some y)
  then have "y \<in> set xs" "P y" by (auto simp: find_Some_iff)
  with Some assms(3) show ?thesis by blast
qed

text \<open>
  \<^verbatim>\<open>ListSummaries\<close> returns, sorted by name, one summary for each record its caller may see, and
  all of them are the caller's: the stored summaries that carry the caller's name, and a fresh
  one for every readable record that has no readable summary. It also counts the records that
  still need migration. A summary has no field for the key or the passphrase.
\<close>

theorem summaries_of_owner:
  assumes "env_ok e" "ids_match e s" "sorts_by sm_name (ve_sort_sum e)"
    and "list_summaries e s owner = (Inr (r, n), s')"
  shows "sorted (map sm_name r) \<and> list_all (\<lambda>sm. sm_owner sm = owner) r \<and>
    mset r = image_mset (\<lambda>k. the (visible e s owner k)) (mset_set (dom (visible e s owner))) \<and>
    legacy_count e s = Inr n"
proof (rule list_summaries_Inr_cases [OF assms(4)])
  fix sms known sms' bf
  assume began: "bk_begin (ve_bolt e) (vs_db s)" and r: "r = ve_sort_sum e (map snd sms')"
    and scans: "scan_summaries e owner (bk_entries (ve_bolt e) (vs_db s) summary_bucket) ([], []) = (sms, known)"
      "scan_unsummarised e s owner known (bk_entries (ve_bolt e) (vs_db s) credential_bucket) (sms, [], 0)
        = (sms', bf, n)"
  note seen = summaries_scanned [OF assms(1,2) scans]
  have m: "mset r = mset (map snd sms')" and sorted: "sorted (map sm_name r)"
    using assms(3) by (auto simp: sorts_by_def r)
  have vis: "map_of sms' = visible e s owner" using seen(2) by (rule ext)
  have "sm_owner sm = owner" if "(k, sm) \<in> set sms'" for k sm
  proof -
    have "visible e s owner k = Some sm" using that seen(1) vis by (metis map_of_eq_Some_iff)
    then show ?thesis by (auto simp: visible_def credential_summary_def split: option.splits if_splits)
  qed
  then have "list_all (\<lambda>sm. sm_owner sm = owner) r"
    using mset_eq_setD [OF m] by (auto simp: list_all_iff)
  moreover have "mset r = image_mset (\<lambda>k. the (visible e s owner k)) (mset_set (dom (visible e s owner)))"
    using m mset_values [OF seen(1)] vis by simp
  moreover have "legacy_count e s = Inr n" using began seen(3) by (simp add: legacy_count_def bolt_view_def)
  ultimately show ?thesis using sorted by simp
qed

text \<open>
  After a listing every readable record has a stored summary: those it had, and for the others
  one in the name of the first user who listed them. So the same user sees the same again, and
  another user only what was already stored in their name. The credentials are not touched.
\<close>

theorem listing_claims_records:
  assumes "env_ok e" "ids_match e s"
    and "\<forall>k c. stored_credential e s k = Some c \<longrightarrow> sum_storable (credential_summary c owner)"
    and "list_summaries e s owner = (Inr (r, n), s')"
  shows "stored_credential e s' = stored_credential e s \<and>
    visible e s' owner = visible e s owner \<and>
    (\<forall>other k sm. other \<noteq> owner \<and> visible e s' other k = Some sm \<longrightarrow>
       stored_summary e (vs_db s) k = Some sm \<and> sm_owner sm = other)"
proof (rule list_summaries_Inr_cases [OF assms(4)])
  fix sms known sms' bf
  assume s': "s' = s\<lparr>vs_db := vs_db s'\<rparr>" and wr: "write_summaries e bf (vs_db s) = Inr ((), vs_db s')"
    and scans: "scan_summaries e owner (bk_entries (ve_bolt e) (vs_db s) summary_bucket) ([], []) = (sms, known)"
      "scan_unsummarised e s owner known (bk_entries (ve_bolt e) (vs_db s) credential_bucket) (sms, [], 0)
        = (sms', bf, n)"
  note seen = summaries_scanned [OF assms(1,2) scans]
  have "list_all (sum_storable) bf" using seen(4) assms(3) by (auto simp: list_all_iff)
  note written = write_summaries_Inr [OF assms(1) wr this seen(5)]
  have cred: "stored_credential e s' = stored_credential e s"
    using written by (subst s', simp add: stored_credential_def fun_eq_iff)
  have summ: "stored_summary e (vs_db s') k = (case stored_summary e (vs_db s) k of Some sm \<Rightarrow> Some sm
      | None \<Rightarrow> map_option (\<lambda>c. credential_summary c owner) (stored_credential e s k))" for k
  proof (cases "\<exists>c. stored_summary e (vs_db s) k = None \<and> stored_credential e s k = Some c")
    case True
    then obtain c where c: "stored_summary e (vs_db s) k = None" "stored_credential e s k = Some c" by blast
    then have k: "cd_id c = k" using assms(2) by (simp add: ids_match_def)
    have "find (\<lambda>sm. sm_id sm = k) bf = Some (credential_summary c owner)"
    proof (rule find_unique)
      show "credential_summary c owner \<in> set bf" using seen(4) c k by blast
      show "sm_id (credential_summary c owner) = k" by (simp add: credential_summary_def k)
      show "sm = credential_summary c owner" if "sm \<in> set bf" "sm_id sm = k" for sm
      proof -
        from that(1) obtain d where "stored_credential e s (cd_id d) = Some d" "sm = credential_summary d owner"
          using seen(4) by blast
        with that(2) c(2) show ?thesis by (simp add: credential_summary_def)
      qed
    qed
    with written c show ?thesis by simp
  next
    case False
    then have "find (\<lambda>sm. sm_id sm = k) bf = None"
      using seen(4) by (auto simp: find_None_iff credential_summary_def)
    with written False show ?thesis by (auto split: option.splits)
  qed
  have "visible e s' owner k = visible e s owner k" for k
    by (cases "stored_summary e (vs_db s) k"; cases "stored_credential e s k")
      (simp_all add: visible_def summ cred credential_summary_def)
  moreover have "stored_summary e (vs_db s) k = Some sm \<and> sm_owner sm = other"
    if "other \<noteq> owner" "visible e s' other k = Some sm" for other k sm
    using that unfolding visible_def summ cred
    by (auto simp: credential_summary_def split: option.split_asm if_split_asm)
  ultimately show ?thesis using cred by blast
qed

section \<open>Migration\<close>

text \<open>What a record sealed in the former way holds under the former key.\<close>

definition legacy_credential :: "'db vault_env \<Rightarrow> 'db vault \<Rightarrow> bytes \<Rightarrow> bytes \<Rightarrow> bytes \<Rightarrow> credential option" where
  "legacy_credential e s key k v =
    (if is_v2 v then None
     else (case decrypt (ve_crypto e) key v k of
             Inl _ \<Rightarrow> None
           | Inr plaintext \<Rightarrow> credential_unmarshal plaintext))"

definition stored_legacy :: "'db vault_env \<Rightarrow> 'db vault \<Rightarrow> bytes \<Rightarrow> string \<Rightarrow> credential option" where
  "stored_legacy e s password k =
    Option.bind (bk_get (ve_bolt e) (vs_db s) credential_bucket k)
      (legacy_credential e s (argon2id (ve_crypto e) password (vs_salt s)) k)"

lemma migrate_record_Inr:
  assumes "env_ok e" "\<not> is_v2 v" "migrate_record e s key rnd k v = Inr w"
  shows "(w = None \<longleftrightarrow> legacy_credential e s key k v = None) \<and>
    (\<forall>x. w = Some x \<longrightarrow> is_v2 x \<and> open_record e s k x = legacy_credential e s key k v)"
proof (cases "decrypt (ve_crypto e) key v k")
  case (Inl err)
  with assms(2,3) show ?thesis by (simp add: migrate_record_def legacy_credential_def)
next
  case (Inr p)
  show ?thesis
  proof (cases "credential_unmarshal p")
    case None
    with Inr assms(2,3) show ?thesis by (simp add: migrate_record_def legacy_credential_def)
  next
    case (Some c)
    with Inr assms(3) obtain x where x: "w = Some x"
      "encrypt_v2 (ve_crypto e) (vs_master_key s) p k rnd = Inr x"
      by (auto simp: migrate_record_def result_iff)
    from encrypt_v2_Inr [OF env_okD(1) [OF assms(1)] this(2)] x(1) Inr Some assms(2) show ?thesis
      by (simp add: legacy_credential_def open_record_def decrypt_record_def)
  qed
qed

lemma scan_legacy_None:
  assumes "env_ok e" "distinct (map fst es)"
    and "scan_legacy e s key rnd es (recs, remaining) = (recs', remaining', None)"
  shows "\<exists>new. recs' = recs @ new \<and> distinct (map fst new) \<and> fst ` set new \<subseteq> fst ` set es \<and>
    remaining' = remaining + (count_legacy es - int (length new)) \<and>
    (\<forall>k. case map_of es k of
       None \<Rightarrow> map_of new k = None
     | Some v \<Rightarrow> (case legacy_credential e s key k v of
         None \<Rightarrow> map_of new k = None
       | Some c \<Rightarrow> (\<exists>w. map_of new k = Some w \<and> is_v2 w \<and> open_record e s k w = Some c)))"
  using assms(2,3)
proof (induction es arbitrary: recs remaining)
  case Nil
  then show ?case by (simp add: count_legacy_def)
next
  case (Cons kv es)
  obtain j v where kv: "kv = (j, v)" by fastforce
  have d: "distinct (map fst es)" "map_of es j = None"
    using Cons.prems(1) by (auto simp: kv map_of_eq_None_iff)
  obtain m where m: "\<not> is_v2 v \<longrightarrow> migrate_record e s key (rnd j) j v = Inr m"
    using Cons.prems(2) by (cases "is_v2 v"; cases "migrate_record e s key (rnd j) j v") (auto simp: kv)
  define one where "one = (if is_v2 v then [] else (case m of None \<Rightarrow> [] | Some w \<Rightarrow> [(j, w)]))"
  define lost where "lost = (if is_v2 v \<or> m \<noteq> None then 0 else 1 :: int)"
  have "scan_legacy e s key rnd es (recs @ one, remaining + lost) = (recs', remaining', None)"
    using Cons.prems(2) m by (auto simp: kv one_def lost_def split: if_splits option.splits)
  from Cons.IH [OF d(1) this] obtain new where new:
    "recs' = (recs @ one) @ new" "distinct (map fst new)" "fst ` set new \<subseteq> fst ` set es"
    "remaining' = remaining + lost + (count_legacy es - int (length new))"
    "\<forall>k. case map_of es k of
       None \<Rightarrow> map_of new k = None
     | Some v \<Rightarrow> (case legacy_credential e s key k v of
         None \<Rightarrow> map_of new k = None
       | Some c \<Rightarrow> (\<exists>w. map_of new k = Some w \<and> is_v2 w \<and> open_record e s k w = Some c))"
    by blast
  have j: "j \<notin> fst ` set new" using new(3) Cons.prems(1) by (auto simp: kv)
  have mig: "\<not> is_v2 v \<Longrightarrow> (m = None \<longleftrightarrow> legacy_credential e s key j v = None) \<and>
      (\<forall>x. m = Some x \<longrightarrow> is_v2 x \<and> open_record e s j x = legacy_credential e s key j v)"
    using migrate_record_Inr [OF assms(1)] m by blast
  have at_j: "case legacy_credential e s key j v of None \<Rightarrow> map_of (one @ new) j = None
      | Some c \<Rightarrow> (\<exists>w. map_of (one @ new) j = Some w \<and> is_v2 w \<and> open_record e s j w = Some c)"
  proof (cases "is_v2 v")
    case True
    then show ?thesis using j by (simp add: legacy_credential_def one_def map_of_eq_None_iff)
  next
    case False
    with mig j show ?thesis
      by (cases m; cases "legacy_credential e s key j v") (simp_all add: one_def map_of_eq_None_iff)
  qed
  have off_j: "map_of (one @ new) k = map_of new k" if "k \<noteq> j" for k
    using that by (auto simp: one_def map_add_def split: option.splits)
  have "\<forall>k. case map_of (kv # es) k of
       None \<Rightarrow> map_of (one @ new) k = None
     | Some v \<Rightarrow> (case legacy_credential e s key k v of
         None \<Rightarrow> map_of (one @ new) k = None
       | Some c \<Rightarrow> (\<exists>w. map_of (one @ new) k = Some w \<and> is_v2 w \<and> open_record e s k w = Some c))"
  proof
    fix k
    show "case map_of (kv # es) k of
       None \<Rightarrow> map_of (one @ new) k = None
     | Some v \<Rightarrow> (case legacy_credential e s key k v of
         None \<Rightarrow> map_of (one @ new) k = None
       | Some c \<Rightarrow> (\<exists>w. map_of (one @ new) k = Some w \<and> is_v2 w \<and> open_record e s k w = Some c))"
    proof (cases "k = j")
      case True
      show ?thesis using at_j unfolding True kv by simp
    next
      case False
      then have "map_of (kv # es) k = map_of es k" by (simp add: kv)
      with new(5) show ?thesis unfolding off_j [OF False] by simp
    qed
  qed
  moreover have "recs' = recs @ (one @ new)" using new(1) by simp
  moreover have "distinct (map fst (one @ new))" "fst ` set (one @ new) \<subseteq> fst ` set (kv # es)"
    using new(2,3) j by (auto simp: one_def kv split: option.splits)
  moreover have "remaining' = remaining + (count_legacy (kv # es) - int (length (one @ new)))"
    using new(4) by (auto simp: one_def lost_def kv count_legacy_def split: option.splits)
  ultimately show ?case by blast
qed

lemma write_records_Inr:
  assumes "env_ok e" "write_records e recs db = Inr ((), db')" "distinct (map fst recs)"
  shows "bk_get (ve_bolt e) db' credential_bucket k = (case map_of recs k of
      Some v \<Rightarrow> Some v | None \<Rightarrow> bk_get (ve_bolt e) db credential_bucket k) \<and>
    bk_begin (ve_bolt e) db' = bk_begin (ve_bolt e) db"
  using assms(2-)
proof (induction recs arbitrary: db)
  case Nil
  then show ?case by simp
next
  case (Cons kv recs)
  obtain j v where kv: "kv = (j, v)" by fastforce
  from Cons.prems(1) obtain db1 where db1: "bk_put (ve_bolt e) db credential_bucket j v = Some db1"
    and rest: "write_records e recs db1 = Inr ((), db')"
    by (auto simp: kv result_iff)
  have "map_of recs j = None" using Cons.prems(2) by (simp add: kv map_of_eq_None_iff)
  with Cons.IH [OF rest] Cons.prems(2) bolt_get(2) [OF env_okD(2) [OF assms(1)] db1]
    bolt_begin(2) [OF env_okD(2) [OF assms(1)] db1]
  show ?case by (auto simp: kv split: option.splits)
qed

lemma count_legacy_card:
  assumes "distinct (map fst es)"
  shows "count_legacy es = int (card {k. \<exists>v. map_of es k = Some v \<and> \<not> is_v2 v})"
proof -
  let ?l = "filter (\<lambda>(k, v). \<not> is_v2 v) es"
  have "distinct (map fst ?l)" using assms by (rule distinct_map_filter)
  then have "length ?l = card (fst ` set ?l)" by (metis distinct_card length_map set_map)
  also have "fst ` set ?l = {k. \<exists>v. map_of es k = Some v \<and> \<not> is_v2 v}"
    using assms by (force simp: map_of_eq_Some_iff)
  finally show ?thesis by (simp add: count_legacy_def)
qed

lemma migration_look:
  assumes "env_ok e"
    and "migrate_legacy_from_password e s password rnd = ((n, remaining, None), s')"
  shows "vault_look e s' k = (case stored_legacy e s password k of Some c \<Rightarrow> Some c | None \<Rightarrow> vault_look e s k) \<and>
    legacy_count e s = Inr (n + remaining) \<and> legacy_count e s' = Inr remaining"
proof -
  let ?b = "ve_bolt e"
  let ?es = "bk_entries ?b (vs_db s) credential_bucket"
  let ?key = "argon2id (ve_crypto e) password (vs_salt s)"
  note entries = bolt_entries [OF env_okD(2) [OF assms(1)]]
  obtain recs rm err where scan: "scan_legacy e s ?key rnd ?es ([], 0) = (recs, rm, err)"
    using prod_cases3 by blast
  have began: "bk_begin ?b (vs_db s)" and err: "err = None" and rm: "rm = remaining"
    and n: "n = int (length recs)" and s': "s' = s\<lparr>vs_db := vs_db s'\<rparr>"
    and wr: "write_records e recs (vs_db s) = Inr ((), vs_db s')"
    using assms(2) scan
    by (auto simp: migrate_legacy_from_password_def Let_def bolt_update_Inr_iff
        split: if_split_asm option.split_asm prod.split_asm sum.split_asm)
  from scan_legacy_None [OF assms(1) entries(1) scan [unfolded err]] have
    new: "distinct (map fst recs)" "rm = count_legacy ?es - int (length recs)" and
    got: "\<forall>k. case map_of ?es k of
       None \<Rightarrow> map_of recs k = None
     | Some v \<Rightarrow> (case legacy_credential e s ?key k v of
         None \<Rightarrow> map_of recs k = None
       | Some c \<Rightarrow> (\<exists>w. map_of recs k = Some w \<and> is_v2 w \<and> open_record e s k w = Some c))"
    by auto
  note after = write_records_Inr [OF assms(1) wr new(1)]
  have opens: "open_record e s' = open_record e s" by (subst s', simp)
  have began': "bk_begin ?b (vs_db s')" using after began by simp
  have look: "stored_credential e s' k = (case stored_legacy e s password k of Some c \<Rightarrow> Some c
      | None \<Rightarrow> stored_credential e s k)" for k
    using after [of k] got [rule_format, of k] entries(2) opens
    by (auto simp: stored_credential_def stored_legacy_def split: option.splits)
  let ?L = "{k. \<exists>v. bk_get ?b (vs_db s) credential_bucket k = Some v \<and> \<not> is_v2 v}"
  have left: "{k. \<exists>v. bk_get ?b (vs_db s') credential_bucket k = Some v \<and> \<not> is_v2 v} = ?L - fst ` set recs"
  proof (intro set_eqI)
    fix k
    show "k \<in> {k. \<exists>v. bk_get ?b (vs_db s') credential_bucket k = Some v \<and> \<not> is_v2 v}
        \<longleftrightarrow> k \<in> ?L - fst ` set recs"
      using after [of k] got [rule_format, of k] entries(2) map_of_eq_None_iff [of recs k]
      by (auto split: option.splits)
  qed
  have sub: "fst ` set recs \<subseteq> ?L"
  proof
    fix k assume "k \<in> fst ` set recs"
    then have "map_of recs k \<noteq> None" by (simp add: map_of_eq_None_iff)
    with got [rule_format, of k] entries(2) show "k \<in> ?L"
      by (auto simp: legacy_credential_def split: option.splits if_splits)
  qed
  have c: "count_legacy ?es = int (card ?L)"
    "count_legacy (bk_entries ?b (vs_db s') credential_bucket) = int (card (?L - fst ` set recs))"
    using count_legacy_card [OF entries(1)] entries(2) left by simp_all
  have "?L \<subseteq> fst ` set ?es"
    using bolt_entries_set [OF env_okD(2) [OF assms(1)]] by force
  then have fin: "finite ?L" by (rule finite_subset) simp
  have "card (fst ` set recs) = length recs"
    using new(1) by (metis distinct_card length_map set_map)
  then have "int (card (?L - fst ` set recs)) = int (card ?L) - int (length recs)"
    using card_mono [OF fin sub] by (simp add: card_Diff_subset [OF _ sub] of_nat_diff)
  then show ?thesis
    using began began' look c new(2) rm n
    by (auto simp: vault_look_eq legacy_count_def bolt_view_def split: option.splits)
qed

text \<open>
  C29: when \<^verbatim>\<open>MigrateLegacyFromPassword\<close> succeeds, every record that the former password opens now
  reads as the same credential under the master key, every other identifier reads as before, the
  two counts add up to the records that needed migration, and those left still do.
\<close>

theorem migration_preserves_credentials:
  assumes "env_ok e"
    and "migrate_legacy_from_password e s password rnd = ((n, remaining, None), s')"
  shows "vault_look e s' k = (case stored_legacy e s password k of Some c \<Rightarrow> Some c | None \<Rightarrow> vault_look e s k) \<and>
    legacy_count e s = Inr (n + remaining) \<and> legacy_count e s' = Inr remaining"
  by (rule migration_look [OF assms])

section \<open>Witnesses\<close>

lemma sorts_by_sort_key: "sorts_by f (sort_key f)"
  by (simp add: sorts_by_def)

definition sample_unowned :: "memory_db vault" where
  "sample_unowned = snd (vault_put vault_sample_env empty_vault sample_cred 1000 sample_nonce sample_nonce)"

lemma sample_unowned_put:
  "store_credential vault_sample_env empty_vault [] sample_stored sample_nonce = (Inr sample_stored, sample_unowned)"
proof -
  have "stamp vault_sample_env empty_vault sample_cred 1000 sample_nonce = sample_stored" by code_simp
  moreover have "fst (vault_put vault_sample_env empty_vault sample_cred 1000 sample_nonce sample_nonce)
      = Inr sample_stored" by code_simp
  ultimately show ?thesis
    by (simp add: sample_unowned_def vault_put_def put_for_user_def prod_eq_iff)
qed

lemma sample_unowned_stored:
  "stored_credential vault_sample_env sample_unowned k = (if k = cd_id sample_stored then Some sample_stored else None)"
  using store_credential_Inr(4) [OF vault_sample_env_ok sample_unowned_put sample_stored_storable, of k]
  by (simp add: stored_credential_def empty_vault_def vault_sample_env_def memory_bolt_def)

lemma sample_unowned_ids: "ids_match vault_sample_env sample_unowned"
  by (simp add: ids_match_def sample_unowned_stored)

theorem list_available_complete_witness:
  "vault_list vault_sample_env sample_unowned = Inr [sample_stored]"
proof -
  have l: "list_available vault_sample_env sample_unowned = Inr ([sample_stored], 0)" by code_simp
  have "sorts_by cd_name (ve_sort_cred vault_sample_env)"
    by (simp add: vault_sample_env_def sorts_by_sort_key)
  from list_available_complete [OF vault_sample_env_ok this l] show ?thesis by simp
qed

definition sample_listing :: "(vault_error + summary list \<times> int) \<times> memory_db vault" where
  "sample_listing = list_summaries vault_sample_env sample_unowned ''admin''"

lemma sample_listing_eq:
  "list_summaries vault_sample_env sample_unowned ''admin''
     = (Inr ([credential_summary sample_stored ''admin''], 0), snd sample_listing)"
proof -
  have "fst sample_listing = Inr ([credential_summary sample_stored ''admin''], 0)" by code_simp
  then show ?thesis by (simp add: sample_listing_def prod_eq_iff)
qed

theorem summaries_of_owner_witness:
  "mset [credential_summary sample_stored ''admin''] =
     image_mset (\<lambda>k. the (visible vault_sample_env sample_unowned ''admin'' k))
       (mset_set (dom (visible vault_sample_env sample_unowned ''admin'')))"
proof -
  have "sorts_by sm_name (ve_sort_sum vault_sample_env)"
    by (simp add: vault_sample_env_def sorts_by_sort_key)
  from summaries_of_owner [OF vault_sample_env_ok sample_unowned_ids this sample_listing_eq]
  show ?thesis by blast
qed

lemma sample_summary_storable: "sum_storable (credential_summary sample_stored ''admin'')"
  by code_simp

theorem listing_claims_records_witness:
  "visible vault_sample_env (snd sample_listing) ''admin'' (cd_id sample_stored)
     = Some (credential_summary sample_stored ''admin'') \<and>
   visible vault_sample_env (snd sample_listing) ''guest'' (cd_id sample_stored) = None"
proof -
  have st: "\<forall>k c. stored_credential vault_sample_env sample_unowned k = Some c \<longrightarrow>
      sum_storable (credential_summary c ''admin'')"
    using sample_summary_storable by (simp add: sample_unowned_stored)
  note claims = listing_claims_records [OF vault_sample_env_ok sample_unowned_ids st sample_listing_eq]
  have none: "stored_summary vault_sample_env (vs_db sample_unowned) (cd_id sample_stored) = None" by code_simp
  then have "visible vault_sample_env sample_unowned ''admin'' (cd_id sample_stored)
      = Some (credential_summary sample_stored ''admin'')"
    by (simp add: visible_def sample_unowned_stored)
  moreover have "visible vault_sample_env (snd sample_listing) ''guest'' (cd_id sample_stored) = None"
  proof (rule ccontr)
    assume "visible vault_sample_env (snd sample_listing) ''guest'' (cd_id sample_stored) \<noteq> None"
    then obtain sm where "visible vault_sample_env (snd sample_listing) ''guest'' (cd_id sample_stored) = Some sm"
      by blast
    moreover have "''guest'' \<noteq> ''admin''" by simp
    ultimately have "stored_summary vault_sample_env (vs_db sample_unowned) (cd_id sample_stored) = Some sm"
      using claims [THEN conjunct2, THEN conjunct2, rule_format, OF conjI] by (simp only:)
    with none show False by simp
  qed
  moreover have "visible vault_sample_env (snd sample_listing) ''admin''
      = visible vault_sample_env sample_unowned ''admin''"
    by (rule claims [THEN conjunct2, THEN conjunct1])
  ultimately show ?thesis by simp
qed

text \<open>A vault with one record sealed under the password \<^verbatim>\<open>pw\<close> and one that nothing opens.\<close>

definition sample_legacy :: "memory_db vault" where
  "sample_legacy = empty_vault\<lparr>vs_db := (True, (\<lambda>_. [])(credential_bucket :=
     [(cd_id sample_stored,
       the (case encrypt sample_crypto (argon2id sample_crypto ''pw'' (vs_salt empty_vault))
              (the (credential_marshal sample_stored)) (cd_id sample_stored) sample_nonce of
              Inr v \<Rightarrow> Some v | Inl _ \<Rightarrow> None)),
      (''junk'', ''junk'')]))\<rparr>"

theorem migration_preserves_credentials_witness:
  "legacy_count vault_sample_env sample_legacy = Inr 2 \<and>
   vault_look vault_sample_env sample_legacy (cd_id sample_stored) = None \<and>
   vault_look vault_sample_env (snd (migrate_legacy_from_password vault_sample_env sample_legacy ''pw''
       (\<lambda>_. sample_nonce))) (cd_id sample_stored) = Some sample_stored"
proof -
  let ?m = "migrate_legacy_from_password vault_sample_env sample_legacy ''pw'' (\<lambda>_. sample_nonce)"
  have "fst ?m = (1, 1, None)" by code_simp
  then have "?m = ((1, 1, None), snd ?m)" by (simp add: prod_eq_iff)
  from migration_preserves_credentials [OF vault_sample_env_ok this, of "cd_id sample_stored"]
  have "legacy_count vault_sample_env sample_legacy = Inr 2"
    and "vault_look vault_sample_env (snd ?m) (cd_id sample_stored) =
      (case stored_legacy vault_sample_env sample_legacy ''pw'' (cd_id sample_stored) of
         Some c \<Rightarrow> Some c | None \<Rightarrow> vault_look vault_sample_env sample_legacy (cd_id sample_stored))" by simp_all
  moreover have "stored_legacy vault_sample_env sample_legacy ''pw'' (cd_id sample_stored) = Some sample_stored"
    by code_simp
  moreover have "vault_look vault_sample_env sample_legacy (cd_id sample_stored) = None" by code_simp
  ultimately show ?thesis by simp
qed

end
