(* ===== verification/Vault_Open.thy ===== *)
theory Vault_Open
  imports Vault
begin

text \<open>
  Opening the credential vault: the master key, the fingerprint that ties it to the database, and
  opening again.
\<close>

definition meta_of :: "'db vault_env \<Rightarrow> 'db \<Rightarrow> bytes \<Rightarrow> bytes" where
  "meta_of e db k = stored_bytes (ve_bolt e) db meta_bucket k"

lemma rand_read_not_Nil: "rand_read n rnd = Some b \<Longrightarrow> 0 < n \<Longrightarrow> b \<noteq> []"
  using rand_read_length by fastforce

lemma create_buckets_Inr:
  assumes "bolt_laws b" "create_buckets b db = Inr db'"
  shows "bk_get b db' n k = bk_get b db n k" "bk_begin b db' = bk_begin b db"
proof -
  from assms(2) obtain db1 db2 where "bk_bucket b db meta_bucket = Some db1"
    "bk_bucket b db1 credential_bucket = Some db2" "bk_bucket b db2 summary_bucket = Some db'"
    by (auto simp: create_buckets_def result_iff)
  with bolt_get(1) [OF assms(1)] bolt_begin(1) [OF assms(1)]
  show "bk_get b db' n k = bk_get b db n k" "bk_begin b db' = bk_begin b db" by metis+
qed

text \<open>The first transaction keeps a salt and a fingerprint that are there.\<close>

lemma initialise_Inr:
  assumes "env_ok e" "initialise (ve_bolt e) rnd db = Inr ((salt, fp), db')"
  shows "salt \<noteq> []" "meta_of e db' salt_key = salt" "meta_of e db' fingerprint_key = fp"
    and "meta_of e db fingerprint_key = fp" "meta_of e db salt_key \<noteq> [] \<Longrightarrow> salt = meta_of e db salt_key"
proof -
  let ?b = "ve_bolt e"
  note laws = env_okD(2) [OF assms(1)]
  from assms(2) obtain db1 where db1: "create_buckets ?b db = Inr db1"
    and cases: "stored_bytes ?b db1 meta_bucket salt_key \<noteq> [] \<and> db' = db1 \<and>
        salt = stored_bytes ?b db1 meta_bucket salt_key \<and> fp = stored_bytes ?b db1 meta_bucket fingerprint_key
      \<or> stored_bytes ?b db1 meta_bucket salt_key = [] \<and> rand_read 16 rnd = Some salt \<and>
        bk_put ?b db1 meta_bucket salt_key salt = Some db' \<and> fp = stored_bytes ?b db' meta_bucket fingerprint_key"
    by (auto simp: initialise_def result_iff Let_def split: if_splits)
  have same: "stored_bytes ?b db1 n k = stored_bytes ?b db n k" for n k
    using create_buckets_Inr [OF laws db1] by (simp add: stored_bytes_def)
  have put: "stored_bytes ?b db' n k = (if n = meta_bucket \<and> k = salt_key then salt else stored_bytes ?b db n k)"
    if "bk_put ?b db1 meta_bucket salt_key salt = Some db'" for n k
    using bolt_get(2) [OF laws that] same [of n k] by (simp add: stored_bytes_def)
  show "salt \<noteq> []" "meta_of e db' salt_key = salt" "meta_of e db' fingerprint_key = fp"
    and "meta_of e db fingerprint_key = fp" "meta_of e db salt_key \<noteq> [] \<Longrightarrow> salt = meta_of e db salt_key"
    using cases same put rand_read_not_Nil [of 16 rnd salt] by (auto simp: meta_of_def)
qed

lemma put_fingerprint_Inr:
  assumes "env_ok e" "put_fingerprint (ve_bolt e) fp db = Inr ((), db')"
  shows "meta_of e db' k = (if k = fingerprint_key then fp else meta_of e db k)"
  using assms bolt_get(2) [OF env_okD(2) [OF assms(1)]]
  by (auto simp: put_fingerprint_def result_iff meta_of_def stored_bytes_def)

text \<open>Only a vault without a fingerprint creates a key file, and it creates the one it will read.\<close>

lemma load_master_key_keeps_files: "snd (load_master_key k opts False fs) = fs"
  by (simp add: load_master_key_def split: option.splits)

lemma hex_encode_plain: "c \<in> set (hex_encode b) \<Longrightarrow> plain_char c"
proof -
  have "list_all (\<lambda>n. plain_char (hex_char n)) [0..<16]" by code_simp
  then show "c \<in> set (hex_encode b) \<Longrightarrow> plain_char c"
    using hex_encode_not_space [of c b] by (auto simp: list_all_iff)
qed

lemma decode_encoded_key:
  assumes "length key = 32"
  shows "decode_master_key (hex_encode key @ [CHR 0x0A]) = Inr key"
proof -
  have h: "hex_encode key \<noteq> []" using assms by (cases key) auto
  then have "plain_char (hd (hex_encode key))" "plain_char (last (hex_encode key))"
    using hex_encode_plain [OF hd_in_set] hex_encode_plain [OF last_in_set] by blast+
  with h have "trim_space (hex_encode key @ [CHR 0x0A]) = hex_encode key"
    by (metis trim_space_newline trim_space_plain)
  with assms show ?thesis by (simp add: decode_master_key_def hex_roundtrip)
qed

lemma create_master_key_Inr:
  assumes "create_master_key k path fs = (Inr key, fs')"
  shows "length key = 32 \<and> fs' = fs(path \<mapsto> hex_encode key @ [CHR 0x0A])"
  using assms rand_read_length by (auto simp: create_master_key_def split: option.splits if_splits)

lemma decode_master_key_length: "decode_master_key v = Inr key \<Longrightarrow> length key = 32"
  by (auto simp: decode_master_key_def split: option.splits if_splits)

text \<open>The files left by a successful load give the same key to a later run.\<close>

lemma load_master_key_again:
  assumes "load_master_key k opts allow fs = (Inr key, fs')"
    and "ke_lstat_ok k2" "\<not> ke_symlink k2" "ke_read_ok k2" "ke_chmod_key k2"
  shows "length key = 32 \<and> load_master_key k2 opts allow2 fs' = (Inr key, fs')"
proof (cases "trim_space (oo_key_hex opts) \<noteq> []")
  case True
  with assms(1) show ?thesis by (auto simp: load_master_key_def decode_master_key_length)
next
  case False
  show ?thesis
  proof (cases "fs (oo_key_file opts)")
    case None
    with False assms(1) have "create_master_key k (oo_key_file opts) fs = (Inr key, fs')"
      by (auto simp: load_master_key_def split: if_splits)
    from create_master_key_Inr [OF this] False assms(2-) show ?thesis
      by (simp add: load_master_key_def decode_encoded_key)
  next
    case (Some raw)
    with False assms(1) have "decode_master_key raw = Inr key" "fs' = fs"
      by (auto simp: load_master_key_def split: if_splits)
    with False Some assms(2-) show ?thesis
      by (simp add: load_master_key_def decode_master_key_length)
  qed
qed

lemma vault_open_Inr:
  assumes "env_ok e" "vault_open e k path options db fs = (Inr s, db', fs')"
  obtains db1 stored where
    "bolt_update (ve_bolt e) db (initialise (ve_bolt e) (ke_salt_rand k)) = (Inr (vs_salt s, stored), db1)"
    "load_master_key k (effective_options path options) (stored = []) fs = (Inr (vs_master_key s), fs')"
    "vs_db s = db'" "meta_of e db fingerprint_key = stored"
    "stored \<noteq> [] \<Longrightarrow> stored = sha256 (ve_crypto e) (vs_master_key s)"
    "stored \<noteq> [] \<Longrightarrow> db' = db1"
    "meta_of e db' fingerprint_key = sha256 (ve_crypto e) (vs_master_key s)"
    "vs_salt s \<noteq> []" "meta_of e db' salt_key = vs_salt s"
    "meta_of e db salt_key \<noteq> [] \<Longrightarrow> vs_salt s = meta_of e db salt_key"
proof -
  let ?b = "ve_bolt e"
  let ?opts = "effective_options path options"
  have op: "ke_open_ok k" using assms(2) by (auto simp: vault_open_def Let_def split: if_splits)
  obtain r db1 where up: "bolt_update ?b db (initialise ?b (ke_salt_rand k)) = (r, db1)" by fastforce
  obtain salt stored where r: "r = Inr (salt, stored)"
    using assms(2) op up by (cases r) (auto simp: vault_open_def Let_def)
  have ch: "ke_chmod_db k" using assms(2) op up r by (auto simp: vault_open_def Let_def split: if_splits)
  obtain q fs1 where load: "load_master_key k ?opts (stored = []) fs = (q, fs1)" by fastforce
  obtain key where q: "q = Inr key"
    using assms(2) op up r ch load by (cases q) (auto simp: vault_open_def Let_def)
  note steps = assms(2) [unfolded vault_open_def Let_def] op up r ch load q
  from up r have init: "initialise ?b (ke_salt_rand k) db = Inr ((salt, stored), db1)"
    by (simp add: bolt_update_Inr_iff)
  note i = initialise_Inr [OF assms(1) init]
  show ?thesis
  proof (cases "stored = []")
    case True
    obtain u db2 where put: "bolt_update ?b db1 (put_fingerprint ?b (sha256 (ve_crypto e) key)) = (u, db2)"
      by fastforce
    with steps True have "u = Inr ()" "s = \<lparr>vs_db = db2, vs_salt = salt, vs_master_key = key\<rparr>" "db' = db2" "fs' = fs1"
      by (cases u; simp)+
    with put put_fingerprint_Inr [OF assms(1)] True i up r load q show ?thesis
      by (intro that [of stored db1]) (auto simp: bolt_update_Inr_iff)
  next
    case False
    with steps have "stored = sha256 (ve_crypto e) key"
      "s = \<lparr>vs_db = db1, vs_salt = salt, vs_master_key = key\<rparr>" "db' = db1" "fs' = fs1"
      by (auto split: if_splits)
    with False i up r load q show ?thesis by (intro that [of stored db1]) auto
  qed
qed

text \<open>
  C19: opening a vault ties the master key to the database. Once a database has been opened, every
  later successful opening, under whatever path, options, files and salt source, uses a key with
  the same SHA-256 and the same salt, and creates no key file; and whether or not it succeeds, an
  opening of a database that has a fingerprint leaves the files alone.
\<close>

theorem opened_key_is_bound:
  assumes "env_ok e" "vault_open e k path options db fs = (Inr s, db', fs')"
    and "bk_get (ve_bolt e) db2 meta_bucket = bk_get (ve_bolt e) db' meta_bucket"
    and "vault_open e k2 path2 options2 db2 fs2 = (Inr s2, db2', fs2')"
  shows "sha256 (ve_crypto e) (vs_master_key s2) = sha256 (ve_crypto e) (vs_master_key s) \<and>
    vs_salt s2 = vs_salt s \<and> fs2' = fs2"
proof (rule vault_open_Inr [OF assms(1,2)])
  assume fp: "meta_of e db' fingerprint_key = sha256 (ve_crypto e) (vs_master_key s)"
    and salt: "meta_of e db' salt_key = vs_salt s" "vs_salt s \<noteq> []"
  have same: "meta_of e db2 key = meta_of e db' key" for key
    using assms(3) by (simp add: meta_of_def stored_bytes_def)
  have not_Nil: "sha256 (ve_crypto e) (vs_master_key s) \<noteq> []"
    using crypto_lengths(1) [OF env_okD(1) [OF assms(1)]] by (metis list.size(3) zero_neq_numeral)
  show ?thesis
  proof (rule vault_open_Inr [OF assms(1,4)])
    fix stored
    assume load: "load_master_key k2 (effective_options path2 options2) (stored = []) fs2 = (Inr (vs_master_key s2), fs2')"
      and stored: "meta_of e db2 fingerprint_key = stored"
        "stored \<noteq> [] \<Longrightarrow> stored = sha256 (ve_crypto e) (vs_master_key s2)"
      and salt2: "meta_of e db2 salt_key \<noteq> [] \<Longrightarrow> vs_salt s2 = meta_of e db2 salt_key"
    have "stored = sha256 (ve_crypto e) (vs_master_key s)" using stored(1) fp same by simp
    moreover from this not_Nil have "stored \<noteq> []" by simp
    moreover from this have "fs2' = fs2" using load load_master_key_keeps_files
      by (metis (full_types) snd_conv)
    ultimately show ?thesis using stored(2) salt2 salt same by simp
  qed
qed

text \<open>
  C30: a vault that was opened opens again, from the files left, with the same master key, whether
  the key was given, read or freshly created: as long as the database transaction and the system
  calls succeed.
\<close>

theorem vault_reopens:
  assumes "env_ok e" "vault_open e k path options db fs = (Inr s, db', fs')"
    and "ke_open_ok k2" "ke_chmod_db k2" "ke_lstat_ok k2" "\<not> ke_symlink k2" "ke_read_ok k2" "ke_chmod_key k2"
    and "fst (bolt_update (ve_bolt e) db' (initialise (ve_bolt e) (ke_salt_rand k2))) = Inr r"
  shows "\<exists>s2 db2. vault_open e k2 path options db' fs' = (Inr s2, db2, fs') \<and>
    vs_master_key s2 = vs_master_key s \<and> vs_salt s2 = vs_salt s \<and> length (vs_master_key s) = 32"
proof (rule vault_open_Inr [OF assms(1,2)])
  fix stored
  assume load: "load_master_key k (effective_options path options) (stored = []) fs = (Inr (vs_master_key s), fs')"
    and fp: "meta_of e db' fingerprint_key = sha256 (ve_crypto e) (vs_master_key s)"
    and salt: "meta_of e db' salt_key = vs_salt s" "vs_salt s \<noteq> []"
  obtain salt2 stored2 db2 where
    up: "bolt_update (ve_bolt e) db' (initialise (ve_bolt e) (ke_salt_rand k2)) = (Inr (salt2, stored2), db2)"
    using assms(9) by (cases r) (metis prod.collapse)
  then have "initialise (ve_bolt e) (ke_salt_rand k2) db' = Inr ((salt2, stored2), db2)"
    by (simp add: bolt_update_Inr_iff)
  from initialise_Inr [OF assms(1) this] fp salt
  have st: "stored2 = sha256 (ve_crypto e) (vs_master_key s)" "salt2 = vs_salt s" by simp_all
  have "stored2 \<noteq> []"
    using st(1) crypto_lengths(1) [OF env_okD(1) [OF assms(1)]] by (metis list.size(3) zero_neq_numeral)
  with load_master_key_again [OF load assms(5-8), of False] up st assms(3,4)
  show ?thesis by (simp add: vault_open_def Let_def)
qed

definition key_env_ok :: "bytes option \<Rightarrow> key_env" where
  "key_env_ok rnd =
    \<lparr>ke_open_ok = True, ke_chmod_db = True, ke_salt_rand = rnd, ke_lstat_ok = True, ke_symlink = False,
     ke_read_ok = True, ke_chmod_key = True, ke_rand = rnd, ke_create_ok = True, ke_write_ok = True,
     ke_sync_ok = True, ke_close_ok = True, ke_left = None\<rparr>"

definition sample_open ::
  "memory_db \<Rightarrow> files \<Rightarrow> (vault_error + memory_db vault) \<times> memory_db \<times> files" where
  "sample_open db fs = vault_open vault_sample_env (key_env_ok sample_nonce) ''v.db'' [] db fs"

definition first_open :: "(vault_error + memory_db vault) \<times> memory_db \<times> files" where
  "first_open = sample_open (True, \<lambda>_. []) (\<lambda>_. None)"

definition second_open :: "(vault_error + memory_db vault) \<times> memory_db \<times> files" where
  "second_open = sample_open (fst (snd first_open)) (snd (snd first_open))"

lemma first_open_ok: "case fst first_open of Inl _ \<Rightarrow> False | Inr s \<Rightarrow> length (vs_master_key s) = 32"
  by code_simp

lemma second_open_ok: "case fst second_open of Inl _ \<Rightarrow> False | Inr s \<Rightarrow> length (vs_master_key s) = 32"
  by code_simp

lemma open_splits:
  assumes "case fst p of Inl _ \<Rightarrow> False | Inr s \<Rightarrow> length (vs_master_key s) = 32"
  obtains s where "p = (Inr s, fst (snd p), snd (snd p))"
  using assms by (cases p; cases "fst p") auto

theorem opened_key_is_bound_witness:
  "\<exists>s s2. fst first_open = Inr s \<and> fst second_open = Inr s2 \<and> vs_salt s2 = vs_salt s"
proof -
  obtain s where s: "first_open = (Inr s, fst (snd first_open), snd (snd first_open))"
    using open_splits [OF first_open_ok] .
  obtain s2 where s2: "second_open = (Inr s2, fst (snd second_open), snd (snd second_open))"
    using open_splits [OF second_open_ok] .
  have "vs_salt s2 = vs_salt s"
    using opened_key_is_bound [OF vault_sample_env_ok s [unfolded first_open_def sample_open_def] refl
      s2 [unfolded second_open_def sample_open_def first_open_def]] by blast
  with s s2 show ?thesis by (metis fst_conv)
qed

theorem vault_reopens_witness:
  "\<exists>s s2. fst first_open = Inr s \<and> fst second_open = Inr s2 \<and> vs_master_key s2 = vs_master_key s"
proof -
  obtain s where s: "first_open = (Inr s, fst (snd first_open), snd (snd first_open))"
    using open_splits [OF first_open_ok] .
  let ?i = "bolt_update (ve_bolt vault_sample_env) (fst (snd first_open))
    (initialise (ve_bolt vault_sample_env) (ke_salt_rand (key_env_ok sample_nonce)))"
  have "case fst ?i of Inl _ \<Rightarrow> False | Inr r \<Rightarrow> True" by code_simp
  then obtain r where r: "fst ?i = Inr r" by (auto split: sum.splits)
  have "\<exists>s2 db2. sample_open (fst (snd first_open)) (snd (snd first_open)) = (Inr s2, db2, snd (snd first_open))
      \<and> vs_master_key s2 = vs_master_key s \<and> vs_salt s2 = vs_salt s \<and> length (vs_master_key s) = 32"
    unfolding sample_open_def
    by (rule vault_reopens [OF vault_sample_env_ok s [unfolded first_open_def sample_open_def], folded sample_open_def first_open_def])
      (use r in \<open>simp_all add: key_env_ok_def\<close>)
  with s show ?thesis unfolding second_open_def by (metis fst_conv)
qed

end
