(* ===== verification/Ssh_Client.thy ===== *)
theory Ssh_Client
  imports Go_Netip
begin

text \<open>
  \<^verbatim>\<open>internal/sshclient/client.go\<close>: opening an SSH connection with a shell. The SSH library is not
  part of the repository: its answers are the fields of \<open>ssh_lib\<close>, over arbitrary types of keys
  and connections. What the code does to the outside is recorded as a list of actions, in order.
\<close>

section \<open>Data\<close>

record connect_request =
  rq_host :: string
  rq_port :: int
  rq_username :: string
  rq_private_key :: string
  rq_passphrase :: string
  rq_term :: string
  rq_cols :: int
  rq_rows :: int
  rq_use_herdr :: bool
  rq_herdr_session :: string

text \<open>\<^verbatim>\<open>CodedError\<close>, \<^verbatim>\<open>security.HostKeyError\<close>, and any other error by its text.\<close>

datatype ssh_error = CodedError string string | HostKeyError string string | OtherError string

text \<open>A key that does not parse: \<^verbatim>\<open>PassphraseMissingError\<close> or another error, with its text.\<close>

datatype key_error = PassphraseMissing (key_error_text: string) | KeyError (key_error_text: string)

text \<open>A dialling error: its text, and its \<^verbatim>\<open>Unwrap\<close> chain from the outside in, with type names.\<close>

datatype dial_error = DialError (dial_text: string) (dial_chain: "(string \<times> ssh_error) list")

datatype ssh_action =
    Dial string string duration
  | OpenClient
  | RunProbe string
  | OpenSession
  | RequestPty string int int
  | StartShell
  | WriteStdin string
  | CloseSession
  | CloseClient
  | ChangeWindow int int

record ('signer, 'client) ssh_lib =
  sl_parse_key :: "string \<Rightarrow> key_error + 'signer"
  sl_parse_key_with :: "string \<Rightarrow> string \<Rightarrow> key_error + 'signer"
  sl_dial :: "string \<Rightarrow> string \<Rightarrow> 'signer \<Rightarrow> duration \<Rightarrow> dial_error + 'client"
  sl_probe :: "'client \<Rightarrow> bool"
  sl_run :: "'client \<Rightarrow> string \<Rightarrow> bool"
  sl_session :: "'client \<Rightarrow> bool"
  sl_stdin :: "'client \<Rightarrow> bool"
  sl_stdout :: "'client \<Rightarrow> bool"
  sl_stderr :: "'client \<Rightarrow> bool"
  sl_pty :: "'client \<Rightarrow> string \<Rightarrow> int \<Rightarrow> int \<Rightarrow> bool"
  sl_shell :: "'client \<Rightarrow> bool"
  sl_write :: "'client \<Rightarrow> string \<Rightarrow> bool"

record 'client ssh_session =
  ss_client :: 'client
  ss_herdr_active :: bool
  ss_herdr_session :: string

section \<open>Private keys\<close>

definition passphrase_required :: ssh_error where
  "passphrase_required = CodedError ''PRIVATE_KEY_PASSPHRASE_REQUIRED'' ''private key passphrase is required''"

definition map_private_key_error :: "string \<Rightarrow> ssh_error" where
  "map_private_key_error text =
    (let msg = to_lower text in
     if contains msg ''passphrase'' \<or> contains msg ''decryption''
        \<or> contains msg ''x509: decryption password incorrect''
     then CodedError ''PRIVATE_KEY_PASSPHRASE_INVALID'' ''private key passphrase is incorrect''
     else CodedError ''PRIVATE_KEY_INVALID'' ''private key is invalid or unsupported'')"

definition parse_signer :: "('g, 'c) ssh_lib \<Rightarrow> string \<Rightarrow> string \<Rightarrow> ssh_error + 'g" where
  "parse_signer lib private_key passphrase =
    (if passphrase \<noteq> [] then
       (case sl_parse_key_with lib private_key passphrase of
          Inl err \<Rightarrow> Inl (map_private_key_error (key_error_text err))
        | Inr signer \<Rightarrow> Inr signer)
     else
       (case sl_parse_key lib private_key of
          Inl (PassphraseMissing _) \<Rightarrow> Inl passphrase_required
        | Inl (KeyError msg) \<Rightarrow> Inl (map_private_key_error msg)
        | Inr signer \<Rightarrow> Inr signer))"

section \<open>Connecting\<close>

definition unwrap_host_key :: "dial_error \<Rightarrow> ssh_error option" where
  "unwrap_host_key err = map_option snd (find (\<lambda>(t, _). contains t ''HostKeyError'') (dial_chain err))"

definition map_dial_error :: "string \<Rightarrow> ssh_error" where
  "map_dial_error text =
    (let lower = to_lower text in
     if contains lower ''unable to authenticate'' \<or> contains lower ''no supported methods remain''
        \<or> contains lower ''permission denied''
     then CodedError ''SSH_AUTH_FAILED'' ''SSH authentication failed''
     else if contains lower ''i/o timeout'' \<or> contains lower ''timeout'' \<or> contains lower ''timed out''
     then CodedError ''SSH_CONNECT_TIMEOUT'' ''SSH connection timed out''
     else CodedError ''SSH_CONNECT_FAILED'' ''SSH connection failed'')"

definition session_failed :: "string \<Rightarrow> ssh_error" where
  "session_failed msg = CodedError ''SSH_SESSION_FAILED'' msg"

definition herdr_attach :: "string \<Rightarrow> string" where
  "herdr_attach name = ''herdr session attach '' @ name @ [CHR 0x0D]"

text \<open>A session of its own runs the probe and is closed again.\<close>

definition herdr_probe :: string where
  "herdr_probe = ''command -v herdr >/dev/null 2>&1''"

definition herdr_available :: "('g, 'c) ssh_lib \<Rightarrow> 'c \<Rightarrow> bool \<times> ssh_action list" where
  "herdr_available lib client =
    (if \<not> sl_probe lib client then (False, [])
     else (sl_run lib client herdr_probe, [OpenSession, RunProbe herdr_probe, CloseSession]))"

text \<open>What \<^verbatim>\<open>Connect\<close> does on an open client, from \<^verbatim>\<open>herdrAvailable\<close> on.\<close>

definition start_shell ::
  "('g, 'c) ssh_lib \<Rightarrow> connect_request \<Rightarrow> string \<Rightarrow> int \<Rightarrow> int \<Rightarrow> 'c \<Rightarrow>
   (ssh_error + 'c ssh_session) \<times> ssh_action list" where
  "start_shell lib req trm rows cols client =
    (let herdr = (if rq_use_herdr req then herdr_available lib client else (False, []));
         herdr_active = fst herdr;
         probe = snd herdr;
         undo = [CloseSession, CloseClient];
         pty = probe @ [OpenSession, RequestPty trm rows cols];
         attach = herdr_attach (rq_herdr_session req);
         ok = Inr \<lparr>ss_client = client, ss_herdr_active = herdr_active, ss_herdr_session = rq_herdr_session req\<rparr>
     in
     if \<not> sl_session lib client then (Inl (session_failed ''failed to create SSH session''), probe @ [CloseClient])
     else if \<not> sl_stdin lib client then (Inl (session_failed ''failed to open SSH stdin''), probe @ [OpenSession] @ undo)
     else if \<not> sl_stdout lib client then (Inl (session_failed ''failed to open SSH stdout''), probe @ [OpenSession] @ undo)
     else if \<not> sl_stderr lib client then (Inl (session_failed ''failed to open SSH stderr''), probe @ [OpenSession] @ undo)
     else if \<not> sl_pty lib client trm rows cols then (Inl (session_failed ''failed to request PTY''), pty @ undo)
     else if \<not> sl_shell lib client then (Inl (session_failed ''failed to start shell''), pty @ [StartShell] @ undo)
     else if herdr_active \<and> rq_herdr_session req \<noteq> [] then
       (if sl_write lib client attach then (ok, pty @ [StartShell, WriteStdin attach])
        else (Inl (session_failed ''failed to start recoverable Herdr session''),
              pty @ [StartShell, WriteStdin attach] @ undo))
     else (ok, pty @ [StartShell]))"

definition connect ::
  "('g, 'c) ssh_lib \<Rightarrow> connect_request \<Rightarrow> duration \<Rightarrow> (ssh_error + 'c ssh_session) \<times> ssh_action list" where
  "connect lib req timeout0 =
    (if trim_space (rq_private_key req) = [] then
       (Inl (CodedError ''PRIVATE_KEY_REQUIRED'' ''private key is required''), [])
     else if length (rq_private_key req) > 256 * 1024 then
       (Inl (CodedError ''PRIVATE_KEY_TOO_LARGE'' ''private key is too large''), [])
     else (case parse_signer lib (rq_private_key req) (rq_passphrase req) of
       Inl err \<Rightarrow> (Inl err, [])
     | Inr signer \<Rightarrow>
         let trm = (if rq_term req = [] then ''xterm-256color'' else rq_term req);
             rows = (if rq_rows req < 5 then 24 else rq_rows req);
             cols = (if rq_cols req < 20 then 80 else rq_cols req);
             timeout = (if timeout0 \<le> 0 then 15 * second else timeout0);
             addr = join_host_port (rq_host req) (itoa (rq_port req))
         in (case sl_dial lib addr (rq_username req) signer timeout of
               Inl err \<Rightarrow>
                 (Inl (case unwrap_host_key err of Some he \<Rightarrow> he | None \<Rightarrow> map_dial_error (dial_text err)),
                  [Dial addr (rq_username req) timeout])
             | Inr client \<Rightarrow>
                 (case start_shell lib req trm rows cols client of
                    (r, acts) \<Rightarrow> (r, Dial addr (rq_username req) timeout # OpenClient # acts)))))"

text \<open>\<^verbatim>\<open>WindowChange\<close> and \<^verbatim>\<open>Close\<close> of a session that may be nil.\<close>

definition window_change :: "'c ssh_session option \<Rightarrow> int \<Rightarrow> int \<Rightarrow> ssh_action list" where
  "window_change s rows cols = (case s of None \<Rightarrow> [] | Some _ \<Rightarrow> [ChangeWindow rows cols])"

definition close_session :: "'c ssh_session option \<Rightarrow> ssh_action list" where
  "close_session s = (case s of None \<Rightarrow> [] | Some _ \<Rightarrow> [CloseSession, CloseClient])"

section \<open>Resources\<close>

text \<open>The clients and sessions still open after some actions, from those open before.\<close>

fun open_after :: "int \<times> int \<Rightarrow> ssh_action list \<Rightarrow> int \<times> int" where
  "open_after x [] = x"
| "open_after (clients, sessions) (OpenClient # as) = open_after (clients + 1, sessions) as"
| "open_after (clients, sessions) (OpenSession # as) = open_after (clients, sessions + 1) as"
| "open_after (clients, sessions) (CloseSession # as) = open_after (clients, sessions - 1) as"
| "open_after (clients, sessions) (CloseClient # as) = open_after (clients - 1, sessions) as"
| "open_after x (a # as) = open_after x as"

lemma open_after_append: "open_after x (as @ bs) = open_after (open_after x as) bs"
  by (induction x as rule: open_after.induct) simp_all

lemma start_shell_resources:
  assumes "start_shell lib req trm rows cols client = (r, acts)"
  shows "open_after (c, n) acts = (case r of Inl _ \<Rightarrow> (c - 1, n) | Inr _ \<Rightarrow> (c, n + 1))"
  using assms
  by (auto simp: start_shell_def herdr_available_def Let_def split: if_split_asm)

lemma connect_cases:
  obtains (refused) err where "connect lib req timeout = (Inl err, [])"
      "err \<in> {CodedError ''PRIVATE_KEY_REQUIRED'' ''private key is required'',
        CodedError ''PRIVATE_KEY_TOO_LARGE'' ''private key is too large''} \<or>
       parse_signer lib (rq_private_key req) (rq_passphrase req) = Inl err"
  | (undialled) signer t err where
      "parse_signer lib (rq_private_key req) (rq_passphrase req) = Inr signer"
      "sl_dial lib (join_host_port (rq_host req) (itoa (rq_port req))) (rq_username req) signer t = Inl err"
      "connect lib req timeout =
        (Inl (case unwrap_host_key err of Some he \<Rightarrow> he | None \<Rightarrow> map_dial_error (dial_text err)),
         [Dial (join_host_port (rq_host req) (itoa (rq_port req))) (rq_username req) t])"
  | (dialled) signer t client trm rows cols r acts where
      "parse_signer lib (rq_private_key req) (rq_passphrase req) = Inr signer"
      "0 < t"
      "sl_dial lib (join_host_port (rq_host req) (itoa (rq_port req))) (rq_username req) signer t = Inr client"
      "start_shell lib req trm rows cols client = (r, acts)" "trm \<noteq> []" "5 \<le> rows" "20 \<le> cols"
      "connect lib req timeout =
        (r, Dial (join_host_port (rq_host req) (itoa (rq_port req))) (rq_username req) t # OpenClient # acts)"
proof -
  let ?addr = "join_host_port (rq_host req) (itoa (rq_port req))"
  let ?t = "if timeout \<le> 0 then 15 * second else timeout"
  let ?trm = "if rq_term req = [] then ''xterm-256color'' else rq_term req"
  let ?rows = "if rq_rows req < 5 then 24 else rq_rows req"
  let ?cols = "if rq_cols req < 20 then 80 else rq_cols req"
  show ?thesis
  proof (cases "trim_space (rq_private_key req) = [] \<or> length (rq_private_key req) > 256 * 1024")
    case True
    show ?thesis
    proof (cases "trim_space (rq_private_key req) = []")
      case True
      then show ?thesis
        by (intro refused [of "CodedError ''PRIVATE_KEY_REQUIRED'' ''private key is required''"])
          (simp_all only: connect_def if_True insertI1 simp_thms)
    next
      case False
      with True show ?thesis
        by (intro refused [of "CodedError ''PRIVATE_KEY_TOO_LARGE'' ''private key is too large''"])
          (simp_all only: connect_def if_True if_False insertI1 insertI2 simp_thms)
    qed
  next
    case ok: False
    show ?thesis
    proof (cases "parse_signer lib (rq_private_key req) (rq_passphrase req)")
      case (Inl err)
      with ok show ?thesis by (intro refused [of err]) (simp_all add: connect_def del: insert_iff)
    next
      case signer: (Inr signer)
      show ?thesis
      proof (cases "sl_dial lib ?addr (rq_username req) signer ?t")
        case (Inl err)
        with ok signer show ?thesis by (intro undialled) (simp_all add: connect_def Let_def)
      next
        case (Inr client)
        obtain r acts where "start_shell lib req ?trm ?rows ?cols client = (r, acts)" by fastforce
        with ok signer Inr show ?thesis
          by (intro dialled [of signer ?t client ?trm ?rows ?cols r acts]) (simp_all add: connect_def Let_def)
      qed
    qed
  qed
qed

text \<open>
  C31: \<^verbatim>\<open>Connect\<close> leaks nothing: when it fails, every client and session it opened is closed again,
  and when it succeeds exactly one of each is open, which \<^verbatim>\<open>Close\<close> then closes.
\<close>

theorem connect_leaks_nothing:
  "case connect lib req timeout of (r, acts) \<Rightarrow>
     open_after (0, 0) acts = (case r of Inl _ \<Rightarrow> (0, 0) | Inr _ \<Rightarrow> (1, 1)) \<and>
     open_after (0, 0) (acts @ close_session (case r of Inl _ \<Rightarrow> None | Inr s \<Rightarrow> Some s)) = (0, 0)"
proof (cases rule: connect_cases [of lib req timeout])
  case (dialled signer t client trm rows cols r acts)
  from start_shell_resources [OF dialled(4), of 1 0] dialled(8) show ?thesis
    by (cases r) (simp_all add: open_after_append close_session_def)
qed (simp_all add: close_session_def)

text \<open>The codes \<^verbatim>\<open>Connect\<close> chooses itself.\<close>

definition connect_codes :: "string list" where
  "connect_codes =
    [''PRIVATE_KEY_REQUIRED'', ''PRIVATE_KEY_TOO_LARGE'', ''PRIVATE_KEY_PASSPHRASE_REQUIRED'',
     ''PRIVATE_KEY_PASSPHRASE_INVALID'', ''PRIVATE_KEY_INVALID'', ''SSH_AUTH_FAILED'', ''SSH_CONNECT_TIMEOUT'',
     ''SSH_CONNECT_FAILED'', ''SSH_SESSION_FAILED'']"

lemma in_connect_codes:
  "''PRIVATE_KEY_REQUIRED'' \<in> set connect_codes" "''PRIVATE_KEY_TOO_LARGE'' \<in> set connect_codes"
  "''PRIVATE_KEY_PASSPHRASE_REQUIRED'' \<in> set connect_codes"
  "''PRIVATE_KEY_PASSPHRASE_INVALID'' \<in> set connect_codes" "''PRIVATE_KEY_INVALID'' \<in> set connect_codes"
  "''SSH_AUTH_FAILED'' \<in> set connect_codes" "''SSH_CONNECT_TIMEOUT'' \<in> set connect_codes"
  "''SSH_CONNECT_FAILED'' \<in> set connect_codes" "''SSH_SESSION_FAILED'' \<in> set connect_codes"
  unfolding connect_codes_def by simp_all

definition coded :: "ssh_error \<Rightarrow> bool" where
  "coded err \<longleftrightarrow> (case err of CodedError c m \<Rightarrow> c \<in> set connect_codes | _ \<Rightarrow> False)"

lemma coded_simps: "coded (CodedError c m) \<longleftrightarrow> c \<in> set connect_codes"
  by (simp add: coded_def)

lemma coded_map_private_key_error: "coded (map_private_key_error msg)"
  by (simp only: map_private_key_error_def Let_def if_split coded_simps in_connect_codes simp_thms)

lemma coded_map_dial_error: "coded (map_dial_error msg)"
  by (simp only: map_dial_error_def Let_def if_split coded_simps in_connect_codes simp_thms)

lemma coded_session_failed: "coded (session_failed msg)"
  by (simp only: session_failed_def coded_simps in_connect_codes)

lemma coded_passphrase_required: "coded passphrase_required"
  by (simp only: passphrase_required_def coded_simps in_connect_codes)

lemma parse_signer_code: "parse_signer lib k p = Inl err \<Longrightarrow> coded err"
  by (auto simp: parse_signer_def coded_map_private_key_error coded_passphrase_required
      split: if_split_asm sum.split_asm key_error.split_asm)

lemma start_shell_code: "start_shell lib req trm rows cols client = (Inl err, acts) \<Longrightarrow> coded err"
  by (auto simp: start_shell_def Let_def coded_session_failed split: if_split_asm)

text \<open>
  An error of \<^verbatim>\<open>Connect\<close> is one of its own coded errors or, unchanged, the first error of the
  dialling error's chain whose type is a host key error; so what the host key callback decided is
  never hidden behind a generic code.
\<close>

theorem connect_error_codes:
  assumes "connect lib req timeout = (Inl err, acts)"
  shows "coded err \<or>
    (\<exists>signer t d ty. sl_dial lib (join_host_port (rq_host req) (itoa (rq_port req))) (rq_username req) signer t = Inl d \<and>
       (ty, err) \<in> set (dial_chain d) \<and> contains ty ''HostKeyError'')"
proof (cases rule: connect_cases [of lib req timeout])
  case (refused e)
  then have "e = err" using assms by simp
  have "coded e"
    using refused(2)
    by (elim disjE insertE emptyE)
      (simp only: coded_simps in_connect_codes, simp only: coded_simps in_connect_codes, rule parse_signer_code)
  with \<open>e = err\<close> show ?thesis by simp
next
  case (undialled signer t d)
  show ?thesis
  proof (cases "unwrap_host_key d")
    case None
    with undialled(3) assms coded_map_dial_error [of "dial_text d"] show ?thesis by simp
  next
    case (Some he)
    then obtain x where "find (\<lambda>(t, _). contains t ''HostKeyError'') (dial_chain d) = Some x" "snd x = he"
      by (auto simp: unwrap_host_key_def)
    then have "x \<in> set (dial_chain d)" "contains (fst x) ''HostKeyError''" "snd x = he"
      by (auto simp: find_Some_iff) (metis nth_mem)
    moreover have "err = he" using Some undialled(3) assms by simp
    ultimately show ?thesis using undialled(2) by (metis prod.collapse)
  qed
next
  case (dialled signer t client trm rows cols r a)
  with assms have "start_shell lib req trm rows cols client = (Inl err, a)" by simp
  from start_shell_code [OF this] show ?thesis by blast
qed

text \<open>A library for the witnesses, whose answers are chosen by the key and the address.\<close>

definition sample_lib :: "(string, string) ssh_lib" where
  "sample_lib =
    \<lparr>sl_parse_key = (\<lambda>k. if k = ''locked'' then Inl (PassphraseMissing ''protected'') else Inr k),
     sl_parse_key_with = (\<lambda>k p. if p = ''pw'' then Inr k else Inl (KeyError ''x509: decryption password incorrect'')),
     sl_dial = (\<lambda>addr user signer t.
       if addr = ''changed:22'' then Inl (DialError ''ssh: handshake failed''
         [(''*fmt.wrapError'', OtherError ''ssh: handshake failed''),
          (''*security.HostKeyError'', HostKeyError ''HOST_KEY_CHANGED'' ''key has changed'')])
       else Inr addr),
     sl_probe = (\<lambda>c. True), sl_run = (\<lambda>c cmd. True), sl_session = (\<lambda>c. True), sl_stdin = (\<lambda>c. True), sl_stdout = (\<lambda>c. True),
     sl_stderr = (\<lambda>c. True), sl_pty = (\<lambda>c t r w. True), sl_shell = (\<lambda>c. True), sl_write = (\<lambda>c s. True)\<rparr>"

definition sample_request :: "string \<Rightarrow> connect_request" where
  "sample_request host =
    \<lparr>rq_host = host, rq_port = 22, rq_username = ''root'', rq_private_key = ''key'', rq_passphrase = [],
     rq_term = [], rq_cols = 80, rq_rows = 24, rq_use_herdr = True, rq_herdr_session = ''s1''\<rparr>"

theorem connect_error_codes_witness:
  "fst (connect sample_lib (sample_request ''changed'') 0) = Inl (HostKeyError ''HOST_KEY_CHANGED'' ''key has changed'') \<and>
   (\<exists>signer t d ty. sl_dial sample_lib (join_host_port ''changed'' (itoa 22)) ''root'' signer t = Inl d \<and>
      (ty, HostKeyError ''HOST_KEY_CHANGED'' ''key has changed'') \<in> set (dial_chain d))"
proof -
  let ?err = "HostKeyError ''HOST_KEY_CHANGED'' ''key has changed''"
  have c: "connect sample_lib (sample_request ''changed'') 0
      = (Inl ?err, [Dial ''changed:22'' ''root'' (15 * second)])"
    by code_simp
  have "\<not> coded ?err" by (simp add: coded_def)
  with connect_error_codes [OF c] c show ?thesis by (auto simp: sample_request_def)
qed

end
