(* ===== verification/Slot_Counter.thy ===== *)
theory Slot_Counter
  imports Go_Prelude
begin

text \<open>
  The contract of a counter that limits how many holders there are at a time, acquired by a
  compare-and-swap loop that any number of goroutines run at once (\<^verbatim>\<open>reserveSession\<close> and
  \<^verbatim>\<open>reserveTunnel\<close> of \<^verbatim>\<open>internal/ws\<close>). The loop is a step relation: one atomic operation per step,
  interleaved in any order. The client's state is abstract: it has a counter that can be read
  and set and a limit that setting it does not change.
\<close>

datatype slot_pc = Outside | Loaded int | Holding

inductive slot_step ::
  "('h \<Rightarrow> int) \<Rightarrow> (int \<Rightarrow> 'h \<Rightarrow> 'h) \<Rightarrow> ('h \<Rightarrow> int) \<Rightarrow> 'h \<times> ('i \<Rightarrow> slot_pc) \<Rightarrow> 'h \<times> ('i \<Rightarrow> slot_pc) \<Rightarrow> bool"
  for count set_count limit where
  load: "pc i = Outside \<Longrightarrow> slot_step count set_count limit (h, pc) (h, pc(i := Loaded (count h)))"
| refuse: "pc i = Loaded v \<Longrightarrow> limit h \<le> v \<Longrightarrow> slot_step count set_count limit (h, pc) (h, pc(i := Outside))"
| swap: "pc i = Loaded v \<Longrightarrow> v < limit h \<Longrightarrow> count h = v \<Longrightarrow>
    slot_step count set_count limit (h, pc) (set_count (v + 1) h, pc(i := Holding))"
| retry: "pc i = Loaded v \<Longrightarrow> v < limit h \<Longrightarrow> count h \<noteq> v \<Longrightarrow>
    slot_step count set_count limit (h, pc) (h, pc(i := Outside))"
| release: "pc i = Holding \<Longrightarrow>
    slot_step count set_count limit (h, pc) (set_count (count h - 1) h, pc(i := Outside))"

inductive slot_reach ::
  "('h \<Rightarrow> int) \<Rightarrow> (int \<Rightarrow> 'h \<Rightarrow> 'h) \<Rightarrow> ('h \<Rightarrow> int) \<Rightarrow> 'h \<times> ('i \<Rightarrow> slot_pc) \<Rightarrow> 'h \<times> ('i \<Rightarrow> slot_pc) \<Rightarrow> bool"
  for count set_count limit where
  start: "slot_reach count set_count limit x x"
| next_step: "slot_reach count set_count limit x y \<Longrightarrow> slot_step count set_count limit y z \<Longrightarrow>
    slot_reach count set_count limit x z"

definition holders :: "('i \<Rightarrow> slot_pc) \<Rightarrow> 'i set" where
  "holders pc = {i. pc i = Holding}"

lemma holders_upd:
  "holders (pc(i := x)) = (if x = Holding then insert i (holders pc) else holders pc - {i})"
  by (auto simp: holders_def)

locale slot_counter =
  fixes count :: "'h \<Rightarrow> int" and set_count :: "int \<Rightarrow> 'h \<Rightarrow> 'h" and limit :: "'h \<Rightarrow> int"
  assumes count_set [simp]: "count (set_count n h) = n"
    and limit_set [simp]: "limit (set_count n h) = limit h"
begin

definition reserve :: "'h \<Rightarrow> bool \<times> 'h" where
  "reserve h = (if count h \<ge> limit h then (False, h) else (True, set_count (count h + 1) h))"

lemma step_invariant:
  assumes "slot_step count set_count limit (h, pc) (h', pc')"
    and "finite (holders pc)" "count h = int (card (holders pc))"
  shows "finite (holders pc') \<and> count h' = int (card (holders pc')) \<and> limit h' = limit h \<and>
    (count h \<le> limit h \<longrightarrow> count h' \<le> limit h')"
  using assms(1)
proof (cases rule: slot_step.cases)
  case (release i)
  then have "i \<in> holders pc" by (simp add: holders_def)
  with assms(2) have "card (holders pc) = Suc (card (holders pc - {i}))"
    by (metis card_Suc_Diff1)
  with release assms(2,3) show ?thesis by (simp add: holders_upd)
next
  case (swap i v)
  then have "i \<notin> holders pc" by (simp add: holders_def)
  with swap assms(2,3) show ?thesis by (simp add: holders_upd)
qed (use assms(2,3) in \<open>auto simp: holders_upd, auto simp: holders_def\<close>)

text \<open>Whatever the interleaving, the counter is the number of holders and stays within the limit.\<close>

lemma reach_invariant:
  assumes "slot_reach count set_count limit (h0, pc0) (h, pc)"
    and "holders pc0 = {}" "count h0 = 0" "0 \<le> limit h0"
  shows "finite (holders pc) \<and> count h = int (card (holders pc)) \<and> limit h = limit h0 \<and>
    int (card (holders pc)) \<le> limit h0"
  using assms(1)
proof (induction "(h0, pc0)" "(h, pc)" arbitrary: h pc rule: slot_reach.induct)
  case start
  with assms(2-) show ?case by simp
next
  case (next_step y)
  obtain h1 pc1 where y: "y = (h1, pc1)" by fastforce
  from next_step(2) [OF y] step_invariant [OF next_step(3) [unfolded y]] show ?case by auto
qed

text \<open>Without interference the loop is the atomic reservation: two steps decide it.\<close>

lemma solo_reserve:
  assumes "pc i = Outside"
  shows "slot_reach count set_count limit (h, pc)
    (snd (reserve h), pc(i := if fst (reserve h) then Holding else Outside))"
proof -
  let ?pc = "pc(i := Loaded (count h))"
  have l: "slot_reach count set_count limit (h, pc) (h, ?pc)"
    by (rule slot_reach.next_step [OF slot_reach.start]) (rule slot_step.load, rule assms)
  show ?thesis
  proof (cases "limit h \<le> count h")
    case True
    then have "slot_step count set_count limit (h, ?pc) (h, ?pc(i := Outside))"
      by (intro slot_step.refuse) simp_all
    with l True assms show ?thesis by (auto simp: reserve_def intro: slot_reach.next_step)
  next
    case False
    then have "slot_step count set_count limit (h, ?pc) (set_count (count h + 1) h, ?pc(i := Holding))"
      by (intro slot_step.swap) simp_all
    with l False show ?thesis by (auto simp: reserve_def intro: slot_reach.next_step)
  qed
qed

text \<open>
  A refusal is justified: the counter had reached the limit when it was read. And an attempt that
  has to start again lost to a goroutine that changed the counter.
\<close>

lemma loaded_value:
  assumes "slot_reach count set_count limit (h0, pc0) (h, pc)" "pc i = Loaded v" "pc0 i = Outside"
  shows "\<exists>h1 pc1. slot_reach count set_count limit (h0, pc0) (h1, pc1) \<and> count h1 = v \<and>
    slot_reach count set_count limit (h1, pc1) (h, pc)"
  using assms(1,2)
proof (induction "(h0, pc0)" "(h, pc)" arbitrary: h pc rule: slot_reach.induct)
  case start
  with assms(3) show ?case by simp
next
  case (next_step y)
  obtain h1 pc1 where y: "y = (h1, pc1)" by fastforce
  show ?case
  proof (cases "pc1 i = Loaded v")
    case True
    with next_step(2) [OF y] next_step(3) y show ?thesis by (meson slot_reach.next_step)
  next
    case False
    from next_step(3) [unfolded y] False next_step(4) have "v = count h1"
      by (cases rule: slot_step.cases) (auto split: if_splits)
    with next_step(1,3) y show ?thesis by (metis slot_reach.start slot_reach.next_step)
  qed
qed

end

end
