(* ===== verification/Ws_Protocol.thy ===== *)
theory Ws_Protocol
  imports Go_Json_Object
begin

text \<open>
  \<^verbatim>\<open>internal/ws/protocol.go\<close>: the messages of the two WebSocket protocols and their JSON, as both ends encode and decode it.
\<close>

section \<open>Data\<close>

record connect_data =
  ct_host :: string
  ct_port :: int
  ct_username :: string
  ct_private_key :: string
  ct_passphrase :: string
  ct_term :: string
  ct_cols :: int
  ct_rows :: int
  ct_use_herdr :: bool
  ct_use_tmux :: bool
  ct_herdr_session :: string
  ct_tmux_session :: string

text \<open>What the handler sends; a connected message repeats the Herdr session as the tmux session.\<close>

datatype ws_message =
    ErrorMsg string string
  | ConnectedMsg string string int string string
  | ClosedMsg string "int option"
  | PongMsg string
  | TunnelConnectedMsg string int

section \<open>Fields\<close>

text \<open>\<^verbatim>\<open>Message\<close>: the type and the text of the data, empty when there is none.\<close>

definition message_fields :: "(string \<times> bytes) json_fields" where
  "message_fields =
    [(''type'', field store_string fst (\<lambda>t (_, d). (t, d))),
     (''data'', field (\<lambda>v _. (True, v)) snd (\<lambda>d (t, _). (t, d)))]"

definition connect_fields :: "connect_data json_fields" where
  "connect_fields =
    [(''host'', field store_string ct_host (\<lambda>v. ct_host_update (\<lambda>_. v))),
     (''port'', field store_int ct_port (\<lambda>v. ct_port_update (\<lambda>_. v))),
     (''username'', field store_string ct_username (\<lambda>v. ct_username_update (\<lambda>_. v))),
     (''privateKey'', field store_string ct_private_key (\<lambda>v. ct_private_key_update (\<lambda>_. v))),
     (''passphrase'', field store_string ct_passphrase (\<lambda>v. ct_passphrase_update (\<lambda>_. v))),
     (''term'', field store_string ct_term (\<lambda>v. ct_term_update (\<lambda>_. v))),
     (''cols'', field store_int ct_cols (\<lambda>v. ct_cols_update (\<lambda>_. v))),
     (''rows'', field store_int ct_rows (\<lambda>v. ct_rows_update (\<lambda>_. v))),
     (''useHerdr'', field store_bool ct_use_herdr (\<lambda>v. ct_use_herdr_update (\<lambda>_. v))),
     (''useTmux'', field store_bool ct_use_tmux (\<lambda>v. ct_use_tmux_update (\<lambda>_. v))),
     (''herdrSession'', field store_string ct_herdr_session (\<lambda>v. ct_herdr_session_update (\<lambda>_. v))),
     (''tmuxSession'', field store_string ct_tmux_session (\<lambda>v. ct_tmux_session_update (\<lambda>_. v)))]"

text \<open>\<^verbatim>\<open>TunnelConnectData\<close>, \<^verbatim>\<open>ResizeData\<close>, \<^verbatim>\<open>ErrorData\<close> and \<^verbatim>\<open>ClosedData\<close>, as pairs.\<close>

definition tunnel_fields :: "(string \<times> int) json_fields" where
  "tunnel_fields = [(''host'', field store_string fst (\<lambda>h (_, p). (h, p))), (''port'', field store_int snd (\<lambda>p (h, _). (h, p)))]"

definition resize_fields :: "(int \<times> int) json_fields" where
  "resize_fields = [(''cols'', field store_int fst (\<lambda>c (_, r). (c, r))), (''rows'', field store_int snd (\<lambda>r (c, _). (c, r)))]"

definition error_fields :: "(string \<times> string) json_fields" where
  "error_fields = [(''code'', field store_string fst (\<lambda>c (_, m). (c, m))), (''message'', field store_string snd (\<lambda>m (c, _). (c, m)))]"

definition closed_fields :: "(string \<times> int option) json_fields" where
  "closed_fields =
    [(''reason'', field store_string fst (\<lambda>r (_, s). (r, s))), (''exitStatus'', field store_int_pointer snd (\<lambda>s (r, _). (r, s)))]"

section \<open>Decoding\<close>

definition decode_message :: "bytes \<Rightarrow> (string \<times> bytes) option" where
  "decode_message b = if_fits (json_unmarshal (store_struct message_fields) b ([], []))"

definition decode_connect :: "bytes \<Rightarrow> connect_data option" where
  "decode_connect raw = if_fits (json_unmarshal (store_struct connect_fields) raw
    \<lparr>ct_host = [], ct_port = 0, ct_username = [], ct_private_key = [], ct_passphrase = [], ct_term = [], ct_cols = 0, ct_rows = 0,
     ct_use_herdr = False, ct_use_tmux = False, ct_herdr_session = [], ct_tmux_session = []\<rparr>)"

definition decode_string :: "bytes \<Rightarrow> string option" where
  "decode_string raw = if_fits (json_unmarshal store_string raw [])"

definition decode_resize :: "bytes \<Rightarrow> (int \<times> int) option" where
  "decode_resize raw = if_fits (json_unmarshal (store_struct resize_fields) raw (0, 0))"

definition decode_tunnel :: "bytes \<Rightarrow> (string \<times> int) option" where
  "decode_tunnel raw = if_fits (json_unmarshal (store_struct tunnel_fields) raw ([], 0))"

text \<open>The client takes what could be stored.\<close>

definition decode_error :: "bytes \<Rightarrow> string \<times> string" where
  "decode_error raw = snd (json_unmarshal (store_struct error_fields) raw ([], []))"

definition decode_closed :: "bytes \<Rightarrow> string \<times> int option" where
  "decode_closed raw = snd (json_unmarshal (store_struct closed_fields) raw ([], None))"

section \<open>Encoding\<close>

text \<open>\<^verbatim>\<open>EncodeMessage\<close>, with the JSON of the data, which is empty when there is none.\<close>

definition encode_message :: "string \<Rightarrow> bytes \<Rightarrow> bytes" where
  "encode_message typ raw = object_text ((''type'', json_quote typ) # (if raw = [] then [] else [(''data'', raw)]))"

definition connect_members :: "connect_data \<Rightarrow> (string \<times> bytes) list" where
  "connect_members cd =
    [(''host'', json_quote (ct_host cd)), (''port'', itoa (ct_port cd)), (''username'', json_quote (ct_username cd)),
     (''privateKey'', json_quote (ct_private_key cd)), (''passphrase'', json_quote (ct_passphrase cd)),
     (''term'', json_quote (ct_term cd)), (''cols'', itoa (ct_cols cd)), (''rows'', itoa (ct_rows cd)),
     (''useHerdr'', bool_text (ct_use_herdr cd)), (''useTmux'', bool_text (ct_use_tmux cd))] @
    omit_empty ''herdrSession'' (ct_herdr_session cd) @ omit_empty ''tmuxSession'' (ct_tmux_session cd)"

definition connect_text :: "connect_data \<Rightarrow> bytes" where
  "connect_text cd = object_text (connect_members cd)"

definition tunnel_text :: "string \<Rightarrow> int \<Rightarrow> bytes" where
  "tunnel_text host port = object_text [(''host'', json_quote host), (''port'', itoa port)]"

definition resize_text :: "int \<Rightarrow> int \<Rightarrow> bytes" where
  "resize_text cols rows = object_text [(''cols'', itoa cols), (''rows'', itoa rows)]"

text \<open>What the server sends, as type and data.\<close>

fun reply_parts :: "ws_message \<Rightarrow> string \<times> bytes" where
  "reply_parts (ErrorMsg code msg) = (''error'', object_text [(''code'', json_quote code), (''message'', json_quote msg)])"
| "reply_parts (ConnectedMsg i host port user herdr) =
     (''connected'', object_text
       ([(''sessionId'', json_quote i), (''host'', json_quote host), (''port'', itoa port), (''username'', json_quote user)] @
        omit_empty ''herdrSession'' herdr @ omit_empty ''tmuxSession'' herdr))"
| "reply_parts (ClosedMsg reason status) =
     (''closed'', object_text ((''reason'', json_quote reason) # (case status of None \<Rightarrow> [] | Some n \<Rightarrow> [(''exitStatus'', itoa n)])))"
| "reply_parts (PongMsg n) = (''pong'', n)"
| "reply_parts (TunnelConnectedMsg host port) = (''tunnel-connected'', tunnel_text host port)"

text \<open>\<^verbatim>\<open>WriteJSON\<close> ends with a newline. The session sends a map, whose keys are sorted, the tunnel a \<^verbatim>\<open>Message\<close>.\<close>

definition session_text :: "ws_message \<Rightarrow> bytes" where
  "session_text m = (case reply_parts m of (typ, d) \<Rightarrow> object_text [(''data'', d), (''type'', json_quote typ)] @ [CHR 0x0A])"

definition tunnel_reply_text :: "ws_message \<Rightarrow> bytes" where
  "tunnel_reply_text m = (case reply_parts m of (typ, d) \<Rightarrow> encode_message typ d @ [CHR 0x0A])"

section \<open>What one end writes the other reads\<close>

lemma newline_space: "list_all json_space [CHR 0x0A]" "list_all json_space []"
  by (simp_all add: json_space_def)

lemmas struct_defs = message_fields_def tunnel_fields_def resize_fields_def error_fields_def closed_fields_def connect_fields_def
  field_simps_json

text \<open>A message in either form is decoded to its type and data.\<close>

lemma decode_encode_message:
  assumes "utf8_valid typ" "raw = [] \<or> value_text (max_nesting - 1) raw" "list_all json_space w"
  shows "decode_message (encode_message typ raw @ w) = Some (typ, raw)"
  using assms unfolding decode_message_def encode_message_def
  by (subst unmarshal_object) (auto simp: struct_defs utf8_valid_replace)

lemma decode_input_message: "decode_message (encode_message ''input'' (json_quote s)) = Some (''input'', json_quote s)"
  using decode_encode_message [of "''input''" "json_quote s" "[]"] by simp

lemma decode_map_message:
  assumes "utf8_valid typ" "value_text (max_nesting - 1) raw" "list_all json_space w"
  shows "decode_message (object_text [(''data'', raw), (''type'', json_quote typ)] @ w) = Some (typ, raw)"
  using assms unfolding decode_message_def
  by (subst unmarshal_object) (auto simp: struct_defs utf8_valid_replace)

lemma decode_quoted_string: "decode_string (json_quote s) = Some (replace_invalid s)"
  by (simp add: decode_string_def unmarshal_text if_fits_def)

lemma decode_tunnel_text:
  "- (2 ^ 63) \<le> port \<Longrightarrow> port < 2 ^ 63 \<Longrightarrow> decode_tunnel (tunnel_text host port) = Some (replace_invalid host, port)"
  using unmarshal_object [of "[(''host'', json_quote host), (''port'', itoa port)]" "[]" tunnel_fields]
  by (simp add: decode_tunnel_def tunnel_text_def struct_defs)

lemma decode_resize_text:
  "- (2 ^ 63) \<le> c \<Longrightarrow> c < 2 ^ 63 \<Longrightarrow> - (2 ^ 63) \<le> r \<Longrightarrow> r < 2 ^ 63 \<Longrightarrow> decode_resize (resize_text c r) = Some (c, r)"
  using unmarshal_object [of "[(''cols'', itoa c), (''rows'', itoa r)]" "[]" resize_fields]
  by (simp add: decode_resize_def resize_text_def struct_defs)

lemma decode_error_text:
  "decode_error (object_text [(''code'', json_quote code), (''message'', json_quote msg)]) = (replace_invalid code, replace_invalid msg)"
  using unmarshal_object [of "[(''code'', json_quote code), (''message'', json_quote msg)]" "[]" error_fields]
  by (simp add: decode_error_def struct_defs)

lemma decode_closed_data:
  assumes "case status of None \<Rightarrow> True | Some n \<Rightarrow> int64 n"
  shows "decode_closed (snd (reply_parts (ClosedMsg reason status))) = (replace_invalid reason, status)"
  using assms unmarshal_object [of "(''reason'', json_quote reason) # (case status of None \<Rightarrow> [] | Some n \<Rightarrow> [(''exitStatus'', itoa n)])" "[]" closed_fields]
  by (cases status) (simp_all add: decode_closed_def struct_defs int64_def)

lemma value_text_data: "0 < d \<Longrightarrow> (case m of PongMsg n \<Rightarrow> value_text d n | _ \<Rightarrow> True) \<Longrightarrow> value_text d (snd (reply_parts m))"
  by (cases m) (auto simp: tunnel_text_def omit_empty_def intro!: value_text_object split: option.split)

lemma message_type_ascii: "utf8_valid (fst (reply_parts m))"
  by (cases m) simp_all

text \<open>Every message of the server is decoded by the client to its type and data, whichever handler wrote it.\<close>

lemma decode_session_text:
  assumes "case m of PongMsg n \<Rightarrow> value_text (max_nesting - 1) n | _ \<Rightarrow> True"
  shows "decode_message (session_text m) = Some (reply_parts m)" "decode_message (tunnel_reply_text m) = Some (reply_parts m)"
proof -
  have d: "value_text (max_nesting - 1) (snd (reply_parts m))" by (rule value_text_data [OF _ assms]) (simp add: max_nesting_def)
  note m = message_type_ascii [of m] d newline_space(1)
  show "decode_message (session_text m) = Some (reply_parts m)"
    using decode_map_message [OF m] by (cases "reply_parts m") (simp add: session_text_def)
  show "decode_message (tunnel_reply_text m) = Some (reply_parts m)"
    using decode_encode_message [OF m(1) disjI2 [OF m(2)] m(3)] by (cases "reply_parts m") (simp add: tunnel_reply_text_def)
qed

text \<open>A connect request arrives as it was sent, but for bytes that are not UTF-8.\<close>

definition sanitized :: "connect_data \<Rightarrow> connect_data" where
  "sanitized cd = cd\<lparr>ct_host := replace_invalid (ct_host cd), ct_username := replace_invalid (ct_username cd),
     ct_private_key := replace_invalid (ct_private_key cd), ct_passphrase := replace_invalid (ct_passphrase cd),
     ct_term := replace_invalid (ct_term cd), ct_herdr_session := replace_invalid (ct_herdr_session cd),
     ct_tmux_session := replace_invalid (ct_tmux_session cd)\<rparr>"

lemma decode_connect_text:
  assumes "int64 (ct_port cd)" "int64 (ct_cols cd)" "int64 (ct_rows cd)"
  shows "decode_connect (connect_text cd) = Some (sanitized cd)"
proof -
  have "connect_text cd = object_text (connect_members cd) @ []" by (simp add: connect_text_def)
  moreover have "list_all (\<lambda>(_, v). value_text (max_nesting - 1) v) (connect_members cd)" by (simp add: connect_members_def omit_empty_def)
  ultimately have "json_unmarshal (store_struct connect_fields) (connect_text cd) x =
      store_members connect_fields (map (\<lambda>(name, v). (json_quote name, v)) (connect_members cd)) x" for x
    using unmarshal_object newline_space(2) by metis
  then show ?thesis using assms
    by (cases "ct_herdr_session cd = []"; cases "ct_tmux_session cd = []"; cases cd)
      (simp_all add: decode_connect_def connect_members_def omit_empty_def struct_defs int64_def sanitized_def)
qed

end
