(* ===== verification/Ws_Handler.thy ===== *)
theory Ws_Handler
  imports Network_Policy Auth Config Ssh_Client Slot_Counter Ws_Protocol
begin

text \<open>
  \<^verbatim>\<open>internal/ws/handler.go\<close>: the WebSocket that carries a browser's SSH session. The cryptography, the resolver, the SSH
  library and the reading of a \<^verbatim>\<open>float64\<close> are the fields of \<open>ws_env\<close>. The messages of
  the client are a list of frames; what the handler sends and does is returned in order.
\<close>

section \<open>Data\<close>

record handler =
  hd_cfg :: config
  hd_auth :: authenticator
  hd_store :: auth_store
  hd_policy :: network_policy
  hd_sessions :: int
  hd_tunnels :: int

record http_request =
  hr_cookie :: "string option"
  hr_origin :: string
  hr_host :: string
  hr_forwarded :: string
  hr_remote :: string

datatype frame_type = TextFrame | BinaryFrame | OtherFrame

text \<open>The result of one \<^verbatim>\<open>ReadMessage\<close>.\<close>

datatype frame = ReadError | Frame frame_type bytes

record ('signer, 'client) ws_env =
  we_crypto :: crypto
  we_number :: "bytes \<Rightarrow> string option"
  we_lookup :: resolver
  we_ssh :: "('signer, 'client) ssh_lib"

record 'client ws_session =
  wx_ssh :: "'client ssh_session option"
  wx_id :: string
  wx_host :: string
  wx_port :: int
  wx_username :: string
  wx_connected :: bool

definition new_session :: "'client ws_session" where
  "new_session = \<lparr>wx_ssh = None, wx_id = [], wx_host = [], wx_port = 0, wx_username = [], wx_connected = False\<rparr>"

section \<open>Who may open a WebSocket\<close>

definition is_same_origin :: "string \<Rightarrow> string \<Rightarrow> bool" where
  "is_same_origin req_host origin =
    (if has_prefix origin ''https://'' then
       (let host = trim_prefix origin ''https://'' in
        host = req_host \<or> host = hd (split_on CHR '':'' req_host))
     else if has_prefix origin ''http://'' then trim_prefix origin ''http://'' = req_host
     else False)"

definition check_origin :: "config \<Rightarrow> http_request \<Rightarrow> bool" where
  "check_origin cfg r =
    (hr_origin r = [] \<or> is_same_origin (hr_host r) (hr_origin r)
     \<or> list_ex (\<lambda>allowed. allowed = ''*'' \<or> equal_fold allowed (hr_origin r)) (sv_allowed_origins (c_server cfg)))"

definition client_ip :: "http_request \<Rightarrow> string" where
  "client_ip r =
    (if hr_forwarded r \<noteq> [] then trim_space (hd (split_on CHR '','' (hr_forwarded r)))
     else (case split_host_port (hr_remote r) of None \<Rightarrow> hr_remote r | Some (host, _) \<Rightarrow> host))"

section \<open>Session slots\<close>

definition reserve_session :: "handler \<Rightarrow> bool \<times> handler" where
  "reserve_session h =
    (if hd_sessions h \<ge> sh_max_sessions (c_ssh (hd_cfg h)) then (False, h)
     else (True, h\<lparr>hd_sessions := hd_sessions h + 1\<rparr>))"

definition release_session :: "handler \<Rightarrow> handler" where
  "release_session h = h\<lparr>hd_sessions := hd_sessions h - 1\<rparr>"

section \<open>The connect message\<close>

definition new_session_id :: "bytes \<Rightarrow> string" where
  "new_session_id rnd = b64_encode (take 16 (rnd @ replicate 16 (CHR 0x00)))"

definition herdr_char :: "char \<Rightarrow> bool" where
  "herdr_char c \<longleftrightarrow> c = CHR ''-'' \<or> c = CHR ''_'' \<or> (97 \<le> byte c \<and> byte c \<le> 122) \<or>
     (65 \<le> byte c \<and> byte c \<le> 90) \<or> (48 \<le> byte c \<and> byte c \<le> 57)"

text \<open>
  The checks of \<^verbatim>\<open>handleConnect\<close> up to the network policy, with the defaults they fill in. The name
  check is over runes in the source; a byte outside ASCII is part of a rune that is refused.
\<close>

definition check_connect_fields :: "connect_data \<Rightarrow> (string \<times> string) + unit" where
  "check_connect_fields cd =
    bind_result (ensure (ct_host cd \<noteq> []) (''INVALID_HOST'', ''host is required'')) (\<lambda>_.
    bind_result (ensure (length (ct_host cd) \<le> 253) (''INVALID_HOST'', ''host is too long'')) (\<lambda>_.
    bind_result (ensure (1 \<le> ct_port cd \<and> ct_port cd \<le> 65535)
      (''INVALID_PORT'', ''port must be between 1 and 65535'')) (\<lambda>_.
    bind_result (ensure (ct_username cd \<noteq> [] \<and> length (ct_username cd) \<le> 128)
      (''BAD_REQUEST'', ''username is required'')) (\<lambda>_.
    bind_result (ensure (trim_space (ct_private_key cd) \<noteq> [])
      (''PRIVATE_KEY_REQUIRED'', ''private key is required'')) (\<lambda>_.
    bind_result (ensure (length (ct_private_key cd) \<le> 128 * 1024)
      (''PRIVATE_KEY_TOO_LARGE'', ''private key is too large'')) (\<lambda>_.
    bind_result (ensure (length (ct_passphrase cd) \<le> 8 * 1024)
      (''BAD_REQUEST'', ''passphrase is too large'')) (\<lambda>_.
    ensure (length (ct_term cd) \<le> 64) (''BAD_REQUEST'', ''term is invalid''))))))))"

definition herdr_choice :: "connect_data \<Rightarrow> bytes \<Rightarrow> connect_data" where
  "herdr_choice cd rnd =
    (let use = (ct_use_herdr cd \<or> ct_use_tmux cd);
         name = (if ct_herdr_session cd = [] then ct_tmux_session cd else ct_herdr_session cd)
     in cd\<lparr>ct_use_herdr := use,
           ct_herdr_session := (if use \<and> name = [] then ''gowebssh-'' @ new_session_id rnd else name)\<rparr>)"

definition prepare_connect :: "connect_data \<Rightarrow> bytes \<Rightarrow> (string \<times> string) + connect_data" where
  "prepare_connect cd0 rnd =
    (let cd1 = cd0\<lparr>ct_host := trim_space (ct_host cd0), ct_username := trim_space (ct_username cd0),
                   ct_port := (if ct_port cd0 = 0 then 22 else ct_port cd0),
                   ct_term := (if ct_term cd0 = [] then ''xterm-256color'' else ct_term cd0)\<rparr> in
     bind_result (check_connect_fields cd1) (\<lambda>_.
       let cd2 = herdr_choice cd1 rnd in
       if ct_use_herdr cd2 \<and>
          (length (ct_herdr_session cd2) > 64 \<or> \<not> list_all herdr_char (ct_herdr_session cd2))
       then Inl (''BAD_REQUEST'', ''Herdr session name is invalid'')
       else Inr (cd2\<lparr>ct_rows := (if ct_rows cd2 < 5 \<or> ct_rows cd2 > 200 then 24 else ct_rows cd2),
                     ct_cols := (if ct_cols cd2 < 20 \<or> ct_cols cd2 > 500 then 80 else ct_cols cd2)\<rparr>)))"

fun classify_ssh_error :: "ssh_error \<Rightarrow> string \<times> string" where
  "classify_ssh_error (CodedError code msg) = (code, msg)"
| "classify_ssh_error (HostKeyError code msg) = (code, msg)"
| "classify_ssh_error (OtherError text) =
     (if contains (to_lower text) ''host key'' then (''HOST_KEY_UNTRUSTED'', ''host key verification failed'')
      else (''SSH_CONNECT_FAILED'', ''SSH connection failed''))"

definition request_of :: "connect_data \<Rightarrow> connect_request" where
  "request_of cd =
    \<lparr>rq_host = ct_host cd, rq_port = ct_port cd, rq_username = ct_username cd,
     rq_private_key = ct_private_key cd, rq_passphrase = ct_passphrase cd, rq_term = ct_term cd,
     rq_cols = ct_cols cd, rq_rows = ct_rows cd, rq_use_herdr = ct_use_herdr cd,
     rq_herdr_session = ct_herdr_session cd\<rparr>"

text \<open>
  The result of a step: whether the session goes on, the handler, the session, what was sent and
  what was done on the SSH side. \<open>rnd1\<close>, \<open>rnd2\<close> are the random reads for the Herdr name and the session
  id; \<open>sent\<close> tells whether the connected message could be written.
\<close>

type_synonym 'client step = "bool \<times> handler \<times> 'client ws_session \<times> ws_message list \<times> ssh_action list"

definition open_shell ::
  "('g, 'c) ws_env \<Rightarrow> handler \<Rightarrow> 'c ws_session \<Rightarrow> connect_data \<Rightarrow> bytes \<Rightarrow> bool \<Rightarrow> 'c step" where
  "open_shell env h s cd rnd2 sent =
    (case connect (we_ssh env) (request_of cd) (sh_connect_timeout (c_ssh (hd_cfg h))) of
       (Inl err, acts) \<Rightarrow>
         (case classify_ssh_error err of (code, msg) \<Rightarrow> (False, release_session h, s, [ErrorMsg code msg], acts))
     | (Inr ssh, acts) \<Rightarrow>
         (let herdr = (if ss_herdr_active ssh then ct_herdr_session cd else []);
              s' = s\<lparr>wx_ssh := Some ssh, wx_id := new_session_id rnd2, wx_connected := True\<rparr>;
              out = ConnectedMsg (wx_id s') (wx_host s') (wx_port s') (wx_username s') herdr
          in (sent, h, s', (if sent then [out] else []), acts)))"

definition handle_connect ::
  "('g, 'c) ws_env \<Rightarrow> handler \<Rightarrow> 'c ws_session \<Rightarrow> bytes \<Rightarrow> bytes \<Rightarrow> bytes \<Rightarrow> bool \<Rightarrow> 'c step" where
  "handle_connect env h s raw rnd1 rnd2 sent =
    (case decode_connect raw of
       None \<Rightarrow> (False, h, s, [ErrorMsg ''BAD_REQUEST'' ''invalid connect payload''], [])
     | Some cd0 \<Rightarrow>
         (case prepare_connect cd0 rnd1 of
            Inl (code, msg) \<Rightarrow> (False, h, s, [ErrorMsg code msg], [])
          | Inr cd \<Rightarrow>
              (case validate_host_port (hd_policy h) (we_lookup env) (ct_host cd) (ct_port cd) of
                 Inl (PolicyError code msg) \<Rightarrow> (False, h, s, [ErrorMsg code msg], [])
               | Inr _ \<Rightarrow>
                   let s' = s\<lparr>wx_host := ct_host cd, wx_port := ct_port cd, wx_username := ct_username cd\<rparr> in
                   (case reserve_session h of
                      (False, h') \<Rightarrow>
                        (False, h', s', [ErrorMsg ''SESSION_LIMIT_EXCEEDED'' ''maximum concurrent sessions exceeded''], [])
                    | (True, h') \<Rightarrow> open_shell env h' s' cd rnd2 sent))))"

section \<open>The session\<close>

text \<open>The first business message: frames up to the one that decides.\<close>

fun await_connect ::
  "('g, 'c) ws_env \<Rightarrow> handler \<Rightarrow> 'c ws_session \<Rightarrow> bytes \<Rightarrow> bytes \<Rightarrow> bool \<Rightarrow> frame list \<Rightarrow> 'c step \<times> frame list" where
  "await_connect env h s rnd1 rnd2 sent [] = ((False, h, s, [], []), [])"
| "await_connect env h s rnd1 rnd2 sent (ReadError # rest) = ((False, h, s, [], []), rest)"
| "await_connect env h s rnd1 rnd2 sent (Frame mt data # rest) =
     (if mt = OtherFrame then await_connect env h s rnd1 rnd2 sent rest
      else if length data > 256 * 1024 then ((False, h, s, [ErrorMsg ''BAD_REQUEST'' ''message too large''], []), rest)
      else (case decode_message data of
              None \<Rightarrow> ((False, h, s, [ErrorMsg ''BAD_REQUEST'' ''invalid message''], []), rest)
            | Some (ty, raw) \<Rightarrow>
                if ty \<noteq> ''connect''
                then ((False, h, s, [ErrorMsg ''BAD_REQUEST'' ''first message must be connect''], []), rest)
                else (handle_connect env h s raw rnd1 rnd2 sent, rest)))"

text \<open>
  One frame of the read loop: whether the loop goes on, what is sent, what is done. \<open>write_ok\<close> is
  the outcome of writing to the shell's standard input.
\<close>

definition read_frame ::
  "('g, 'c) ws_env \<Rightarrow> (string \<Rightarrow> bool) \<Rightarrow> frame \<Rightarrow> bool \<times> ws_message list \<times> ssh_action list" where
  "read_frame env write_ok f =
    (case f of
       ReadError \<Rightarrow> (False, [], [])
     | Frame mt data \<Rightarrow>
         if mt = OtherFrame then (True, [], [])
         else if length data > 64 * 1024 + 2048 then (False, [ErrorMsg ''BAD_REQUEST'' ''message too large''], [])
         else (case decode_message data of
           None \<Rightarrow> (True, [], [])
         | Some (ty, raw) \<Rightarrow>
             if ty = ''input'' then
               (case decode_string raw of
                  None \<Rightarrow> (True, [], [])
                | Some input \<Rightarrow>
                    if length input > 64 * 1024 then (True, [ErrorMsg ''BAD_REQUEST'' ''input too large''], [])
                    else (write_ok input, [], [WriteStdin input]))
             else if ty = ''resize'' then
               (case decode_resize raw of
                  None \<Rightarrow> (True, [], [])
                | Some (cols, rows) \<Rightarrow>
                    if rows < 5 \<or> rows > 200 \<or> cols < 20 \<or> cols > 500 then (True, [], [])
                    else (True, [], [ChangeWindow rows cols]))
             else if ty = ''ping'' then
               (case we_number env raw of None \<Rightarrow> (True, [], []) | Some n \<Rightarrow> (True, [PongMsg n], []))
             else if ty = ''disconnect'' then (False, [], [])
             else (True, [], [])))"

fun read_loop ::
  "('g, 'c) ws_env \<Rightarrow> (string \<Rightarrow> bool) \<Rightarrow> frame list \<Rightarrow> ws_message list \<times> ssh_action list" where
  "read_loop env write_ok [] = ([], [])"
| "read_loop env write_ok (f # rest) =
     (case read_frame env write_ok f of
        (False, out, acts) \<Rightarrow> (out, acts)
      | (True, out, acts) \<Rightarrow> (case read_loop env write_ok rest of (out', acts') \<Rightarrow> (out @ out', acts @ acts')))"

text \<open>
  How the session ended: the client's side, or the shell with the error of \<^verbatim>\<open>Session.Wait\<close> (none,
  an exit status, another). The frames given are those read before that.
\<close>

datatype session_end = ClientGone | ShellExit | ShellStatus int | ShellFailed

fun closed_message :: "session_end \<Rightarrow> ws_message" where
  "closed_message ClientGone = ClosedMsg ''client disconnected'' None"
| "closed_message ShellExit = ClosedMsg ''ssh session closed'' (Some 0)"
| "closed_message (ShellStatus n) = ClosedMsg ''ssh session closed'' (Some n)"
| "closed_message ShellFailed = ClosedMsg ''ssh session closed'' None"

definition cleanup :: "handler \<Rightarrow> 'c ws_session \<Rightarrow> handler \<times> 'c ws_session \<times> ssh_action list" where
  "cleanup h s =
    ((if wx_connected s then release_session h else h), s\<lparr>wx_connected := False, wx_ssh := None\<rparr>,
     close_session (wx_ssh s))"

text \<open>
  \<^verbatim>\<open>run\<close>: the connect phase, the read loop, the close of the shell and the deferred \<^verbatim>\<open>cleanup\<close>, which
  closes it a second time. \<open>others\<close> is what the other sessions do to the handler meanwhile.
\<close>

definition run_session ::
  "('g, 'c) ws_env \<Rightarrow> handler \<Rightarrow> bytes \<Rightarrow> bytes \<Rightarrow> bool \<Rightarrow> (string \<Rightarrow> bool) \<Rightarrow> session_end \<Rightarrow>
   (handler \<Rightarrow> handler) \<Rightarrow> frame list \<Rightarrow> handler \<times> ws_message list \<times> ssh_action list" where
  "run_session env h rnd1 rnd2 sent write_ok ended others frames =
    (case await_connect env h new_session rnd1 rnd2 sent frames of
       ((False, h', s, out, acts), rest) \<Rightarrow>
         (case cleanup (others h') s of (h'', _, acts') \<Rightarrow> (h'', out, acts @ acts'))
     | ((True, h', s, out, acts), rest) \<Rightarrow>
         (case read_loop env write_ok rest of (out1, acts1) \<Rightarrow>
         (case cleanup (others h') s of (h'', _, acts2) \<Rightarrow>
           (h'', out @ out1 @ [closed_message ended], acts @ acts1 @ close_session (wx_ssh s) @ acts2))))"

datatype http_reply = HttpReply int string | Upgraded | UpgradeFailed

definition serve_http ::
  "('g, 'c) ws_env \<Rightarrow> handler \<Rightarrow> http_request \<Rightarrow> int \<Rightarrow> bool \<Rightarrow> bytes \<Rightarrow> bytes \<Rightarrow> bool \<Rightarrow> (string \<Rightarrow> bool) \<Rightarrow>
   session_end \<Rightarrow> (handler \<Rightarrow> handler) \<Rightarrow> frame list \<Rightarrow> http_reply \<times> handler \<times> ws_message list \<times> ssh_action list" where
  "serve_http env h r now upgrade_ok rnd1 rnd2 sent write_ok ended others frames =
    (case session_from_request (we_crypto env) (hd_auth h) (hd_store h) (hr_cookie r) now of
       (who, store) \<Rightarrow>
         let h1 = h\<lparr>hd_store := store\<rparr> in
         if who = None then (HttpReply 401 ''AUTH_REQUIRED'', h1, [], [])
         else if \<not> check_origin (hd_cfg h) r then (HttpReply 403 ''WS_ORIGIN_DENIED'', h1, [], [])
         else if \<not> upgrade_ok then (UpgradeFailed, h1, [], [])
         else (Upgraded, run_session env h1 rnd1 rnd2 sent write_ok ended others frames))"

section \<open>The slots of the handler\<close>

interpretation sessions: slot_counter hd_sessions "\<lambda>n h. h\<lparr>hd_sessions := n\<rparr>"
  "\<lambda>h. sh_max_sessions (c_ssh (hd_cfg h))"
  by unfold_locales simp_all

lemma reserve_session_eq: "reserve_session h = sessions.reserve h"
  by (simp add: reserve_session_def sessions.reserve_def)

lemma reserve_session_iff:
  "reserve_session h = (True, h') \<longleftrightarrow> hd_sessions h < sh_max_sessions (c_ssh (hd_cfg h)) \<and>
     h' = h\<lparr>hd_sessions := hd_sessions h + 1\<rparr>"
  "reserve_session h = (False, h') \<longleftrightarrow> sh_max_sessions (c_ssh (hd_cfg h)) \<le> hd_sessions h \<and> h' = h"
  by (auto simp: reserve_session_def)

section \<open>Lemmas\<close>

lemma herdr_choice_fields [simp]:
  "ct_host (herdr_choice cd rnd) = ct_host cd" "ct_port (herdr_choice cd rnd) = ct_port cd"
  "ct_username (herdr_choice cd rnd) = ct_username cd" "ct_private_key (herdr_choice cd rnd) = ct_private_key cd"
  "ct_passphrase (herdr_choice cd rnd) = ct_passphrase cd" "ct_term (herdr_choice cd rnd) = ct_term cd"
  "ct_rows (herdr_choice cd rnd) = ct_rows cd" "ct_cols (herdr_choice cd rnd) = ct_cols cd"
  by (simp_all add: herdr_choice_def Let_def)

text \<open>A request that passed the checks.\<close>

definition connect_valid :: "connect_data \<Rightarrow> bool" where
  "connect_valid cd \<longleftrightarrow>
     ct_host cd \<noteq> [] \<and> length (ct_host cd) \<le> 253 \<and> trim_space (ct_host cd) = ct_host cd \<and>
     1 \<le> ct_port cd \<and> ct_port cd \<le> 65535 \<and>
     ct_username cd \<noteq> [] \<and> length (ct_username cd) \<le> 128 \<and>
     trim_space (ct_private_key cd) \<noteq> [] \<and> length (ct_private_key cd) \<le> 128 * 1024 \<and>
     length (ct_passphrase cd) \<le> 8 * 1024 \<and> ct_term cd \<noteq> [] \<and> length (ct_term cd) \<le> 64 \<and>
     5 \<le> ct_rows cd \<and> ct_rows cd \<le> 200 \<and> 20 \<le> ct_cols cd \<and> ct_cols cd \<le> 500 \<and>
     (ct_use_herdr cd \<longrightarrow> length (ct_herdr_session cd) \<le> 64 \<and> list_all herdr_char (ct_herdr_session cd) \<and>
        ct_herdr_session cd \<noteq> [])"

lemma prepare_connect_valid:
  assumes "prepare_connect cd0 rnd = Inr cd"
  shows "connect_valid cd"
proof -
  define cd1 where "cd1 = cd0\<lparr>ct_host := trim_space (ct_host cd0), ct_username := trim_space (ct_username cd0),
      ct_port := (if ct_port cd0 = 0 then 22 else ct_port cd0),
      ct_term := (if ct_term cd0 = [] then ''xterm-256color'' else ct_term cd0)\<rparr>"
  define cd2 where "cd2 = herdr_choice cd1 rnd"
  define cd3 where "cd3 = cd2\<lparr>ct_rows := (if ct_rows cd2 < 5 \<or> ct_rows cd2 > 200 then 24 else ct_rows cd2),
      ct_cols := (if ct_cols cd2 < 20 \<or> ct_cols cd2 > 500 then 80 else ct_cols cd2)\<rparr>"
  have "bind_result (check_connect_fields cd1) (\<lambda>_.
      if ct_use_herdr cd2 \<and> (length (ct_herdr_session cd2) > 64 \<or> \<not> list_all herdr_char (ct_herdr_session cd2))
      then Inl (''BAD_REQUEST'', ''Herdr session name is invalid'') else Inr cd3) = Inr cd"
    using assms unfolding prepare_connect_def Let_def cd1_def cd2_def cd3_def .
  then have c: "check_connect_fields cd1 = Inr ()" and cd: "cd = cd3"
    and n: "ct_use_herdr cd2 \<Longrightarrow> length (ct_herdr_session cd2) \<le> 64 \<and> list_all herdr_char (ct_herdr_session cd2)"
    by (auto simp: bind_result_Inr_iff not_less split: if_split_asm)
  have "ct_use_herdr cd2 \<Longrightarrow> ct_herdr_session cd2 \<noteq> []"
    by (auto simp: cd2_def herdr_choice_def Let_def split: if_splits)
  moreover have "ct_term cd1 \<noteq> []" "trim_space (ct_host cd1) = ct_host cd1" by (simp_all add: cd1_def)
  moreover have "ct_host cd1 \<noteq> [] \<and> length (ct_host cd1) \<le> 253 \<and> 1 \<le> ct_port cd1 \<and> ct_port cd1 \<le> 65535 \<and>
      ct_username cd1 \<noteq> [] \<and> length (ct_username cd1) \<le> 128 \<and> trim_space (ct_private_key cd1) \<noteq> [] \<and>
      length (ct_private_key cd1) \<le> 128 * 1024 \<and> length (ct_passphrase cd1) \<le> 8 * 1024 \<and> length (ct_term cd1) \<le> 64"
    using c by (simp add: check_connect_fields_def result_iff)
  ultimately show ?thesis using n
    by (simp add: connect_valid_def cd cd3_def) (simp add: cd2_def)
qed

lemma start_shell_writes:
  assumes "start_shell lib req trm rows cols client = (r, acts)" "WriteStdin cmd \<in> set acts"
  shows "rq_use_herdr req \<and> cmd = herdr_attach (rq_herdr_session req)"
  using assms
  by (auto simp: start_shell_def herdr_available_def Let_def split: if_split_asm)

lemma connect_acts:
  assumes "connect lib req timeout = (r, acts)" "acts \<noteq> []"
  shows "(\<exists>t. hd acts = Dial (join_host_port (rq_host req) (itoa (rq_port req))) (rq_username req) t) \<and>
    (\<forall>cmd. WriteStdin cmd \<in> set acts \<longrightarrow> rq_use_herdr req \<and> cmd = herdr_attach (rq_herdr_session req))"
proof (cases rule: connect_cases [of lib req timeout])
  case (refused err)
  with assms show ?thesis by simp
next
  case (undialled signer t err)
  with assms show ?thesis by auto
next
  case (dialled signer t client trm rows cols r' acts')
  with assms start_shell_writes [OF dialled(4)] show ?thesis by auto
qed

text \<open>The ways \<^verbatim>\<open>handleConnect\<close> can end.\<close>

lemma handle_connect_cases:
  assumes "handle_connect env h s raw rnd1 rnd2 sent = (go, h', s', out, acts)"
  obtains (refused) code msg where "go = False" "h' = h" "wx_connected s' = wx_connected s" "wx_ssh s' = wx_ssh s"
      "out = [ErrorMsg code msg]" "acts = []"
  | (failed) cd err where "connect_valid cd"
      "validate_host_port (hd_policy h) (we_lookup env) (ct_host cd) (ct_port cd) = Inr ()"
      "hd_sessions h < sh_max_sessions (c_ssh (hd_cfg h))"
      "connect (we_ssh env) (request_of cd) (sh_connect_timeout (c_ssh (hd_cfg h))) = (Inl err, acts)"
      "go = False" "h' = h" "wx_connected s' = wx_connected s" "wx_ssh s' = wx_ssh s"
      "out = [ErrorMsg (fst (classify_ssh_error err)) (snd (classify_ssh_error err))]"
  | (opened) cd ssh where "connect_valid cd"
      "validate_host_port (hd_policy h) (we_lookup env) (ct_host cd) (ct_port cd) = Inr ()"
      "hd_sessions h < sh_max_sessions (c_ssh (hd_cfg h))"
      "connect (we_ssh env) (request_of cd) (sh_connect_timeout (c_ssh (hd_cfg h))) = (Inr ssh, acts)"
      "go = sent" "h' = h\<lparr>hd_sessions := hd_sessions h + 1\<rparr>" "wx_connected s'" "wx_ssh s' = Some ssh"
proof (cases "decode_connect raw")
  case None
  with assms show ?thesis by (intro refused) (auto simp: handle_connect_def)
next
  case raw: (Some cd0)
  show ?thesis
  proof (cases "prepare_connect cd0 rnd1")
    case (Inl err)
    with assms raw show ?thesis
      by (intro refused [of "fst err" "snd err"]) (auto simp: handle_connect_def split: prod.splits)
  next
    case prep: (Inr cd)
    note valid = prepare_connect_valid [OF prep]
    show ?thesis
    proof (cases "validate_host_port (hd_policy h) (we_lookup env) (ct_host cd) (ct_port cd)")
      case (Inl err)
      with assms raw prep show ?thesis
        by (cases err) (rule refused; force simp: handle_connect_def)
    next
      case ok: (Inr u)
      obtain got h1 where r: "reserve_session h = (got, h1)" by fastforce
      show ?thesis
      proof (cases got)
        case False
        with assms raw prep ok r show ?thesis
          by (intro refused) (auto simp: handle_connect_def Let_def reserve_session_iff)
      next
        case True
        with r have h1: "h1 = h\<lparr>hd_sessions := hd_sessions h + 1\<rparr>"
          and free: "hd_sessions h < sh_max_sessions (c_ssh (hd_cfg h))"
          by (simp_all add: reserve_session_iff)
        obtain res as where c: "connect (we_ssh env) (request_of cd) (sh_connect_timeout (c_ssh (hd_cfg h))) = (res, as)"
          by fastforce
        have c1: "connect (we_ssh env) (request_of cd) (sh_connect_timeout (c_ssh (hd_cfg h1))) = (res, as)"
          using c h1 by simp
        show ?thesis
        proof (cases res)
          case (Inl err)
          with assms raw prep ok r True c c1 h1 valid free show ?thesis
            by (intro failed [of cd err]) (auto simp: handle_connect_def Let_def open_shell_def release_session_def split: prod.splits)
        next
          case (Inr ssh)
          with assms raw prep ok r True c c1 h1 valid free show ?thesis
            by (intro opened [of cd ssh]) (auto simp: handle_connect_def Let_def open_shell_def)
        qed
      qed
    qed
  qed
qed

lemma prepare_connect_keeps:
  assumes "prepare_connect cd0 rnd = Inr cd"
  shows "ct_host cd = trim_space (ct_host cd0)" "ct_port cd = (if ct_port cd0 = 0 then 22 else ct_port cd0)"
    "ct_username cd = trim_space (ct_username cd0)" "ct_private_key cd = ct_private_key cd0" "ct_passphrase cd = ct_passphrase cd0"
  using assms by (auto simp: prepare_connect_def Let_def bind_result_Inr_iff split: if_split_asm)

text \<open>What a connect request comes to: the attempt on the SSH side, if it gets that far.\<close>

definition ssh_attempt ::
  "('g, 'c) ws_env \<Rightarrow> handler \<Rightarrow> connect_data \<Rightarrow> bytes \<Rightarrow> (connect_request \<times> (ssh_error + 'c ssh_session) \<times> ssh_action list) option" where
  "ssh_attempt env h cd0 rnd =
    (case prepare_connect cd0 rnd of
       Inl _ \<Rightarrow> None
     | Inr cd \<Rightarrow>
         if validate_host_port (hd_policy h) (we_lookup env) (ct_host cd) (ct_port cd) = Inr () \<and>
           hd_sessions h < sh_max_sessions (c_ssh (hd_cfg h))
         then Some (request_of cd, connect (we_ssh env) (request_of cd) (sh_connect_timeout (c_ssh (hd_cfg h)))) else None)"

lemma handle_connect_served:
  assumes "decode_connect raw = Some cd0" "handle_connect env h s raw rnd1 rnd2 True = (go, h', s', out, acts)"
  obtains (refused) code msg where "\<not> go" "h' = h" "out = [ErrorMsg code msg]" "acts = []" "ssh_attempt env h cd0 rnd1 = None"
  | (failed) req err code msg where "\<not> go" "h' = h" "out = [ErrorMsg code msg]" "ssh_attempt env h cd0 rnd1 = Some (req, Inl err, acts)"
  | (opened) req ssh i name where "go" "h' = h\<lparr>hd_sessions := hd_sessions h + 1\<rparr>"
      "out = [ConnectedMsg i (rq_host req) (rq_port req) (rq_username req) name]" "ssh_attempt env h cd0 rnd1 = Some (req, Inr ssh, acts)"
proof (cases "prepare_connect cd0 rnd1")
  case (Inl err)
  with assms show ?thesis by (intro refused [of "fst err" "snd err"]) (auto simp: handle_connect_def ssh_attempt_def split: prod.splits)
next
  case prep: (Inr cd)
  show ?thesis
  proof (cases "validate_host_port (hd_policy h) (we_lookup env) (ct_host cd) (ct_port cd)")
    case (Inl err)
    then obtain code msg where "validate_host_port (hd_policy h) (we_lookup env) (ct_host cd) (ct_port cd) = Inl (PolicyError code msg)"
      by (cases err) simp
    with assms prep show ?thesis by (intro refused [of code msg]) (simp_all add: handle_connect_def ssh_attempt_def)
  next
    case ok: (Inr u)
    show ?thesis
    proof (cases "hd_sessions h < sh_max_sessions (c_ssh (hd_cfg h))")
      case False
      then have "reserve_session h = (False, h)" by (simp add: reserve_session_iff)
      with assms prep ok False show ?thesis by (intro refused) (auto simp: handle_connect_def ssh_attempt_def Let_def)
    next
      case free: True
      let ?h = "h\<lparr>hd_sessions := hd_sessions h + 1\<rparr>"
      have r: "reserve_session h = (True, ?h)" using free by (simp add: reserve_session_iff)
      obtain res as where c: "connect (we_ssh env) (request_of cd) (sh_connect_timeout (c_ssh (hd_cfg h))) = (res, as)" by fastforce
      have a: "ssh_attempt env h cd0 rnd1 = Some (request_of cd, res, as)" using prep ok free c by (simp add: ssh_attempt_def)
      have rq: "rq_host (request_of cd) = ct_host cd" "rq_port (request_of cd) = ct_port cd" "rq_username (request_of cd) = ct_username cd"
        by (simp_all add: request_of_def)
      show ?thesis
      proof (cases res)
        case (Inl err)
        with assms prep ok r c a show ?thesis
          by (auto simp: handle_connect_def Let_def open_shell_def release_session_def intro: failed split: prod.splits)
      next
        case (Inr ssh)
        with assms prep ok r c a rq show ?thesis by (intro opened) (auto simp: handle_connect_def Let_def open_shell_def)
      qed
    qed
  qed
qed

lemma ssh_attempt_request:
  assumes "ssh_attempt env h cd0 rnd = Some (req, res, acts)"
  shows "rq_host req = trim_space (ct_host cd0)" "rq_port req = (if ct_port cd0 = 0 then 22 else ct_port cd0)"
    "rq_username req = trim_space (ct_username cd0)" "rq_private_key req = ct_private_key cd0" "rq_passphrase req = ct_passphrase cd0"
    "validate_host_port (hd_policy h) (we_lookup env) (rq_host req) (rq_port req) = Inr ()"
    "acts \<noteq> [] \<Longrightarrow> \<exists>t. hd acts = Dial (join_host_port (rq_host req) (itoa (rq_port req))) (rq_username req) t"
proof -
  obtain cd where cd: "prepare_connect cd0 rnd = Inr cd" "validate_host_port (hd_policy h) (we_lookup env) (ct_host cd) (ct_port cd) = Inr ()"
    "req = request_of cd" "connect (we_ssh env) (request_of cd) (sh_connect_timeout (c_ssh (hd_cfg h))) = (res, acts)"
    using assms by (auto simp: ssh_attempt_def split: sum.split_asm if_split_asm)
  then show "rq_host req = trim_space (ct_host cd0)" "rq_port req = (if ct_port cd0 = 0 then 22 else ct_port cd0)"
    "rq_username req = trim_space (ct_username cd0)" "rq_private_key req = ct_private_key cd0" "rq_passphrase req = ct_passphrase cd0"
    "validate_host_port (hd_policy h) (we_lookup env) (rq_host req) (rq_port req) = Inr ()"
    using prepare_connect_keeps [OF cd(1)] by (simp_all add: request_of_def)
  show "\<exists>t. hd acts = Dial (join_host_port (rq_host req) (itoa (rq_port req))) (rq_username req) t" if "acts \<noteq> []"
    using connect_acts [OF cd(4) that] cd(3) by simp
qed

text \<open>
  The request that is carried out against the one that was asked for: host and user without the
  spaces around them, the port or 22, the terminal, its size and the Herdr name or their defaults.
\<close>

definition carried_out :: "connect_data \<Rightarrow> bytes \<Rightarrow> connect_data \<Rightarrow> bool" where
  "carried_out cd0 rnd cd \<longleftrightarrow>
     ct_host cd = trim_space (ct_host cd0) \<and> ct_port cd = (if ct_port cd0 = 0 then 22 else ct_port cd0) \<and>
     ct_username cd = trim_space (ct_username cd0) \<and> ct_private_key cd = ct_private_key cd0 \<and>
     ct_passphrase cd = ct_passphrase cd0 \<and>
     ct_term cd = (if ct_term cd0 = [] then ''xterm-256color'' else ct_term cd0) \<and>
     ct_rows cd = (if 5 \<le> ct_rows cd0 \<and> ct_rows cd0 \<le> 200 then ct_rows cd0 else 24) \<and>
     ct_cols cd = (if 20 \<le> ct_cols cd0 \<and> ct_cols cd0 \<le> 500 then ct_cols cd0 else 80) \<and>
     ct_use_herdr cd = (ct_use_herdr cd0 \<or> ct_use_tmux cd0) \<and>
     ct_herdr_session cd =
       (if ct_herdr_session cd0 \<noteq> [] then ct_herdr_session cd0
        else if ct_tmux_session cd0 \<noteq> [] then ct_tmux_session cd0
        else if ct_use_herdr cd then ''gowebssh-'' @ new_session_id rnd else [])"

lemma prepare_connect_carried_out:
  assumes "prepare_connect cd0 rnd = Inr cd"
  shows "carried_out cd0 rnd cd"
proof -
  define cd1 where "cd1 = cd0\<lparr>ct_host := trim_space (ct_host cd0), ct_username := trim_space (ct_username cd0),
      ct_port := (if ct_port cd0 = 0 then 22 else ct_port cd0),
      ct_term := (if ct_term cd0 = [] then ''xterm-256color'' else ct_term cd0)\<rparr>"
  define cd2 where "cd2 = herdr_choice cd1 rnd"
  define cd3 where "cd3 = cd2\<lparr>ct_rows := (if ct_rows cd2 < 5 \<or> ct_rows cd2 > 200 then 24 else ct_rows cd2),
      ct_cols := (if ct_cols cd2 < 20 \<or> ct_cols cd2 > 500 then 80 else ct_cols cd2)\<rparr>"
  have "bind_result (check_connect_fields cd1) (\<lambda>_.
      if ct_use_herdr cd2 \<and> (length (ct_herdr_session cd2) > 64 \<or> \<not> list_all herdr_char (ct_herdr_session cd2))
      then Inl (''BAD_REQUEST'', ''Herdr session name is invalid'') else Inr cd3) = Inr cd"
    using assms unfolding prepare_connect_def Let_def cd1_def cd2_def cd3_def .
  then have cd: "cd = cd3" by (auto simp: bind_result_Inr_iff split: if_split_asm)
  have herdr: "ct_use_herdr cd2 = (ct_use_herdr cd1 \<or> ct_use_tmux cd1)" "ct_herdr_session cd2 =
      (if ct_herdr_session cd1 \<noteq> [] then ct_herdr_session cd1
       else if ct_tmux_session cd1 \<noteq> [] then ct_tmux_session cd1
       else if ct_use_herdr cd2 then ''gowebssh-'' @ new_session_id rnd else [])"
    unfolding cd2_def herdr_choice_def Let_def by (simp_all split del: if_split) (simp split: if_split)
  show ?thesis unfolding carried_out_def cd cd3_def
    by (simp add: herdr split del: if_split) (simp add: cd2_def cd1_def not_less [symmetric] split: if_split)
qed

lemma handle_connect_acts:
  assumes "handle_connect env h s raw rnd1 rnd2 sent = (go, h', s', out, acts)" "acts \<noteq> []"
  obtains cd0 cd where "decode_connect raw = Some cd0" "prepare_connect cd0 rnd1 = Inr cd"
    "validate_host_port (hd_policy h) (we_lookup env) (ct_host cd) (ct_port cd) = Inr ()"
    "hd_sessions h < sh_max_sessions (c_ssh (hd_cfg h))"
    "acts = snd (connect (we_ssh env) (request_of cd) (sh_connect_timeout (c_ssh (hd_cfg h))))"
proof -
  from assms obtain cd0 where d: "decode_connect raw = Some cd0"
    by (auto simp: handle_connect_def split: option.split_asm)
  with assms obtain cd where p: "prepare_connect cd0 rnd1 = Inr cd"
    by (auto simp: handle_connect_def split: sum.split_asm)
  have v: "validate_host_port (hd_policy h) (we_lookup env) (ct_host cd) (ct_port cd) = Inr ()"
    using assms d p by (auto simp: handle_connect_def split: sum.split_asm policy_error.split_asm)
  have r: "hd_sessions h < sh_max_sessions (c_ssh (hd_cfg h))"
    using assms d p v by (auto simp: handle_connect_def reserve_session_def split: if_split_asm)
  have "acts = snd (connect (we_ssh env) (request_of cd) (sh_connect_timeout (c_ssh (hd_cfg h))))"
    using assms d p v r
    by (auto simp: handle_connect_def reserve_session_def open_shell_def Let_def split: prod.split_asm sum.split_asm)
  from that [OF d p v r this] show ?thesis .
qed

section \<open>Properties\<close>

text \<open>
  C2: before the handler does anything on the SSH side, the request has passed every check: sizes,
  port, key, a Herdr name of letters, digits, dash and underscore, the network policy and the session
  limit. What is then done is the attempt with the request as it was sent, its host and user trimmed and what it left out
  filled in: that host is dialled, with its port, as its user and with its key, and the only command the handler itself types
  is the attach command for its Herdr name.
\<close>

theorem connect_only_validated:
  assumes "handle_connect env h s raw rnd1 rnd2 sent = (go, h', s', out, acts)" "acts \<noteq> []"
  shows "\<exists>cd0 cd t. decode_connect raw = Some cd0 \<and> prepare_connect cd0 rnd1 = Inr cd \<and>
    carried_out cd0 rnd1 cd \<and> connect_valid cd \<and>
    validate_host_port (hd_policy h) (we_lookup env) (ct_host cd) (ct_port cd) = Inr () \<and>
    hd_sessions h < sh_max_sessions (c_ssh (hd_cfg h)) \<and>
    acts = snd (connect (we_ssh env) (request_of cd) (sh_connect_timeout (c_ssh (hd_cfg h)))) \<and>
    hd acts = Dial (join_host_port (ct_host cd) (itoa (ct_port cd))) (ct_username cd) t \<and>
    (\<forall>cmd. WriteStdin cmd \<in> set acts \<longrightarrow>
       ct_use_herdr cd \<and> cmd = ''herdr session attach '' @ ct_herdr_session cd @ [CHR 0x0D] \<and>
       list_all herdr_char (ct_herdr_session cd) \<and> ct_herdr_session cd \<noteq> [] \<and> length (ct_herdr_session cd) \<le> 64)"
proof -
  obtain cd0 cd where cd: "decode_connect raw = Some cd0" "prepare_connect cd0 rnd1 = Inr cd"
    "validate_host_port (hd_policy h) (we_lookup env) (ct_host cd) (ct_port cd) = Inr ()"
    "hd_sessions h < sh_max_sessions (c_ssh (hd_cfg h))"
    "acts = snd (connect (we_ssh env) (request_of cd) (sh_connect_timeout (c_ssh (hd_cfg h))))"
    using handle_connect_acts [OF assms] .
  note valid = prepare_connect_valid [OF cd(2)]
  have c: "connect (we_ssh env) (request_of cd) (sh_connect_timeout (c_ssh (hd_cfg h))) = (fst (connect (we_ssh env) (request_of cd) (sh_connect_timeout (c_ssh (hd_cfg h)))), acts)"
    using cd(5) by simp
  from connect_acts [OF c assms(2)] obtain t
    where d: "hd acts = Dial (join_host_port (ct_host cd) (itoa (ct_port cd))) (ct_username cd) t"
    and w: "\<And>cmd. WriteStdin cmd \<in> set acts \<Longrightarrow> ct_use_herdr cd \<and> cmd = herdr_attach (ct_herdr_session cd)"
    by (auto simp: request_of_def)
  have "\<forall>cmd. WriteStdin cmd \<in> set acts \<longrightarrow>
       ct_use_herdr cd \<and> cmd = ''herdr session attach '' @ ct_herdr_session cd @ [CHR 0x0D] \<and>
       list_all herdr_char (ct_herdr_session cd) \<and> ct_herdr_session cd \<noteq> [] \<and> length (ct_herdr_session cd) \<le> 64"
    using w valid by (simp add: connect_valid_def herdr_attach_def)
  with cd valid d prepare_connect_carried_out [OF cd(2)] show ?thesis by blast
qed

text \<open>
  No session slot leaks. Over the whole of a session, however it ends (a refused or failed
  connect, a connected message that cannot be written, the client or the shell going away), the
  counter changes by exactly what the other sessions change it in the meantime.
\<close>

theorem session_slot_returned:
  assumes "\<And>g. hd_sessions (others g) = hd_sessions g + d"
  shows "hd_sessions (fst (run_session env h rnd1 rnd2 sent write_ok ended others frames)) = hd_sessions h + d"
proof -
  have slot: "hd_sessions h' = hd_sessions h + (if wx_connected s then 1 else 0)"
    if "await_connect env h new_session rnd1 rnd2 sent frames = ((go, h', s, out, acts), rest)" for go h' s out acts rest
    using that
  proof (induction frames)
    case Nil
    then show ?case by (auto simp: new_session_def)
  next
    case (Cons f fs)
    show ?case
    proof (cases f)
      case ReadError
      with Cons.prems show ?thesis by (auto simp: new_session_def)
    next
      case (Frame mt data)
      have conn: ?thesis if "handle_connect env h new_session raw rnd1 rnd2 sent = (go, h', s, out, acts)" for raw
        using that by (cases rule: handle_connect_cases) (auto simp: new_session_def)
      from Frame Cons.prems Cons.IH conn show ?thesis
        by (auto simp: new_session_def split: if_split_asm option.split_asm)
    qed
  qed
  obtain go h' s out acts rest where a:
    "await_connect env h new_session rnd1 rnd2 sent frames = ((go, h', s, out, acts), rest)"
    by (metis prod.collapse)
  show ?thesis
    using slot [OF a] assms
    by (cases go) (auto simp: run_session_def a cleanup_def release_session_def split: prod.splits)
qed

text \<open>
  C8: however the goroutines interleave, at most \<^verbatim>\<open>ssh.max_sessions\<close> of them hold a session at a
  time, the counter is their number, and the tunnels' counter is not touched; and a goroutine
  that is not disturbed gets the answer of \<open>reserve_session\<close>.
\<close>

theorem session_limit_holds:
  assumes "slot_reach hd_sessions (\<lambda>n h. h\<lparr>hd_sessions := n\<rparr>) (\<lambda>h. sh_max_sessions (c_ssh (hd_cfg h)))
      (h0, \<lambda>_. Outside) (h, pc)"
    and "hd_sessions h0 = 0" "0 \<le> sh_max_sessions (c_ssh (hd_cfg h0))"
  shows "finite (holders pc) \<and> hd_sessions h = int (card (holders pc)) \<and>
    int (card (holders pc)) \<le> sh_max_sessions (c_ssh (hd_cfg h0)) \<and>
    (pc i = Outside \<longrightarrow>
      slot_reach hd_sessions (\<lambda>n h. h\<lparr>hd_sessions := n\<rparr>) (\<lambda>h. sh_max_sessions (c_ssh (hd_cfg h))) (h, pc)
        (snd (reserve_session h), pc(i := if fst (reserve_session h) then Holding else Outside)))"
  using sessions.reach_invariant [OF assms(1) _ assms(2,3)] sessions.solo_reserve [of pc i h]
  by (simp add: reserve_session_eq holders_def)

text \<open>
  C12: nothing is sent or done on the SSH side, and no slot is taken, for a request without an
  authenticated session or from an origin that is neither the server's own nor configured. With no
  configured origins, a request that names an origin is from \<^verbatim>\<open>http(s)://\<close> and the host asked for,
  up to the port under \<^verbatim>\<open>https\<close>.
\<close>

theorem websocket_needs_session_and_origin:
  assumes "serve_http env h r now up rnd1 rnd2 sent write_ok ended others frames = (reply, h', out, acts)"
    and "out \<noteq> [] \<or> acts \<noteq> [] \<or> hd_sessions h' \<noteq> hd_sessions h"
  shows "fst (session_from_request (we_crypto env) (hd_auth h) (hd_store h) (hr_cookie r) now) \<noteq> None \<and>
    check_origin (hd_cfg h) r \<and>
    (sv_allowed_origins (c_server (hd_cfg h)) = [] \<and> hr_origin r \<noteq> [] \<longrightarrow>
       hr_origin r \<in> {''http://'' @ hr_host r, ''https://'' @ hr_host r,
         ''https://'' @ hd (split_on CHR '':'' (hr_host r))})"
proof -
  obtain who store where w:
    "session_from_request (we_crypto env) (hd_auth h) (hd_store h) (hr_cookie r) now = (who, store)"
    by fastforce
  have "who \<noteq> None" "check_origin (hd_cfg h) r"
    using assms w by (auto simp: serve_http_def Let_def split: if_split_asm)
  moreover have "origin \<in> {''http://'' @ host, ''https://'' @ host, ''https://'' @ hd (split_on CHR '':'' host)}"
    if "is_same_origin host origin" for host origin
  proof (cases "has_prefix origin ''https://''")
    case True
    then obtain x where x: "origin = ''https://'' @ x" by (auto simp: has_prefix_iff)
    with that show ?thesis by (simp only: is_same_origin_def has_prefix_append if_True trim_prefix_append Let_def) auto
  next
    case False
    with that have "has_prefix origin ''http://''" by (simp add: is_same_origin_def split: if_split_asm)
    then obtain x where x: "origin = ''http://'' @ x" by (auto simp: has_prefix_iff)
    with that False show ?thesis
      by (simp only: is_same_origin_def has_prefix_append if_True if_False trim_prefix_append) auto
  qed
  ultimately show ?thesis using w by (auto simp: check_origin_def)
qed

text \<open>
  What the client types arrives: a run of well-formed input messages of at most 64 KiB each is
  written to the shell in order, nothing else is done and nothing is sent back.
\<close>

theorem input_reaches_shell:
  assumes "list_all2 (\<lambda>f input. \<exists>mt data raw. f = Frame mt data \<and> mt \<noteq> OtherFrame \<and>
      length data \<le> 64 * 1024 + 2048 \<and> decode_message data = Some (''input'', raw) \<and>
      decode_string raw = Some input \<and> length input \<le> 64 * 1024 \<and> write_ok input) frames inputs"
  shows "read_loop env write_ok frames = ([], map WriteStdin inputs)"
  using assms
proof (induction rule: list_all2_induct)
  case Nil
  then show ?case by simp
next
  case (Cons f fs input inputs)
  from Cons.hyps(1) obtain mt data raw where f: "f = Frame mt data" "mt \<noteq> OtherFrame" and
    d: "\<not> 64 * 1024 + 2048 < length data" "decode_message data = Some (''input'', raw)" and
    i: "decode_string raw = Some input" "\<not> 64 * 1024 < length input" "write_ok input"
    by (auto simp: not_less)
  have "read_frame env write_ok f = (True, [], [WriteStdin input])"
    unfolding read_frame_def f(1) frame.case if_not_P [OF f(2)] if_not_P [OF d(1)] d(2) option.case prod.case
      if_P [OF refl] i(1) if_not_P [OF i(2)] using i(3) by simp
  with Cons.IH show ?case by simp
qed

text \<open>What a read loop may do on the SSH side.\<close>

fun loop_action_ok :: "ssh_action \<Rightarrow> bool" where
  "loop_action_ok (WriteStdin input) \<longleftrightarrow> length input \<le> 64 * 1024"
| "loop_action_ok (ChangeWindow rows cols) \<longleftrightarrow> 5 \<le> rows \<and> rows \<le> 200 \<and> 20 \<le> cols \<and> cols \<le> 500"
| "loop_action_ok _ \<longleftrightarrow> False"

text \<open>
  The read loop does nothing but write inputs of at most 64 KiB to the shell and resize it
  within 5 to 200 rows and 20 to 500 columns, whatever the client sends.
\<close>

theorem read_loop_bounded:
  "list_all loop_action_ok (snd (read_loop env write_ok frames))"
proof -
  have one: "list_all loop_action_ok acts" if "read_frame env write_ok f = (go, out, acts)" for f go out acts
    using that
    by (cases f) (auto simp: read_frame_def not_less split: if_split_asm option.split_asm prod.split_asm)
  show ?thesis
  proof (induction frames)
    case Nil
    then show ?case by simp
  next
    case (Cons f fs)
    obtain go out acts where f: "read_frame env write_ok f = (go, out, acts)" by (metis prod.collapse)
    with Cons one [OF f] show ?case by (cases go) (auto split: prod.splits)
  qed
qed

section \<open>Witnesses\<close>

text \<open>A request, a policy, an environment and a handler.\<close>

definition sample_connect :: "string \<Rightarrow> connect_data" where
  "sample_connect host =
    \<lparr>ct_host = host, ct_port = 0, ct_username = ''root'', ct_private_key = ''key'', ct_passphrase = [],
     ct_term = [], ct_cols = 80, ct_rows = 24, ct_use_herdr = True, ct_use_tmux = False,
     ct_herdr_session = ''work-1'', ct_tmux_session = []\<rparr>"

definition sample_policy :: network_policy where
  "sample_policy = \<lparr>np_allow_private = False,
     np_deny = [Prefix (V4 0x7F000000) 8, Prefix (V6 1 []) 128, Prefix (V4 0) 8, Prefix (V4 0xA9FE0000) 16,
       Prefix (V4 0x0A000000) 8, Prefix (V4 0xAC100000) 12, Prefix (V4 0xC0A80000) 16,
       Prefix (V6 0xFC000000000000000000000000000000 []) 7, Prefix (V6 0xFE800000000000000000000000000000 []) 10],
     np_allow = []\<rparr>"

lemma sample_policy_built: "new_network_policy False [] [] = Inr sample_policy"
  by (simp add: new_network_policy_def default_deny_parses private_deny_parses sample_policy_def)

definition sample_ws :: "(string, string) ws_env" where
  "sample_ws =
    \<lparr>we_crypto = sample_crypto, we_number = Some, we_lookup = (\<lambda>h. Some [replicate 4 (CHR 0x08)]), we_ssh = sample_lib\<rparr>"

definition sample_handler :: handler where
  "sample_handler =
    \<lparr>hd_cfg = default_config, hd_auth = sample_auth, hd_store = snd (sample_login False), hd_policy = sample_policy,
     hd_sessions = 0, hd_tunnels = 0\<rparr>"

definition sample_cookie :: string where
  "sample_cookie = (case fst (sample_login False) of Inr ck \<Rightarrow> ck_value ck | Inl _ \<Rightarrow> [])"

definition sample_http :: http_request where
  "sample_http = \<lparr>hr_cookie = Some sample_cookie, hr_origin = ''https://h'', hr_host = ''h:8443'',
     hr_forwarded = [], hr_remote = ''10.0.0.1:5000''\<rparr>"

definition sample_step :: "string step" where
  "sample_step = handle_connect sample_ws sample_handler new_session (connect_text (sample_connect ''dns.google'')) [] [] True"

lemma sample_step_acts:
  "snd (snd (snd (snd sample_step))) =
     [Dial ''dns.google:22'' ''root'' (15 * second), OpenClient, OpenSession, RunProbe herdr_probe, CloseSession, OpenSession,
      RequestPty ''xterm-256color'' 24 80, StartShell, WriteStdin (herdr_attach ''work-1'')]"
  by code_simp

theorem connect_only_validated_witness:
  "\<exists>cd. prepare_connect (sample_connect ''dns.google'') [] = Inr cd \<and> connect_valid cd \<and>
     ct_private_key cd = ''key'' \<and> ct_port cd = 22 \<and> ct_herdr_session cd = ''work-1''"
proof -
  let ?acts = "snd (snd (snd (snd sample_step)))"
  have st: "sample_step = (fst sample_step, fst (snd sample_step), fst (snd (snd sample_step)),
      fst (snd (snd (snd sample_step))), ?acts)" by simp
  have a: "?acts \<noteq> []" unfolding sample_step_acts by simp
  obtain cd0 cd where cd: "decode_connect (connect_text (sample_connect ''dns.google'')) = Some cd0"
    "prepare_connect cd0 [] = Inr cd" "carried_out cd0 [] cd" "connect_valid cd"
    using connect_only_validated [OF trans [OF sample_step_def [symmetric] st] a] by blast
  have d: "decode_connect (connect_text (sample_connect ''dns.google'')) = Some (sample_connect ''dns.google'')" by code_simp
  from cd(1) d have "cd0 = sample_connect ''dns.google''" by simp
  with cd show ?thesis by (intro exI [of _ cd]) (simp add: carried_out_def sample_connect_def)
qed
definition sample_frames :: "frame list" where
  "sample_frames = [Frame OtherFrame [], Frame TextFrame (encode_message ''connect'' (connect_text (sample_connect ''dns.google''))),
    Frame TextFrame (encode_message ''input'' (json_quote ''ls''))]"

theorem session_slot_returned_witness:
  "hd_sessions (fst (run_session sample_ws sample_handler [] [] True (\<lambda>_. True) ShellExit
      (\<lambda>h. h\<lparr>hd_sessions := hd_sessions h + 2\<rparr>) sample_frames)) = 2"
proof -
  have z: "hd_sessions sample_handler = 0" by (simp add: sample_handler_def)
  have "hd_sessions (fst (run_session sample_ws sample_handler [] [] True (\<lambda>_. True) ShellExit
      (\<lambda>h. h\<lparr>hd_sessions := hd_sessions h + 2\<rparr>) sample_frames)) = hd_sessions sample_handler + 2"
    by (rule session_slot_returned) simp
  with z show ?thesis by simp
qed

theorem session_limit_holds_witness:
  "int (card (holders ((\<lambda>_. Outside)(3::nat := Holding)))) \<le> 5"
proof -
  let ?R = "slot_reach hd_sessions (\<lambda>n h. h\<lparr>hd_sessions := n\<rparr>) (\<lambda>h. sh_max_sessions (c_ssh (hd_cfg h)))"
  have r: "?R (sample_handler, \<lambda>_. Outside)
      (snd (reserve_session sample_handler),
       (\<lambda>_. Outside)(3::nat := if fst (reserve_session sample_handler) then Holding else Outside))"
    unfolding reserve_session_eq by (rule sessions.solo_reserve) simp
  have l: "hd_sessions sample_handler = 0" "sh_max_sessions (c_ssh (hd_cfg sample_handler)) = 5"
    by (simp_all add: sample_handler_def default_config_def)
  then have "fst (reserve_session sample_handler)" by (simp add: reserve_session_def)
  with session_limit_holds [OF r l(1), THEN conjunct2, THEN conjunct2, THEN conjunct1] l(2)
  show ?thesis by simp
qed

theorem websocket_needs_session_and_origin_witness:
  "check_origin (hd_cfg sample_handler) sample_http \<and>
   fst (session_from_request sample_crypto sample_auth (snd (sample_login False)) (Some sample_cookie) 0) \<noteq> None"
proof -
  let ?s = "serve_http sample_ws sample_handler sample_http 0 True [] [] True (\<lambda>_. True) ShellExit (\<lambda>h. h) sample_frames"
  have o: "fst (snd (snd ?s)) \<noteq> []" by code_simp
  obtain reply h' out acts where s: "?s = (reply, h', out, acts)" by (metis prod.collapse)
  with o have "out \<noteq> []" by simp
  then show ?thesis
    using websocket_needs_session_and_origin [OF s]
    by (simp add: sample_ws_def sample_handler_def sample_http_def)
qed

theorem input_reaches_shell_witness:
  "read_loop sample_ws (\<lambda>_. True) [Frame TextFrame (encode_message ''input'' (json_quote ''ls'')), Frame BinaryFrame (encode_message ''input'' (json_quote ''pwd''))] =
     ([], [WriteStdin ''ls'', WriteStdin ''pwd''])"
proof -
  have l: "length (encode_message ''input'' (json_quote ''ls'')) \<le> 64 * 1024 + 2048" "length (encode_message ''input'' (json_quote ''pwd'')) \<le> 64 * 1024 + 2048"
    by code_simp+
  have d: "decode_string (json_quote ''ls'') = Some ''ls''" "decode_string (json_quote ''pwd'') = Some ''pwd''" by code_simp+
  have "list_all2 (\<lambda>f input. \<exists>mt data raw. f = Frame mt data \<and> mt \<noteq> OtherFrame \<and>
      length data \<le> 64 * 1024 + 2048 \<and> decode_message data = Some (''input'', raw) \<and>
      decode_string raw = Some input \<and> length input \<le> 64 * 1024 \<and> (\<lambda>_. True) input)
    [Frame TextFrame (encode_message ''input'' (json_quote ''ls'')), Frame BinaryFrame (encode_message ''input'' (json_quote ''pwd''))] [''ls'', ''pwd'']"
    using l by (simp add: decode_input_message d)
  from input_reaches_shell [OF this] show ?thesis by simp
qed

text \<open>
  A bracketed IPv6 address passes the policy, which strips the brackets, but is dialled with a
  second pair of brackets, which no dialler accepts.
\<close>

definition sample_v6_handler :: handler where
  "sample_v6_handler = sample_handler\<lparr>hd_policy := sample_policy\<lparr>np_allow := [Prefix (V6 0 []) 0]\<rparr>\<rparr>"

lemma bracketed_host_misdialled:
  "resolve_allowed_host_port (hd_policy sample_v6_handler) (\<lambda>_. None) ''[::2]'' 22 = Inr ''[::2]:22'' \<and>
   take 1 (snd (snd (snd (snd (handle_connect sample_ws sample_v6_handler new_session (connect_text (sample_connect ''[::2]'')) [] [] True)))))
     = [Dial ''[[::2]]:22'' ''root'' (15 * second)] \<and>
   split_host_port ''[[::2]]:22'' = None"
  by (intro conjI; code_simp)

end
