(* ===== verification/Byte_Writer.thy ===== *)
theory Byte_Writer
  imports Go_Prelude "HOL-Library.Sublist"
begin

text \<open>
  The contract of \<^verbatim>\<open>io.Writer\<close> as the relays use it, and the loop that writes a whole payload
  through it (\<^verbatim>\<open>writeAll\<close> of \<^verbatim>\<open>internal/ws/tunnel.go\<close>). A call of \<^verbatim>\<open>Write\<close> gives the number of bytes
  taken and whether it failed. A connection is the bytes it has taken and a plan of what it does
  with the calls to come.
\<close>

datatype write_result = WriteOk | WriteFailed | ShortWrite

text \<open>\<open>count\<close> beyond the payload would be a panic of the slice expression; \<open>drop\<close> then gives no bytes.\<close>

function write_all :: "(bytes \<Rightarrow> 's \<Rightarrow> nat \<times> bool \<times> 's) \<Rightarrow> bytes \<Rightarrow> 's \<Rightarrow> write_result \<times> 's" where
  "write_all wr payload s =
    (if payload = [] then (WriteOk, s)
     else (case wr payload s of
             (count, failed, s') \<Rightarrow>
               if failed then (WriteFailed, s')
               else if count = 0 then (ShortWrite, s')
               else write_all wr (drop count payload) s'))"
  by pat_completeness auto
termination
  by (relation "measure (\<lambda>(wr, payload, s). length payload)") auto

declare write_all.simps [simp del]

lemma write_all_Nil [simp]: "write_all wr [] s = (WriteOk, s)"
  by (simp add: write_all.simps)

section \<open>The contract\<close>

locale writer =
  fixes wr :: "bytes \<Rightarrow> 's \<Rightarrow> nat \<times> bool \<times> 's" and taken :: "'s \<Rightarrow> bytes" and calls :: "'s \<Rightarrow> nat"
  assumes takes: "wr p s = (n, failed, s') \<Longrightarrow> n \<le> length p \<and> taken s' = taken s @ take n p"
    and counts: "wr p s = (n, failed, s') \<Longrightarrow> calls s' = Suc (calls s)"
begin

text \<open>
  The loop ends after at most one call per byte; what the writer took is a prefix of the payload,
  and all of it exactly when the loop reports success.
\<close>

lemma write_all_taken:
  assumes "write_all wr payload s = (r, s')"
  shows "\<exists>n. n \<le> length payload \<and> taken s' = taken s @ take n payload \<and>
    (r = WriteOk \<longrightarrow> n = length payload) \<and> calls s' \<le> calls s + length payload"
  using assms
proof (induction payload arbitrary: s rule: length_induct)
  case (1 payload)
  show ?case
  proof (cases "payload = []")
    case True
    with 1(2) show ?thesis by (intro exI [of _ 0]) simp
  next
    case False
    then have pos: "0 < length payload" by simp
    obtain n failed s1 where w: "wr payload s = (n, failed, s1)" by (metis prod.collapse)
    note t = takes [OF w] counts [OF w]
    show ?thesis
    proof (cases "failed \<or> n = 0")
      case True
      with 1(2) w False have "s' = s1" "r \<noteq> WriteOk" by (auto simp: write_all.simps [of wr payload] split: if_split_asm)
      with t pos show ?thesis by (intro exI [of _ n]) (auto simp: Suc_le_eq)
    next
      case go: False
      with 1(2) w False have "write_all wr (drop n payload) s1 = (r, s')"
        by (simp add: write_all.simps [of wr payload])
      moreover have "length (drop n payload) < length payload" using go pos t(1) by simp
      ultimately obtain m where m: "m \<le> length payload - n" "taken s' = taken s1 @ take m (drop n payload)"
        "r = WriteOk \<longrightarrow> m = length payload - n" "calls s' \<le> calls s1 + (length payload - n)"
        using 1(1) by (metis length_drop)
      show ?thesis
      proof (intro exI [of _ "n + m"] conjI impI)
        show "taken s' = taken s @ take (n + m) payload" using t(1) m(2) by (simp add: take_add)
        show "calls s' \<le> calls s + length payload" using m(4) t go by linarith
      qed (use m t(1) in auto)
    qed
  qed
qed

lemma write_all_ok:
  assumes "write_all wr payload s = (WriteOk, s')"
  shows "taken s' = taken s @ payload"
  using write_all_taken [OF assms] by auto

end

section \<open>Connections\<close>

text \<open>
  \<open>kn_plan\<close> tells for each call of \<^verbatim>\<open>Write\<close> how many bytes the system takes and whether it fails; once
  it is used up the system takes everything.
\<close>

record connection =
  kn_taken :: bytes
  kn_calls :: nat
  kn_plan :: "(nat \<times> bool) list"

definition conn_write :: "bytes \<Rightarrow> connection \<Rightarrow> nat \<times> bool \<times> connection" where
  "conn_write p k =
    (let (n, failed) = (case kn_plan k of [] \<Rightarrow> (length p, False) | (n, failed) # _ \<Rightarrow> (min n (length p), failed))
     in (n, failed, k\<lparr>kn_taken := kn_taken k @ take n p, kn_calls := Suc (kn_calls k), kn_plan := tl (kn_plan k)\<rparr>))"

interpretation connections: writer conn_write kn_taken kn_calls
  by unfold_locales (auto simp: conn_write_def Let_def split: list.split_asm)

definition fresh_connection :: "(nat \<times> bool) list \<Rightarrow> connection" where
  "fresh_connection plan = \<lparr>kn_taken = [], kn_calls = 0, kn_plan = plan\<rparr>"

text \<open>With an empty plan the write succeeds at once.\<close>

lemma write_all_unplanned:
  assumes "kn_plan k = []"
  shows "\<exists>k'. write_all conn_write p k = (WriteOk, k') \<and> kn_plan k' = [] \<and> kn_taken k' = kn_taken k @ p"
  using assms by (cases "p = []") (auto simp: write_all.simps [of conn_write p] conn_write_def Let_def)

text \<open>Whether one of the calls that were made between two states of a connection failed.\<close>

definition call_failed :: "connection \<Rightarrow> connection \<Rightarrow> bool" where
  "call_failed k k' \<longleftrightarrow> list_ex snd (take (kn_calls k' - kn_calls k) (kn_plan k))"

lemma conn_write_step:
  assumes "conn_write p k = (n, failed, k1)"
  shows "kn_calls k1 = Suc (kn_calls k)" "kn_taken k1 = kn_taken k @ take n p" "n \<le> length p" "kn_plan k1 = tl (kn_plan k)"
    "failed \<longleftrightarrow> list_ex snd (take 1 (kn_plan k))"
  using assms by (auto simp: conn_write_def Let_def split: list.split_asm)

lemma take_Suc_tl: "list_ex P (take (Suc m) xs) \<longleftrightarrow> list_ex P (take 1 xs) \<or> list_ex P (take m (tl xs))"
  by (cases xs) auto

lemma write_all_outcome:
  assumes "write_all conn_write payload k = (r, k')"
  shows "(r = WriteFailed \<longleftrightarrow> call_failed k k') \<and> (r = ShortWrite \<longrightarrow> kn_taken k' \<noteq> kn_taken k @ payload) \<and> kn_calls k \<le> kn_calls k'"
  using assms
proof (induction payload arbitrary: k rule: length_induct)
  case (1 payload)
  show ?case
  proof (cases "payload = []")
    case True
    with 1(2) show ?thesis by (simp add: call_failed_def)
  next
    case False
    obtain n failed k1 where w: "conn_write payload k = (n, failed, k1)" by (metis prod.collapse)
    note st = conn_write_step [OF w]
    consider (fail) failed | (short) "\<not> failed" "n = 0" | (go) "\<not> failed" "0 < n" by blast
    then show ?thesis
    proof cases
      case fail
      with 1(2) w False st show ?thesis by (auto simp: write_all.simps [of conn_write payload] call_failed_def)
    next
      case short
      with 1(2) w False st show ?thesis by (auto simp: write_all.simps [of conn_write payload] call_failed_def)
    next
      case go
      with 1(2) w False have r: "write_all conn_write (drop n payload) k1 = (r, k')"
        by (simp add: write_all.simps [of conn_write payload])
      have "length (drop n payload) < length payload" using go False by simp
      with 1(1) r have ih: "(r = WriteFailed \<longleftrightarrow> call_failed k1 k') \<and> (r = ShortWrite \<longrightarrow> kn_taken k' \<noteq> kn_taken k1 @ drop n payload) \<and>
          kn_calls k1 \<le> kn_calls k'" by blast
      then have "kn_calls k' - kn_calls k = Suc (kn_calls k' - kn_calls k1)" using st(1) by linarith
      then have "call_failed k k' \<longleftrightarrow> call_failed k1 k'" using st(4,5) go(1) by (simp only: call_failed_def take_Suc_tl simp_thms)
      with ih st(1,2) show ?thesis by (simp add: append_take_drop_id)
    qed
  qed
qed

text \<open>
  C33: \<open>write_all\<close> ends, after at most one call of \<^verbatim>\<open>Write\<close> per byte, and what the connection took is a prefix of the
  payload. It reports success exactly when the whole payload was taken and no call failed, and a failed write exactly
  when a call failed, be it the one that took the last byte; the third outcome, a short write, is a call that took nothing. A
  connection whose calls all take something and do not fail gets everything.
\<close>

theorem write_all_complete:
  assumes "write_all conn_write payload k = (r, k')"
  shows "(\<exists>n. n \<le> length payload \<and> kn_taken k' = kn_taken k @ take n payload) \<and>
    (r = WriteOk \<longleftrightarrow> kn_taken k' = kn_taken k @ payload \<and> \<not> call_failed k k') \<and>
    (r = WriteFailed \<longleftrightarrow> call_failed k k') \<and>
    kn_calls k' \<le> kn_calls k + length payload \<and>
    (list_all (\<lambda>(n, failed). 0 < n \<and> \<not> failed) (kn_plan k) \<longrightarrow> r = WriteOk)"
proof -
  obtain n where n: "n \<le> length payload" "kn_taken k' = kn_taken k @ take n payload" "r = WriteOk \<longrightarrow> n = length payload"
    "kn_calls k' \<le> kn_calls k + length payload"
    using connections.write_all_taken [OF assms] by blast
  note o = write_all_outcome [OF assms]
  have iff: "r = WriteOk \<longleftrightarrow> kn_taken k' = kn_taken k @ payload \<and> \<not> call_failed k k'"
    using n o by (cases r) auto
  have "r = WriteOk" if "list_all (\<lambda>(n, failed). 0 < n \<and> \<not> failed) (kn_plan k)"
    using that assms
  proof (induction payload arbitrary: k rule: length_induct)
    case (1 payload)
    show ?case
    proof (cases "payload = []")
      case False
      obtain n failed k1 where w: "conn_write payload k = (n, failed, k1)" by (metis prod.collapse)
      from w 1(2) False have n: "0 < n" "\<not> failed" and k1: "list_all (\<lambda>(n, failed). 0 < n \<and> \<not> failed) (kn_plan k1)"
        by (auto simp: conn_write_def Let_def split: list.split_asm)
      from 1(3) w n False have "write_all conn_write (drop n payload) k1 = (r, k')"
        by (simp add: write_all.simps [of conn_write payload])
      moreover have "length (drop n payload) < length payload" using n False by simp
      ultimately show ?thesis using 1(1) k1 by blast
    qed (use 1 in simp)
  qed
  with n o iff show ?thesis by blast
qed

theorem write_all_complete_witness:
  "kn_taken (snd (write_all conn_write ''abcd'' (fresh_connection [(1, False), (2, False)]))) = ''abcd''"
proof -
  obtain r k' where w: "write_all conn_write ''abcd'' (fresh_connection [(1, False), (2, False)]) = (r, k')"
    by fastforce
  have "r = WriteOk" using write_all_complete [OF w] by (simp add: fresh_connection_def)
  with write_all_complete [OF w] w show ?thesis by (auto simp: fresh_connection_def)
qed
end
