(* ===== verification/Ws_Tunnel.thy ===== *)
theory Ws_Tunnel
  imports Ws_Handler Byte_Writer "HOL-Library.Word"
begin

text \<open>
  \<^verbatim>\<open>internal/ws/tunnel.go\<close>: the TCP relay over a WebSocket. \<open>tunnel_event\<close> is what the handler sends
  and does, in order; the two copying goroutines are a step relation, one read with its write per
  step, in any order. The target's side of the connection is a \<open>connection\<close> (what it took and what
  it will do) and the bytes it has yet to send.
\<close>

section \<open>Data\<close>

datatype tunnel_event =
    SentText ws_message
  | SentBinary bytes
  | DialTarget string
  | CloseTarget
  | SentClose

record relay =
  rl_frames :: "frame list"
  rl_source :: bytes
  rl_target :: connection
  rl_half_closed :: bool
  rl_sent :: "bytes list"
  rl_in :: "64 word"
  rl_out :: "64 word"

section \<open>Admission\<close>

definition reserve_tunnel :: "handler \<Rightarrow> bool \<times> handler" where
  "reserve_tunnel h =
    (if hd_tunnels h \<ge> tn_max_connections (c_tunnel (hd_cfg h)) then (False, h)
     else (True, h\<lparr>hd_tunnels := hd_tunnels h + 1\<rparr>))"

definition release_tunnel :: "handler \<Rightarrow> handler" where
  "release_tunnel h = h\<lparr>hd_tunnels := hd_tunnels h - 1\<rparr>"

definition tunnel_port_allowed :: "handler \<Rightarrow> int \<Rightarrow> bool" where
  "tunnel_port_allowed h port = list_ex (\<lambda>allowed. port = allowed) (tn_allowed_ports (c_tunnel (hd_cfg h)))"

definition tunnel_ping_interval :: "duration \<Rightarrow> duration" where
  "tunnel_ping_interval timeout =
    (let interval = 20 * second;
         interval = (if timeout > 0 \<and> go_div timeout 2 < interval then go_div timeout 2 else interval)
     in if interval < second then second else interval)"

section \<open>The connect message\<close>

definition tunnel_max_message_bytes :: nat where
  "tunnel_max_message_bytes = 256 * 1024"

text \<open>With a read limit set, a longer message makes \<^verbatim>\<open>ReadMessage\<close> fail.\<close>

fun limit_frame :: "frame \<Rightarrow> frame" where
  "limit_frame ReadError = ReadError"
| "limit_frame (Frame mt data) = (if length data > tunnel_max_message_bytes then ReadError else Frame mt data)"

text \<open>The request the first message makes, with the defaults filled in, or the error sent back.\<close>

definition tunnel_request :: "handler \<Rightarrow> frame_type \<Rightarrow> bytes \<Rightarrow> (string \<times> string) + string \<times> int" where
  "tunnel_request h mt payload =
    (if mt \<noteq> TextFrame then Inl (''BAD_REQUEST'', ''first tunnel message must be tunnel-connect'')
     else (case decode_message payload of
       None \<Rightarrow> Inl (''BAD_REQUEST'', ''first tunnel message must be tunnel-connect'')
     | Some (ty, raw) \<Rightarrow>
         if ty \<noteq> ''tunnel-connect'' then Inl (''BAD_REQUEST'', ''first tunnel message must be tunnel-connect'')
         else (case decode_tunnel raw of
           None \<Rightarrow> Inl (''BAD_REQUEST'', ''invalid tunnel connect payload'')
         | Some (host0, port0) \<Rightarrow>
             let host = trim_space host0; port = (if port0 = 0 then 22 else port0) in
             if host = [] \<or> length host > 253
             then Inl (''INVALID_HOST'', ''host is required and must not exceed 253 characters'')
             else if \<not> tunnel_port_allowed h port
             then Inl (''TUNNEL_PORT_DENIED'', ''target port is not allowed for TCP tunnels'')
             else Inr (host, port))))"

text \<open>
  \<open>dial\<close> tells which addresses can be connected to, \<open>sent\<close> whether the connected message could be
  written. The result says what happened, whether a target is open now, and whether \<^verbatim>\<open>connect\<close>
  returned no error.
\<close>

definition tunnel_connect ::
  "('g, 'c) ws_env \<Rightarrow> handler \<Rightarrow> (string \<Rightarrow> bool) \<Rightarrow> bool \<Rightarrow> frame \<Rightarrow> tunnel_event list \<times> bool \<times> bool" where
  "tunnel_connect env h dial sent f =
    (case limit_frame f of
       ReadError \<Rightarrow> ([], False, False)
     | Frame mt payload \<Rightarrow>
         (case tunnel_request h mt payload of
            Inl (code, msg) \<Rightarrow> ([SentText (ErrorMsg code msg)], False, False)
          | Inr (host, port) \<Rightarrow>
              (case resolve_allowed_host_port (hd_policy h) (we_lookup env) host port of
                 Inl (PolicyError code msg) \<Rightarrow> ([SentText (ErrorMsg code msg)], False, False)
               | Inr address \<Rightarrow>
                   if \<not> dial address
                   then ([DialTarget address, SentText (ErrorMsg ''TUNNEL_CONNECT_FAILED'' ''failed to connect to tunnel target'')],
                     False, False)
                   else if \<not> sent then ([DialTarget address], True, False)
                   else ([DialTarget address, SentText (TunnelConnectedMsg host port)], True, True))))"

section \<open>The relay\<close>

text \<open>
  One turn of \<^verbatim>\<open>copyTargetToWebSocket\<close>: a read gives at most \<open>k\<close> bytes; \<open>err\<close> is the read's error,
  \<open>sent\<close> whether the message could be written. The result says whether the loop goes on.
\<close>

definition copy_target_step :: "nat \<Rightarrow> bool \<Rightarrow> bool \<Rightarrow> relay \<Rightarrow> bool \<times> relay" where
  "copy_target_step k err sent r =
    (let count = min (min k (length (rl_source r))) (32 * 1024);
         chunk = take count (rl_source r);
         r' = r\<lparr>rl_source := drop count (rl_source r)\<rparr>
     in if count > 0 \<and> \<not> sent then (False, r')
        else (\<not> err, if count > 0 then r'\<lparr>rl_sent := rl_sent r @ [chunk], rl_out := rl_out r + of_nat count\<rparr> else r'))"

text \<open>
  One turn of \<^verbatim>\<open>copyWebSocketToTarget\<close>. \<open>closed\<close> is the outcome of \<^verbatim>\<open>CloseWrite\<close>; the target is a
  TCP connection.
\<close>

definition copy_client_step :: "bool \<Rightarrow> frame \<Rightarrow> relay \<Rightarrow> bool \<times> relay" where
  "copy_client_step closed f r =
    (case limit_frame f of
       ReadError \<Rightarrow> (False, r)
     | Frame BinaryFrame payload \<Rightarrow>
         (case write_all conn_write payload (rl_target r) of
            (WriteOk, t) \<Rightarrow> (True, r\<lparr>rl_target := t, rl_in := rl_in r + of_nat (length payload)\<rparr>)
          | (_, t) \<Rightarrow> (False, r\<lparr>rl_target := t\<rparr>))
     | Frame TextFrame payload \<Rightarrow>
         (case decode_message payload of
            None \<Rightarrow> (False, r)
          | Some (ty, _) \<Rightarrow> if ty \<noteq> ''tunnel-eof'' then (False, r) else (closed, r\<lparr>rl_half_closed := closed \<or> rl_half_closed r\<rparr>))
     | Frame OtherFrame payload \<Rightarrow> (False, r))"

text \<open>The relay runs until one of the two loops returns.\<close>

inductive relay_step :: "bool \<times> relay \<Rightarrow> bool \<times> relay \<Rightarrow> bool" where
  from_target: "relay_step (True, r) (copy_target_step k err sent r)"
| from_client: "rl_frames r = f # fs \<Longrightarrow> relay_step (True, r) (copy_client_step closed f (r\<lparr>rl_frames := fs\<rparr>))"

inductive relay_reach :: "bool \<times> relay \<Rightarrow> bool \<times> relay \<Rightarrow> bool" where
  relay_start: "relay_reach x x"
| relay_next: "relay_reach x y \<Longrightarrow> relay_step y z \<Longrightarrow> relay_reach x z"

inductive_cases relay_stepE: "relay_step (go, r) (go', r')"

definition start_relay :: "frame list \<Rightarrow> bytes \<Rightarrow> (nat \<times> bool) list \<Rightarrow> relay" where
  "start_relay frames source plan =
    \<lparr>rl_frames = frames, rl_source = source, rl_target = fresh_connection plan, rl_half_closed = False,
     rl_sent = [], rl_in = 0, rl_out = 0\<rparr>"

section \<open>The handler\<close>

text \<open>
  \<^verbatim>\<open>run\<close>: \<open>relayed\<close> is what the relay sent before it ended. A target that was dialled is closed when
  the relay is over and once more by the deferred call.
\<close>

definition run_tunnel ::
  "('g, 'c) ws_env \<Rightarrow> handler \<Rightarrow> (string \<Rightarrow> bool) \<Rightarrow> bool \<Rightarrow> frame \<Rightarrow> bytes list \<Rightarrow> tunnel_event list" where
  "run_tunnel env h dial sent f relayed =
    (case tunnel_connect env h dial sent f of
       (events, target, ok) \<Rightarrow>
         if \<not> ok then events
         else events @ map SentBinary relayed @ [CloseTarget, SentClose, CloseTarget])"

definition serve_tunnel_http ::
  "('g, 'c) ws_env \<Rightarrow> handler \<Rightarrow> http_request \<Rightarrow> int \<Rightarrow> bool \<Rightarrow> (string \<Rightarrow> bool) \<Rightarrow> bool \<Rightarrow> frame \<Rightarrow> bytes list \<Rightarrow>
   (handler \<Rightarrow> handler) \<Rightarrow> http_reply \<times> handler \<times> tunnel_event list" where
  "serve_tunnel_http env h r now upgrade_ok dial sent f relayed others =
    (case session_from_request (we_crypto env) (hd_auth h) (hd_store h) (hr_cookie r) now of
       (who, store) \<Rightarrow>
         let h1 = h\<lparr>hd_store := store\<rparr> in
         if who = None then (HttpReply 401 ''AUTH_REQUIRED'', h1, [])
         else if \<not> tn_enabled (c_tunnel (hd_cfg h1)) then (HttpReply 403 ''TUNNEL_DISABLED'', h1, [])
         else if \<not> check_origin (hd_cfg h1) r then (HttpReply 403 ''WS_ORIGIN_DENIED'', h1, [])
         else (case reserve_tunnel h1 of
                 (False, h2) \<Rightarrow> (HttpReply 429 ''TUNNEL_LIMIT_EXCEEDED'', h2, [])
               | (True, h2) \<Rightarrow>
                   if \<not> upgrade_ok then (UpgradeFailed, release_tunnel (others h2), [])
                   else (Upgraded, release_tunnel (others h2), run_tunnel env h2 dial sent f relayed)))"

section \<open>The slots of the tunnels\<close>

interpretation tunnels: slot_counter hd_tunnels "\<lambda>n h. h\<lparr>hd_tunnels := n\<rparr>"
  "\<lambda>h. tn_max_connections (c_tunnel (hd_cfg h))"
  by unfold_locales simp_all

lemma reserve_tunnel_eq: "reserve_tunnel h = tunnels.reserve h"
  by (simp add: reserve_tunnel_def tunnels.reserve_def)

lemma reserve_tunnel_iff:
  "reserve_tunnel h = (True, h') \<longleftrightarrow> hd_tunnels h < tn_max_connections (c_tunnel (hd_cfg h)) \<and>
     h' = h\<lparr>hd_tunnels := hd_tunnels h + 1\<rparr>"
  "reserve_tunnel h = (False, h') \<longleftrightarrow> tn_max_connections (c_tunnel (hd_cfg h)) \<le> hd_tunnels h \<and> h' = h"
  by (auto simp: reserve_tunnel_def)

section \<open>Lemmas\<close>

lemma tunnel_request_Inr:
  assumes "tunnel_request h mt payload = Inr (host, port)"
  shows "port \<in> set (tn_allowed_ports (c_tunnel (hd_cfg h))) \<and> host \<noteq> [] \<and> length host \<le> 253"
  using assms
  by (auto simp: tunnel_request_def tunnel_port_allowed_def Let_def list_ex_iff
      split: if_split_asm option.split_asm prod.split_asm)

text \<open>The ways the connect phase can end.\<close>

lemma tunnel_connect_cases:
  assumes "tunnel_connect env h dial sent f = (events, target, ok)"
  obtains (refused) "\<not> ok" "\<not> target" "\<And>e. e \<in> set events \<Longrightarrow> \<exists>code msg. e = SentText (ErrorMsg code msg)"
      "length events \<le> 1"
  | (dialled) host port address reply where
      "port \<in> set (tn_allowed_ports (c_tunnel (hd_cfg h)))"
      "resolve_allowed_host_port (hd_policy h) (we_lookup env) host port = Inr address"
      "events = DialTarget address # reply" "\<And>e. e \<in> set reply \<Longrightarrow> \<exists>m. e = SentText m"
      "target = dial address" "ok = (dial address \<and> sent)"
proof (cases "limit_frame f")
  case ReadError
  with assms show ?thesis by (intro refused) (auto simp: tunnel_connect_def)
next
  case f: (Frame mt payload)
  show ?thesis
  proof (cases "tunnel_request h mt payload")
    case (Inl err)
    with assms f show ?thesis by (intro refused) (auto simp: tunnel_connect_def split: prod.split_asm)
  next
    case (Inr q)
    obtain host port where q: "tunnel_request h mt payload = Inr (host, port)" using Inr by (cases q) auto
    show ?thesis
    proof (cases "resolve_allowed_host_port (hd_policy h) (we_lookup env) host port")
      case (Inl err)
      with assms f q show ?thesis
        by (intro refused) (auto simp: tunnel_connect_def split: policy_error.split_asm)
    next
      case (Inr address)
      have "port \<in> set (tn_allowed_ports (c_tunnel (hd_cfg h)))" using tunnel_request_Inr [OF q] by simp
      note d = dialled [OF this Inr]
      show ?thesis
      proof (cases "dial address \<and> sent")
        case True
        with assms f q Inr show ?thesis
          by (intro d [of "[SentText (TunnelConnectedMsg host port)]"]) (auto simp: tunnel_connect_def)
      next
        case False
        with assms f q Inr show ?thesis
          by (intro d [of "if dial address then [] else
              [SentText (ErrorMsg ''TUNNEL_CONNECT_FAILED'' ''failed to connect to tunnel target'')]"])
            (auto simp: tunnel_connect_def split: if_split_asm)
      qed
    qed
  qed
qed

lemma serve_tunnel_events:
  assumes "serve_tunnel_http env h r now up dial sent f relayed others = (reply, h', events)" "events \<noteq> []"
  shows "fst (session_from_request (we_crypto env) (hd_auth h) (hd_store h) (hr_cookie r) now) \<noteq> None \<and>
    tn_enabled (c_tunnel (hd_cfg h)) \<and> check_origin (hd_cfg h) r \<and>
    hd_tunnels h < tn_max_connections (c_tunnel (hd_cfg h)) \<and>
    (\<exists>h2. hd_cfg h2 = hd_cfg h \<and> hd_policy h2 = hd_policy h \<and> events = run_tunnel env h2 dial sent f relayed)"
proof -
  obtain who store where w:
    "session_from_request (we_crypto env) (hd_auth h) (hd_store h) (hr_cookie r) now = (who, store)"
    by fastforce
  obtain got h2 where g: "reserve_tunnel (h\<lparr>hd_store := store\<rparr>) = (got, h2)" by fastforce
  then have slot: "hd_cfg h2 = hd_cfg h \<and> hd_policy h2 = hd_policy h \<and>
      (got \<longrightarrow> hd_tunnels h < tn_max_connections (c_tunnel (hd_cfg h)))"
    by (cases got) (auto simp: reserve_tunnel_iff)
  from assms w g have "who \<noteq> None \<and> tn_enabled (c_tunnel (hd_cfg h)) \<and> check_origin (hd_cfg h) r \<and> got \<and>
      events = run_tunnel env h2 dial sent f relayed"
    by (cases got) (auto simp: serve_tunnel_http_def Let_def split: if_split_asm)
  with slot w show ?thesis by auto
qed

lemma run_tunnel_dials:
  assumes "DialTarget a \<in> set (run_tunnel env h dial sent f relayed)"
  obtains host port reply where "port \<in> set (tn_allowed_ports (c_tunnel (hd_cfg h)))"
    "resolve_allowed_host_port (hd_policy h) (we_lookup env) host port = Inr a"
    "\<And>e. e \<in> set reply \<Longrightarrow> \<exists>m. e = SentText m"
    "run_tunnel env h dial sent f relayed = DialTarget a # reply @
       (if dial a \<and> sent then map SentBinary relayed @ [CloseTarget, SentClose, CloseTarget] else [])"
proof -
  obtain events target ok where c: "tunnel_connect env h dial sent f = (events, target, ok)"
    by (metis prod.collapse)
  from c show ?thesis
  proof (cases rule: tunnel_connect_cases)
    case refused
    with assms c show ?thesis by (auto simp: run_tunnel_def)
  next
    case (dialled host port address reply)
    have "DialTarget a \<notin> set reply" using dialled(4) by blast
    with assms c dialled have "a = address" by (auto simp: run_tunnel_def split: if_split_asm)
    with that [OF dialled(1) _ dialled(4)] dialled c show ?thesis by (auto simp: run_tunnel_def)
  qed
qed

lemma uint_of_nat_length: "uint (of_nat n :: 64 word) = int n mod 2 ^ 64"
  using uint_word_of_int [of "int n" , where 'a = 64] by simp

text \<open>What the client's binary frames carry.\<close>

definition payloads :: "frame list \<Rightarrow> bytes list" where
  "payloads fs = List.map_filter (\<lambda>f. case f of Frame BinaryFrame p \<Rightarrow> Some p | _ \<Rightarrow> None) fs"

lemma payloads_simps [simp]:
  "payloads [] = []"
  "payloads (Frame BinaryFrame p # fs) = p # payloads fs"
  "payloads (Frame TextFrame p # fs) = payloads fs"
  "payloads (Frame OtherFrame p # fs) = payloads fs"
  "payloads (ReadError # fs) = payloads fs"
  by (simp_all add: payloads_def List.map_filter_def)

lemma payloads_append [simp]: "payloads (xs @ ys) = payloads xs @ payloads ys"
  by (simp add: payloads_def List.map_filter_def)

text \<open>
  The invariant of a relay: after the frames \<open>done\<close> the target has taken their payloads, the client
  has been sent the first part of what the target sent, and the counters are the two amounts; a
  relay that has stopped may have lost the end of either.
\<close>

definition relay_ok :: "frame list \<Rightarrow> bytes \<Rightarrow> bool \<times> relay \<Rightarrow> bool" where
  "relay_ok frames source x \<longleftrightarrow>
     (case x of (going, r) \<Rightarrow>
        (\<exists>used. frames = used @ rl_frames r \<and>
           (if going then kn_taken (rl_target r) = concat (payloads used) \<and> rl_in r = of_nat (length (kn_taken (rl_target r)))
            else prefix (kn_taken (rl_target r)) (concat (payloads used)))) \<and>
        (if going then concat (rl_sent r) @ rl_source r = source else prefix (concat (rl_sent r)) source) \<and>
        list_all (\<lambda>m. m \<noteq> [] \<and> length m \<le> 32 * 1024) (rl_sent r) \<and>
        rl_out r = of_nat (length (concat (rl_sent r))))"

lemma relay_ok_from_target:
  assumes "relay_ok frames source (True, r)"
  shows "relay_ok frames source (copy_target_step k err sent r)"
proof -
  define n where "n = min (min k (length (rl_source r))) (32 * 1024)"
  have step: "copy_target_step k err sent r =
      (if n > 0 \<and> \<not> sent then (False, r\<lparr>rl_source := drop n (rl_source r)\<rparr>)
       else (\<not> err, if n > 0 then r\<lparr>rl_source := drop n (rl_source r), rl_sent := rl_sent r @ [take n (rl_source r)],
           rl_out := rl_out r + of_nat n\<rparr> else r\<lparr>rl_source := drop n (rl_source r)\<rparr>))"
    by (simp add: copy_target_step_def Let_def n_def)
  have src: "take n (rl_source r) @ drop n (rl_source r) = rl_source r" by simp
  have len: "length (take n (rl_source r)) = n" "n \<le> 32 * 1024" by (simp_all add: n_def)
  from assms obtain used where u: "frames = used @ rl_frames r" "kn_taken (rl_target r) = concat (payloads used)"
    "rl_in r = of_nat (length (kn_taken (rl_target r)))" and
    s: "concat (rl_sent r) @ rl_source r = source" and
    m: "list_all (\<lambda>m. m \<noteq> [] \<and> length m \<le> 32 * 1024) (rl_sent r)" and
    o: "rl_out r = of_nat (length (concat (rl_sent r)))"
    by (auto simp: relay_ok_def)
  have pre: "prefix (concat (rl_sent r)) source" using s by (auto simp: prefix_def)
  have pre': "prefix (concat (rl_sent r) @ take n (rl_source r)) source"
    using s src by (metis append.assoc prefixI)
  show ?thesis
  proof (cases "n > 0 \<and> \<not> sent")
    case True
    then show ?thesis unfolding step relay_ok_def using u m o pre by auto
  next
    case False
    have whole: "concat (rl_sent r) @ take n (rl_source r) @ drop n (rl_source r) = source" using s by simp
    show ?thesis
    proof (cases "n > 0")
      case True
      then have "take n (rl_source r) \<noteq> []" using len by auto
      with False True u m o pre' whole len show ?thesis
        unfolding step relay_ok_def by auto
    next
      case 0: False
      with False u m o pre s show ?thesis
        unfolding step relay_ok_def by auto
    qed
  qed
qed

lemma relay_ok_from_client:
  assumes "relay_ok frames source (True, r)" "rl_frames r = f # fs"
  shows "relay_ok frames source (copy_client_step closed f (r\<lparr>rl_frames := fs\<rparr>))"
proof -
  from assms obtain used where u: "frames = used @ f # fs" "kn_taken (rl_target r) = concat (payloads used)"
    "rl_in r = of_nat (length (kn_taken (rl_target r)))" and
    s: "concat (rl_sent r) @ rl_source r = source" and
    m: "list_all (\<lambda>m. m \<noteq> [] \<and> length m \<le> 32 * 1024) (rl_sent r)" and
    o: "rl_out r = of_nat (length (concat (rl_sent r)))"
    by (auto simp: relay_ok_def)
  have split: "frames = (used @ [f]) @ fs" using u by simp
  have pre: "prefix (concat (rl_sent r)) source" using s by (auto simp: prefix_def)
  have stop: "relay_ok frames source (False, r\<lparr>rl_frames := fs, rl_target := t\<rparr>)"
    if "kn_taken t = concat (payloads used) @ take n p" "f = Frame BinaryFrame p" for t n p
    unfolding relay_ok_def using that split pre m o
    by (auto intro!: exI [of _ "used @ [f]"] prefixI [of _ _ "drop n p"])
  have stop0: "relay_ok frames source (False, r\<lparr>rl_frames := fs\<rparr>)"
    unfolding relay_ok_def using split u(2) pre m o by (auto intro!: exI [of _ "used @ [f]"])
  show ?thesis
  proof (cases "limit_frame f")
    case ReadError
    with stop0 show ?thesis by (simp add: copy_client_step_def)
  next
    case (Frame mt p)
    then have f: "f = Frame mt p" by (cases f) (auto split: if_split_asm)
    show ?thesis
    proof (cases mt)
      case OtherFrame
      with stop0 Frame show ?thesis by (simp add: copy_client_step_def)
    next
      case TextFrame
      have go: "relay_ok frames source (True, r\<lparr>rl_frames := fs, rl_half_closed := b\<rparr>)" for b
        unfolding relay_ok_def using split u s m o f TextFrame by (auto intro!: exI [of _ "used @ [f]"])
      have halt: "relay_ok frames source (False, r\<lparr>rl_frames := fs, rl_half_closed := b\<rparr>)" for b
        using stop0 by (simp add: relay_ok_def)
      from go halt stop0 Frame TextFrame show ?thesis
        by (cases closed) (auto simp: copy_client_step_def split: option.split)
    next
      case BinaryFrame
      obtain w t where wt: "write_all conn_write p (rl_target r) = (w, t)" by fastforce
      from connections.write_all_taken [OF wt] u(2) obtain n where
        n: "kn_taken t = concat (payloads used) @ take n p" "w = WriteOk \<longrightarrow> n = length p" by auto
      show ?thesis
      proof (cases "w = WriteOk")
        case True
        with n Frame BinaryFrame wt split u s m o f show ?thesis
          by (auto simp: copy_client_step_def relay_ok_def intro!: exI [of _ "used @ [f]"])
      next
        case False
        with stop [OF n(1)] f Frame BinaryFrame wt show ?thesis
          by (cases w) (auto simp: copy_client_step_def)
      qed
    qed
  qed
qed

lemma relay_reach_ok:
  assumes "relay_reach (True, start_relay frames source plan) x"
  shows "relay_ok frames source x"
  using assms
proof (induction "(True, start_relay frames source plan)" x rule: relay_reach.induct)
  case relay_start
  show ?case by (simp add: relay_ok_def start_relay_def fresh_connection_def)
next
  case (relay_next y z)
  from relay_next(3,2) show ?case
    by (cases rule: relay_step.cases) (auto intro: relay_ok_from_target relay_ok_from_client)
qed

section \<open>Properties\<close>

text \<open>
  C6: the tunnel dials only for a request with a session, from an allowed origin, with the tunnel
  enabled and a slot free; at most one address, which passed the network policy's check as the
  very address that is dialled, on a port of the configured list.
\<close>

theorem tunnel_dials_only_checked:
  assumes "serve_tunnel_http env h r now up dial sent f relayed others = (reply, h', events)"
    and "DialTarget address \<in> set events"
  shows "fst (session_from_request (we_crypto env) (hd_auth h) (hd_store h) (hr_cookie r) now) \<noteq> None \<and>
    tn_enabled (c_tunnel (hd_cfg h)) \<and> check_origin (hd_cfg h) r \<and>
    hd_tunnels h < tn_max_connections (c_tunnel (hd_cfg h)) \<and>
    (\<exists>a port. address = join_host_port (addr_string a) (itoa port) \<and> check_addr (hd_policy h) a = Inr () \<and>
       port \<in> set (tn_allowed_ports (c_tunnel (hd_cfg h))) \<and> 1 \<le> port \<and> port \<le> 65535) \<and>
    length (filter (\<lambda>e. case e of DialTarget _ \<Rightarrow> True | _ \<Rightarrow> False) events) = 1"
proof -
  have "events \<noteq> []" using assms(2) by auto
  from serve_tunnel_events [OF assms(1) this] obtain h2 where
    h2: "hd_cfg h2 = hd_cfg h" "hd_policy h2 = hd_policy h" "events = run_tunnel env h2 dial sent f relayed" and
    pre: "fst (session_from_request (we_crypto env) (hd_auth h) (hd_store h) (hr_cookie r) now) \<noteq> None"
      "tn_enabled (c_tunnel (hd_cfg h))" "check_origin (hd_cfg h) r" "hd_tunnels h < tn_max_connections (c_tunnel (hd_cfg h))"
    by blast
  from assms(2) h2(3) have "DialTarget address \<in> set (run_tunnel env h2 dial sent f relayed)" by simp
  then show ?thesis
  proof (rule run_tunnel_dials)
    fix host port texts
    assume port: "port \<in> set (tn_allowed_ports (c_tunnel (hd_cfg h2)))"
      and res: "resolve_allowed_host_port (hd_policy h2) (we_lookup env) host port = Inr address"
      and texts: "\<And>e. e \<in> set texts \<Longrightarrow> \<exists>m. e = SentText m"
      and ev: "run_tunnel env h2 dial sent f relayed = DialTarget address # texts @
       (if dial address \<and> sent then map SentBinary relayed @ [CloseTarget, SentClose, CloseTarget] else [])"
    have "filter (\<lambda>e. case e of DialTarget _ \<Rightarrow> True | _ \<Rightarrow> False) texts = []"
      using texts by (fastforce simp: filter_empty_conv)
    then have "length (filter (\<lambda>e. case e of DialTarget _ \<Rightarrow> True | _ \<Rightarrow> False) events) = 1"
      by (auto simp: h2(3) ev filter_empty_conv)
    with pre port resolve_sound [OF res] h2(1,2) show ?thesis by auto
  qed
qed

text \<open>
  C32: a target that was connected is closed when the tunnel ends, unless the connected message
  could not be written: then \<^verbatim>\<open>connect\<close> returns the error with the target open and \<^verbatim>\<open>run\<close> returns before
  it defers the closing.
\<close>

theorem tunnel_target_closed_iff:
  assumes "serve_tunnel_http env h r now up dial sent f relayed others = (reply, h', events)"
    and "DialTarget address \<in> set events" "dial address"
  shows "CloseTarget \<in> set events \<longleftrightarrow> sent"
proof -
  have "events \<noteq> []" using assms(2) by auto
  from serve_tunnel_events [OF assms(1) this] obtain h2 where
    h2: "events = run_tunnel env h2 dial sent f relayed" by blast
  with assms(2) have "DialTarget address \<in> set (run_tunnel env h2 dial sent f relayed)" by simp
  then show ?thesis
  proof (rule run_tunnel_dials)
    fix texts
    assume texts: "\<And>e. e \<in> set texts \<Longrightarrow> \<exists>m. e = SentText m"
      and ev: "run_tunnel env h2 dial sent f relayed = DialTarget address # texts @
       (if dial address \<and> sent then map SentBinary relayed @ [CloseTarget, SentClose, CloseTarget] else [])"
    have "CloseTarget \<notin> set texts" using texts by blast
    with assms(3) show ?thesis by (auto simp: h2 ev)
  qed
qed

text \<open>
  C15: the relay neither loses, changes nor reorders bytes. In whatever order the two loops take
  their turns, the target has taken exactly the payloads of the client's binary frames read so far
  and the client has been sent exactly what was read of the target, in messages of 1 to 32768
  bytes, the byte counters being the two lengths modulo \<open>2 ^ 64\<close>; once the relay has stopped, each side has
  a prefix of that.
\<close>

theorem relay_keeps_streams:
  assumes "relay_reach (True, start_relay frames source plan) (going, r)"
  shows "(\<exists>used. frames = used @ rl_frames r \<and> prefix (kn_taken (rl_target r)) (concat (payloads used)) \<and>
      (going \<longrightarrow> kn_taken (rl_target r) = concat (payloads used))) \<and>
    prefix (concat (rl_sent r)) source \<and> (going \<longrightarrow> concat (rl_sent r) @ rl_source r = source) \<and>
    list_all (\<lambda>m. m \<noteq> [] \<and> length m \<le> 32 * 1024) (rl_sent r) \<and>
    uint (rl_out r) = int (length (concat (rl_sent r))) mod 2 ^ 64 \<and>
    (going \<longrightarrow> uint (rl_in r) = int (length (kn_taken (rl_target r))) mod 2 ^ 64)"
proof -
  from relay_reach_ok [OF assms] have
    used: "\<exists>used. frames = used @ rl_frames r \<and> (if going then kn_taken (rl_target r) = concat (payloads used) \<and>
        rl_in r = of_nat (length (kn_taken (rl_target r))) else prefix (kn_taken (rl_target r)) (concat (payloads used)))" and
    sent: "if going then concat (rl_sent r) @ rl_source r = source else prefix (concat (rl_sent r)) source" and
    rest: "list_all (\<lambda>m. m \<noteq> [] \<and> length m \<le> 32 * 1024) (rl_sent r)" "rl_out r = of_nat (length (concat (rl_sent r)))"
    by (simp_all add: relay_ok_def)
  have "prefix (concat (rl_sent r)) source \<and> (going \<longrightarrow> concat (rl_sent r) @ rl_source r = source)"
    using sent by (cases going) auto
  moreover have "(\<exists>used. frames = used @ rl_frames r \<and> prefix (kn_taken (rl_target r)) (concat (payloads used)) \<and>
      (going \<longrightarrow> kn_taken (rl_target r) = concat (payloads used))) \<and>
    (going \<longrightarrow> rl_in r = of_nat (length (kn_taken (rl_target r))))"
    using used by (cases going) auto
  ultimately show ?thesis using rest by (simp add: uint_of_nat_length)
qed

text \<open>
  A tunnel gives its slot back however it ends, so that it changes the counter by no more than
  what the other tunnels do meanwhile; and under any interleaving of the compare-and-swap loops at
  most \<^verbatim>\<open>tunnel.max_connections\<close> goroutines hold a slot.
\<close>

theorem tunnel_slots_bounded:
  assumes "slot_reach hd_tunnels (\<lambda>n h. h\<lparr>hd_tunnels := n\<rparr>) (\<lambda>h. tn_max_connections (c_tunnel (hd_cfg h)))
      (h0, \<lambda>_. Outside) (h, pc)"
    and "hd_tunnels h0 = 0" "0 \<le> tn_max_connections (c_tunnel (hd_cfg h0))"
    and "\<And>g. hd_tunnels (others g) = hd_tunnels g + d"
  shows "hd_tunnels h = int (card (holders pc)) \<and>
    int (card (holders pc)) \<le> tn_max_connections (c_tunnel (hd_cfg h0)) \<and>
    (fst (reserve_tunnel h) \<longleftrightarrow> int (card (holders pc)) < tn_max_connections (c_tunnel (hd_cfg h0))) \<and>
    hd_tunnels (fst (snd (serve_tunnel_http env h r now up dial sent f relayed others)))
      \<in> {hd_tunnels h, hd_tunnels h + d}"
proof -
  have inv: "hd_tunnels h = int (card (holders pc))" "tn_max_connections (c_tunnel (hd_cfg h)) = tn_max_connections (c_tunnel (hd_cfg h0))"
    "int (card (holders pc)) \<le> tn_max_connections (c_tunnel (hd_cfg h0))"
    using tunnels.reach_invariant [OF assms(1) _ assms(2,3)] by (simp_all add: holders_def)
  obtain who store where w:
    "session_from_request (we_crypto env) (hd_auth h) (hd_store h) (hr_cookie r) now = (who, store)"
    by fastforce
  have "hd_tunnels (fst (snd (serve_tunnel_http env h r now up dial sent f relayed others)))
      \<in> {hd_tunnels h, hd_tunnels h + d}"
    using assms(4) by (auto simp: serve_tunnel_http_def w Let_def reserve_tunnel_def release_tunnel_def)
  with inv show ?thesis by (auto simp: reserve_tunnel_def)
qed

text \<open>
  The ping interval is the half of the idle timeout brought between one second and twenty; so
  with an idle timeout of two seconds or more, two pings go out before it can expire.
\<close>

theorem ping_interval_is_clamped_half:
  "tunnel_ping_interval timeout =
     (if timeout > 0 then max second (min (20 * second) (timeout div 2)) else 20 * second)"
  by (auto simp: tunnel_ping_interval_def Let_def go_div_nonneg)

section \<open>Witnesses\<close>

definition tunnel_handler :: handler where
  "tunnel_handler = sample_handler\<lparr>hd_cfg := default_config\<lparr>c_tunnel := (c_tunnel default_config)\<lparr>tn_enabled := True\<rparr>\<rparr>\<rparr>"

definition tunnel_sample :: "bool \<Rightarrow> http_reply \<times> handler \<times> tunnel_event list" where
  "tunnel_sample sent =
    serve_tunnel_http sample_ws tunnel_handler sample_http 0 True (\<lambda>_. True) sent
      (Frame TextFrame (encode_message ''tunnel-connect'' (tunnel_text '' dns.google '' 22))) [''x''] (\<lambda>h. h)"

lemma tunnel_sample_events:
  "snd (snd (tunnel_sample True)) =
     [DialTarget ''8.8.8.8:22'', SentText (TunnelConnectedMsg ''dns.google'' 22), SentBinary ''x'', CloseTarget, SentClose, CloseTarget]"
  "snd (snd (tunnel_sample False)) = [DialTarget ''8.8.8.8:22'']"
  by code_simp+

theorem tunnel_dials_only_checked_witness:
  "\<exists>a. ''8.8.8.8:22'' = join_host_port (addr_string a) (itoa 22) \<and> check_addr sample_policy a = Inr ()"
proof -
  obtain reply h' events where s: "tunnel_sample True = (reply, h', events)" by (metis prod.collapse)
  then have ev: "DialTarget ''8.8.8.8:22'' \<in> set events" using tunnel_sample_events(1) by simp
  have p: "hd_policy tunnel_handler = sample_policy"
    "tn_allowed_ports (c_tunnel (hd_cfg tunnel_handler)) = [22]"
    by (simp_all add: tunnel_handler_def sample_handler_def default_config_def)
  from tunnel_dials_only_checked [OF s [unfolded tunnel_sample_def] ev] show ?thesis
    unfolding p by auto
qed

theorem tunnel_target_closed_iff_witness:
  "CloseTarget \<in> set (snd (snd (tunnel_sample True))) \<and> CloseTarget \<notin> set (snd (snd (tunnel_sample False)))"
proof -
  have "CloseTarget \<in> set (snd (snd (tunnel_sample sent))) \<longleftrightarrow> sent" for sent
  proof -
    obtain reply h' events where s: "tunnel_sample sent = (reply, h', events)" by (metis prod.collapse)
    then have "DialTarget ''8.8.8.8:22'' \<in> set events" using tunnel_sample_events by (cases sent) auto
    from tunnel_target_closed_iff [OF s [unfolded tunnel_sample_def] this refl [of True, unfolded eq_True]]
    show ?thesis by (simp add: s)
  qed
  then show ?thesis by blast
qed

definition sample_relay :: relay where
  "sample_relay = start_relay [Frame BinaryFrame ''ab'', Frame TextFrame (encode_message ''tunnel-eof'' [])] ''xyz'' [(1, False)]"

theorem relay_keeps_streams_witness:
  "\<exists>r. relay_reach (True, sample_relay) (True, r) \<and> kn_taken (rl_target r) = ''ab'' \<and>
     concat (rl_sent r) @ rl_source r = ''xyz'' \<and> rl_sent r = [''xy'']"
proof -
  define x1 where "x1 = copy_target_step 2 False True sample_relay"
  define x2 where "x2 = copy_client_step True (Frame BinaryFrame ''ab'')
    (snd x1\<lparr>rl_frames := [Frame TextFrame (encode_message ''tunnel-eof'' [])]\<rparr>)"
  have e: "fst x1" "rl_frames (snd x1) = [Frame BinaryFrame ''ab'', Frame TextFrame (encode_message ''tunnel-eof'' [])]"
    "fst x2" "rl_frames (snd x2) = [Frame TextFrame (encode_message ''tunnel-eof'' [])]" "rl_sent (snd x2) = [''xy'']"
    unfolding x1_def x2_def by code_simp+
  have "relay_step (True, sample_relay) x1" unfolding x1_def by (rule from_target)
  moreover have "relay_step (True, snd x1) x2" unfolding x2_def by (rule from_client) (rule e(2))
  moreover have "(True, snd x1) = x1" "(True, snd x2) = x2" using e(1,3) by (simp_all add: prod_eq_iff)
  ultimately have reach: "relay_reach (True, sample_relay) (True, snd x2)"
    by (metis relay_reach.intros)
  from relay_keeps_streams [OF this [unfolded sample_relay_def]] obtain used where
    u: "[Frame BinaryFrame ''ab'', Frame TextFrame (encode_message ''tunnel-eof'' [])] = used @ rl_frames (snd x2)"
      "kn_taken (rl_target (snd x2)) = concat (payloads used)" and
    s: "concat (rl_sent (snd x2)) @ rl_source (snd x2) = ''xyz''"
    by blast
  from u(1) e(4) have "used = [Frame BinaryFrame ''ab'']" by simp
  with u(2) have "kn_taken (rl_target (snd x2)) = ''ab''" by simp
  with reach s e(5) show ?thesis by blast
qed

theorem tunnel_slots_bounded_witness:
  "int (card (holders ((\<lambda>_. Outside)(3::nat := Holding)))) \<le> 5"
proof -
  let ?R = "slot_reach hd_tunnels (\<lambda>n h. h\<lparr>hd_tunnels := n\<rparr>) (\<lambda>h. tn_max_connections (c_tunnel (hd_cfg h)))"
  have r: "?R (tunnel_handler, \<lambda>_. Outside)
      (snd (reserve_tunnel tunnel_handler),
       (\<lambda>_. Outside)(3::nat := if fst (reserve_tunnel tunnel_handler) then Holding else Outside))"
    unfolding reserve_tunnel_eq by (rule tunnels.solo_reserve) simp
  have l: "hd_tunnels tunnel_handler = 0" "tn_max_connections (c_tunnel (hd_cfg tunnel_handler)) = 5"
    by (simp_all add: tunnel_handler_def sample_handler_def default_config_def)
  then have "fst (reserve_tunnel tunnel_handler)" by (simp add: reserve_tunnel_def)
  moreover have "0 \<le> tn_max_connections (c_tunnel (hd_cfg tunnel_handler))" using l(2) by simp
  moreover have "\<And>g. hd_tunnels g = hd_tunnels g + 0" by simp
  ultimately show ?thesis
    using tunnel_slots_bounded [OF r l(1), of "\<lambda>h. h" 0, THEN conjunct2, THEN conjunct1] l(2) by simp
qed

end
