(* ===== verification/Item_Stream.thy ===== *)
theory Item_Stream
  imports Main "HOL-Library.Sublist"
begin

text \<open>
  The contract of a sender that shares a connection with others: each message carries a part of the sender's
  source, and a step of the system, whoever takes it, moves items from the source to the messages or leaves both.
  The copying loops of a session rely on it on both ends.
\<close>

locale item_stream =
  fixes step :: "'s \<Rightarrow> 's \<Rightarrow> bool" and sent :: "'s \<Rightarrow> 'm list" and part :: "'m \<Rightarrow> 'i list" and source :: "'s \<Rightarrow> 'i list"
  assumes step_conserves: "step s t \<Longrightarrow> concat (map part (sent t)) @ source t = concat (map part (sent s)) @ source s"
begin

lemma conserved: "step\<^sup>*\<^sup>* s t \<Longrightarrow> concat (map part (sent t)) @ source t = concat (map part (sent s)) @ source s"
  by (induction rule: rtranclp_induct) (auto dest: step_conserves)

lemma sent_prefix: "step\<^sup>*\<^sup>* s t \<Longrightarrow> sent s = [] \<Longrightarrow> prefix (concat (map part (sent t))) (source s)"
  using conserved [of s t] by (metis append_Nil concat.simps(1) list.map(1) prefixI)

lemma all_sent: "step\<^sup>*\<^sup>* s t \<Longrightarrow> sent s = [] \<Longrightarrow> source t = [] \<Longrightarrow> concat (map part (sent t)) = source s"
  using conserved [of s t] by simp

end

end
