(* ===== verification/Ws_Stream.thy ===== *)
theory Ws_Stream
  imports Ws_Handler Item_Stream "HOL-Library.Word"
begin

text \<open>
  What a session sends while it runs, beside the answers of the read loop: the output of the shell,
  \<^verbatim>\<open>copyOutput\<close> of \<^verbatim>\<open>internal/ws/handler.go\<close>, under any interleaving with the end of the session, and the metrics
  of the remote host, \<^verbatim>\<open>streamMetrics\<close> with \<^verbatim>\<open>internal/sshclient/metrics.go\<close>. The counters are 64-bit words; the
  operations on \<^verbatim>\<open>float64\<close> are a record of parameters over an arbitrary type.
\<close>

section \<open>The output of the shell\<close>

datatype copy_phase = Checking | Reading | Stopped

record reader =
  rd_source :: bytes
  rd_phase :: copy_phase

text \<open>The top of the loop, and one \<^verbatim>\<open>Read\<close> of at most \<open>k\<close> bytes that may report an error along with them.\<close>

definition check_context :: "bool \<Rightarrow> reader \<Rightarrow> reader" where
  "check_context cancelled r = r\<lparr>rd_phase := (if cancelled then Stopped else Reading)\<rparr>"

definition copy_output_read :: "nat \<Rightarrow> bool \<Rightarrow> reader \<Rightarrow> bytes list \<times> reader" where
  "copy_output_read k err r =
    (let chunk = take (min k (16 * 1024)) (rd_source r)
     in (if chunk = [] then [] else [chunk],
         r\<lparr>rd_source := drop (length chunk) (rd_source r), rd_phase := (if err then Stopped else Checking)\<rparr>))"

text \<open>
  The goroutines of \<^verbatim>\<open>run\<close> once the shell is open: two copying loops, and \<^verbatim>\<open>run\<close> itself, which sends
  the closing message when the shell or the client is gone and then cancels the context. Writing is
  under a mutex, so messages are sent one after the other; the text messages of the metrics and
  the answers to pings come in between.
\<close>

datatype stream_message = FromStdout bytes | FromStderr bytes | SideMessage bytes | SessionClosed ws_message

record stream =
  op_out :: reader
  op_err :: reader
  op_sent :: "stream_message list"
  op_closed :: bool
  op_cancelled :: bool

text \<open>SSH has 32 bits for an exit status.\<close>

definition status_in_range :: "session_end \<Rightarrow> bool" where
  "status_in_range ended \<longleftrightarrow> (case ended of ShellStatus n \<Rightarrow> 0 \<le> n \<and> n < 2 ^ 32 | _ \<Rightarrow> True)"

inductive stream_step :: "stream \<Rightarrow> stream \<Rightarrow> bool" where
  check_out: "rd_phase (op_out s) = Checking \<Longrightarrow> stream_step s (s\<lparr>op_out := check_context (op_cancelled s) (op_out s)\<rparr>)"
| check_err: "rd_phase (op_err s) = Checking \<Longrightarrow> stream_step s (s\<lparr>op_err := check_context (op_cancelled s) (op_err s)\<rparr>)"
| read_out: "rd_phase (op_out s) = Reading \<Longrightarrow> copy_output_read k err (op_out s) = (chunks, r) \<Longrightarrow>
    stream_step s (s\<lparr>op_out := r, op_sent := op_sent s @ map FromStdout chunks\<rparr>)"
| read_err: "rd_phase (op_err s) = Reading \<Longrightarrow> copy_output_read k err (op_err s) = (chunks, r) \<Longrightarrow>
    stream_step s (s\<lparr>op_err := r, op_sent := op_sent s @ map FromStderr chunks\<rparr>)"
| send_side: "stream_step s (s\<lparr>op_sent := op_sent s @ [SideMessage message]\<rparr>)"
| send_closed: "\<not> op_closed s \<Longrightarrow> status_in_range ended \<Longrightarrow>
    stream_step s (s\<lparr>op_sent := op_sent s @ [SessionClosed (closed_message ended)], op_closed := True\<rparr>)"
| cancel: "op_closed s \<Longrightarrow> stream_step s (s\<lparr>op_cancelled := True\<rparr>)"

inductive_cases stream_stepE: "stream_step s t"

abbreviation stream_reach :: "stream \<Rightarrow> stream \<Rightarrow> bool" where
  "stream_reach \<equiv> stream_step\<^sup>*\<^sup>*"

definition start_stream :: "bytes \<Rightarrow> bytes \<Rightarrow> stream" where
  "start_stream out err =
    \<lparr>op_out = \<lparr>rd_source = out, rd_phase = Checking\<rparr>, op_err = \<lparr>rd_source = err, rd_phase = Checking\<rparr>,
     op_sent = [], op_closed = False, op_cancelled = False\<rparr>"

fun stdout_part :: "stream_message \<Rightarrow> bytes" where
  "stdout_part (FromStdout b) = b"
| "stdout_part _ = []"

fun stderr_part :: "stream_message \<Rightarrow> bytes" where
  "stderr_part (FromStderr b) = b"
| "stderr_part _ = []"

fun chunk_ok :: "stream_message \<Rightarrow> bool" where
  "chunk_ok (FromStdout b) \<longleftrightarrow> b \<noteq> [] \<and> length b \<le> 16 * 1024"
| "chunk_ok (FromStderr b) \<longleftrightarrow> b \<noteq> [] \<and> length b \<le> 16 * 1024"
| "chunk_ok (SideMessage _) \<longleftrightarrow> True"
| "chunk_ok (SessionClosed _) \<longleftrightarrow> True"

definition closings :: "stream_message list \<Rightarrow> nat" where
  "closings ms = length (filter (\<lambda>m. \<exists>c. m = SessionClosed c) ms)"

definition stream_ok :: "stream \<Rightarrow> bool" where
  "stream_ok s \<longleftrightarrow>
    list_all chunk_ok (op_sent s) \<and> closings (op_sent s) = (if op_closed s then 1 else 0) \<and>
    (op_cancelled s \<longrightarrow> op_closed s) \<and> (\<forall>c. SessionClosed c \<in> set (op_sent s) \<longrightarrow> (\<exists>ended. status_in_range ended \<and> c = closed_message ended))"

section \<open>Lemmas on the output\<close>

lemma take_drop_min: "take n xs @ drop (min (length xs) n) xs = xs"
  by (cases "n \<le> length xs") (simp_all add: min_def)

lemma copy_output_read_source:
  assumes "copy_output_read k err r = (chunks, r')"
  shows "concat chunks @ rd_source r' = rd_source r \<and> list_all (\<lambda>b. b \<noteq> [] \<and> length b \<le> 16 * 1024) chunks"
  using assms by (auto simp: copy_output_read_def Let_def take_drop_min simp del: min_less_iff_conj)

lemma message_parts [simp]:
  "concat (map stdout_part (map FromStdout bs)) = concat bs" "concat (map stderr_part (map FromStdout bs)) = []"
  "concat (map stdout_part (map FromStderr bs)) = []" "concat (map stderr_part (map FromStderr bs)) = concat bs"
  "list_all chunk_ok (map FromStdout bs) = list_all (\<lambda>b. b \<noteq> [] \<and> length b \<le> 16 * 1024) bs"
  "list_all chunk_ok (map FromStderr bs) = list_all (\<lambda>b. b \<noteq> [] \<and> length b \<le> 16 * 1024) bs"
  "closings (map FromStdout bs) = 0" "closings (map FromStderr bs) = 0"
  by (induction bs) (auto simp: closings_def)

lemma closings_append [simp]: "closings (xs @ ys) = closings xs + closings ys"
  by (simp add: closings_def)

lemma closings_closed [simp]: "closings [SessionClosed c] = 1" "closings [SideMessage m] = 0"
  by (simp_all add: closings_def)

lemma stream_step_conserves:
  assumes "stream_step s t"
  shows "concat (map stdout_part (op_sent t)) @ rd_source (op_out t) = concat (map stdout_part (op_sent s)) @ rd_source (op_out s)"
    "concat (map stderr_part (op_sent t)) @ rd_source (op_err t) = concat (map stderr_part (op_sent s)) @ rd_source (op_err s)"
  using assms by (auto elim!: stream_stepE dest!: copy_output_read_source simp: check_context_def simp del: map_map)

interpretation shell_out: item_stream stream_step op_sent stdout_part "\<lambda>s. rd_source (op_out s)"
  by unfold_locales (rule stream_step_conserves)

interpretation shell_err: item_stream stream_step op_sent stderr_part "\<lambda>s. rd_source (op_err s)"
  by unfold_locales (rule stream_step_conserves)

lemma stream_step_ok: "stream_step s t \<Longrightarrow> stream_ok s \<Longrightarrow> stream_ok t"
  by (erule stream_stepE) (auto simp: stream_ok_def check_context_def dest!: copy_output_read_source)

lemma stream_reach_ok: "stream_reach s t \<Longrightarrow> stream_ok s \<Longrightarrow> stream_ok t"
  by (induction rule: rtranclp_induct) (auto intro: stream_step_ok)

lemma start_stream_ok: "stream_ok (start_stream out err)"
  by (simp add: stream_ok_def start_stream_def closings_def)

lemma start_stream_parts [simp]:
  "op_sent (start_stream out err) = []" "rd_source (op_out (start_stream out err)) = out" "rd_source (op_err (start_stream out err)) = err"
  by (simp_all add: start_stream_def)

text \<open>The session may end before anything is read.\<close>

lemma early_close:
  "\<exists>t. stream_reach (start_stream out err) t \<and> op_sent t = [SessionClosed (closed_message ShellExit)] \<and> op_closed t \<and>
     op_cancelled t \<and> rd_phase (op_out t) = Stopped \<and> rd_phase (op_err t) = Stopped"
proof -
  let ?s = "start_stream out err"
  let ?a = "?s\<lparr>op_sent := op_sent ?s @ [SessionClosed (closed_message ShellExit)], op_closed := True\<rparr>"
  let ?b = "?a\<lparr>op_cancelled := True\<rparr>"
  let ?c = "?b\<lparr>op_out := check_context (op_cancelled ?b) (op_out ?b)\<rparr>"
  let ?d = "?c\<lparr>op_err := check_context (op_cancelled ?c) (op_err ?c)\<rparr>"
  have "stream_step ?s ?a" by (rule send_closed) (simp_all add: start_stream_def status_in_range_def)
  moreover have "stream_step ?a ?b" by (rule cancel) simp
  moreover have "stream_step ?b ?c" by (rule check_out) (simp add: start_stream_def)
  moreover have "stream_step ?c ?d" by (rule check_err) (simp add: start_stream_def)
  ultimately have "stream_reach ?s ?d" by (meson rtranclp.rtrancl_refl rtranclp.rtrancl_into_rtrancl)
  moreover have "op_sent ?d = [SessionClosed (closed_message ShellExit)] \<and> op_closed ?d \<and> op_cancelled ?d \<and>
      rd_phase (op_out ?d) = Stopped \<and> rd_phase (op_err ?d) = Stopped"
    by (simp add: start_stream_def check_context_def)
  ultimately show ?thesis by blast
qed

section \<open>Properties of the output\<close>

text \<open>
  Under any interleaving of the copying loops and the end of the session, what was sent of each stream is a
  prefix of what the shell wrote to it, in non-empty pieces of at most 16 KiB, and the closing message is sent at
  most once. It may come too early: whatever the shell wrote before it ended, the session may close
  with nothing of it sent.
\<close>

theorem shell_output_prefix:
  assumes "stream_reach (start_stream out err) s"
  shows "concat (map stdout_part (op_sent s)) @ rd_source (op_out s) = out \<and>
    concat (map stderr_part (op_sent s)) @ rd_source (op_err s) = err \<and> list_all chunk_ok (op_sent s) \<and> closings (op_sent s) \<le> 1 \<and>
    (\<exists>t. stream_reach (start_stream out err) t \<and> op_sent t = [SessionClosed (closed_message ShellExit)] \<and>
       op_cancelled t \<and> rd_phase (op_out t) = Stopped \<and> rd_phase (op_err t) = Stopped)"
proof -
  have "stream_ok s" by (rule stream_reach_ok [OF assms start_stream_ok])
  then have "list_all chunk_ok (op_sent s)" "closings (op_sent s) \<le> 1" by (simp_all add: stream_ok_def)
  with early_close [of out err] shell_out.conserved [OF assms] shell_err.conserved [OF assms] show ?thesis
    unfolding start_stream_parts list.map concat.simps append_Nil by blast
qed

text \<open>
  The output is complete when the loops reach the end of the streams before the session closes.
\<close>

lemma whole_output_sent:
  assumes "stream_reach (start_stream out err) s" "rd_source (op_out s) = []" "rd_source (op_err s) = []"
  shows "concat (map stdout_part (op_sent s)) = out \<and> concat (map stderr_part (op_sent s)) = err"
  using shell_out.all_sent [OF assms(1)] shell_err.all_sent [OF assms(1)] assms(2,3) by simp

section \<open>Metrics\<close>

text \<open>The operations on \<^verbatim>\<open>float64\<close> that the code uses; \<open>fo_seconds\<close> is \<^verbatim>\<open>Duration.Seconds\<close>.\<close>

record 'f float_ops =
  fo_parse :: "string \<Rightarrow> 'f option"
  fo_to_word :: "'f \<Rightarrow> 64 word"
  fo_of_word :: "64 word \<Rightarrow> 'f"
  fo_mul :: "'f \<Rightarrow> 'f \<Rightarrow> 'f"
  fo_div :: "'f \<Rightarrow> 'f \<Rightarrow> 'f"
  fo_positive :: "'f \<Rightarrow> bool"
  fo_seconds :: "duration \<Rightarrow> 'f"
  fo_zero :: 'f
  fo_hundred :: 'f

record 'f raw_metrics =
  rm_cpu_total :: "64 word"
  rm_cpu_idle :: "64 word"
  rm_memory_total :: "64 word"
  rm_memory_avail :: "64 word"
  rm_disk_total :: "64 word"
  rm_disk_used :: "64 word"
  rm_network_rx :: "64 word"
  rm_network_tx :: "64 word"
  rm_load1 :: 'f
  rm_uptime :: 'f
  rm_collected_at :: int

datatype metrics_error = UnsupportedMetrics | InvalidMetrics

text \<open>\<^verbatim>\<open>strings.Fields\<close>: the runs between white space.\<close>

fun fields_from :: "string \<Rightarrow> string \<Rightarrow> string list" where
  "fields_from acc [] = (if acc = [] then [] else [rev acc])"
| "fields_from acc (c # cs) =
     (if ascii_space c then (if acc = [] then [] else [rev acc]) @ fields_from [] cs
      else (case find (has_prefix (c # cs)) wide_spaces of
              Some w \<Rightarrow> (if acc = [] then [] else [rev acc]) @ fields_from [] (drop (length w - 1) cs)
            | None \<Rightarrow> fields_from (c # acc) cs))"

fun parse_values :: "(string \<Rightarrow> 'f option) \<Rightarrow> string list \<Rightarrow> 'f list option" where
  "parse_values parse [] = Some []"
| "parse_values parse (s # ss) =
     (case parse s of
        None \<Rightarrow> None
      | Some v \<Rightarrow> map_option (Cons v) (parse_values parse ss))"

definition parse_metrics_output :: "'f float_ops \<Rightarrow> int \<Rightarrow> string \<Rightarrow> metrics_error + 'f raw_metrics" where
  "parse_metrics_output fo now output =
    (let fields = fields_from [] output in
     if length fields < 10 then Inl UnsupportedMetrics
     else (case parse_values (fo_parse fo) (take 10 fields) of
       None \<Rightarrow> Inl InvalidMetrics
     | Some vs \<Rightarrow>
         let u = (\<lambda>i. fo_to_word fo (vs ! i)) in
         Inr \<lparr>rm_cpu_total = u 0, rm_cpu_idle = u 1, rm_memory_total = u 2 * 1024, rm_memory_avail = u 3 * 1024,
              rm_disk_total = u 4 * 1024, rm_disk_used = u 5 * 1024, rm_network_rx = u 6, rm_network_tx = u 7,
              rm_load1 = vs ! 8, rm_uptime = vs ! 9, rm_collected_at = now\<rparr>))"

text \<open>What became of the session that \<^verbatim>\<open>CollectMetrics\<close> opens on the connection to run its command.\<close>

datatype probe = ClientClosed | NoProbe | ProbeFails | ProbeOutput string

definition collect_metrics :: "'f float_ops \<Rightarrow> int \<Rightarrow> probe \<Rightarrow> 'f raw_metrics option \<times> ssh_action list" where
  "collect_metrics fo now p =
    (case p of
       ClientClosed \<Rightarrow> (None, [])
     | NoProbe \<Rightarrow> (None, [])
     | ProbeFails \<Rightarrow> (None, [OpenSession, CloseSession])
     | ProbeOutput output \<Rightarrow>
         (case parse_metrics_output fo now output of Inl _ \<Rightarrow> None | Inr m \<Rightarrow> Some m, [OpenSession, CloseSession]))"

record 'f metrics_data =
  md_cpu_percent :: 'f
  md_memory_used :: "64 word"
  md_memory_total :: "64 word"
  md_memory_percent :: 'f
  md_disk_used :: "64 word"
  md_disk_total :: "64 word"
  md_disk_percent :: 'f
  md_network_rx :: "64 word"
  md_network_tx :: "64 word"
  md_rx_per_sec :: 'f
  md_tx_per_sec :: 'f
  md_load1 :: 'f
  md_uptime :: 'f

definition ratio :: "'f float_ops \<Rightarrow> 64 word \<Rightarrow> 64 word \<Rightarrow> 'f" where
  "ratio fo part whole = fo_div fo (fo_mul fo (fo_of_word fo part) (fo_hundred fo)) (fo_of_word fo whole)"

text \<open>One tick: \<open>previous\<close> is the last sample, if there was one.\<close>

definition metrics_of :: "'f float_ops \<Rightarrow> 'f raw_metrics option \<Rightarrow> 'f raw_metrics \<Rightarrow> 'f metrics_data" where
  "metrics_of fo previous cur =
    (let memory = (if rm_memory_total cur > 0 then rm_memory_total cur - rm_memory_avail cur else 0);
         base = \<lparr>md_cpu_percent = fo_zero fo, md_memory_used = memory, md_memory_total = rm_memory_total cur,
           md_memory_percent = (if rm_memory_total cur > 0 then ratio fo memory (rm_memory_total cur) else fo_zero fo),
           md_disk_used = rm_disk_used cur, md_disk_total = rm_disk_total cur,
           md_disk_percent = (if rm_disk_total cur > 0 then ratio fo (rm_disk_used cur) (rm_disk_total cur) else fo_zero fo),
           md_network_rx = rm_network_rx cur, md_network_tx = rm_network_tx cur,
           md_rx_per_sec = fo_zero fo, md_tx_per_sec = fo_zero fo,
           md_load1 = rm_load1 cur, md_uptime = rm_uptime cur\<rparr>
     in (case previous of
           None \<Rightarrow> base
         | Some prev \<Rightarrow>
             let total = rm_cpu_total cur - rm_cpu_total prev; idle = rm_cpu_idle cur - rm_cpu_idle prev;
                 seconds = fo_seconds fo (rm_collected_at cur - rm_collected_at prev);
                 rate = (\<lambda>now before. if fo_positive fo seconds then fo_div fo (fo_of_word fo (now - before)) seconds else fo_zero fo)
             in base\<lparr>md_cpu_percent := (if total > 0 \<and> idle \<le> total then ratio fo (total - idle) total else fo_zero fo),
                      md_rx_per_sec := rate (rm_network_rx cur) (rm_network_rx prev),
                      md_tx_per_sec := rate (rm_network_tx cur) (rm_network_tx prev)\<rparr>))"

text \<open>The ticks of \<^verbatim>\<open>streamMetrics\<close>: a sample that could not be collected is skipped.\<close>

fun stream_metrics :: "'f float_ops \<Rightarrow> 'f raw_metrics option \<Rightarrow> 'f raw_metrics option list \<Rightarrow> 'f metrics_data list" where
  "stream_metrics fo previous [] = []"
| "stream_metrics fo previous (None # ticks) = stream_metrics fo previous ticks"
| "stream_metrics fo previous (Some cur # ticks) = metrics_of fo previous cur # stream_metrics fo (Some cur) ticks"

section \<open>Properties of the metrics\<close>

text \<open>The difference of two counters: exact when it does not go down, near \<^verbatim>\<open>2^64\<close> when it does.\<close>

lemma nat_wrapped: "int x = int a - int b + int n \<Longrightarrow> a < b \<Longrightarrow> int b < int n \<Longrightarrow> x = n - (b - a)"
  by linarith

lemma unat_difference:
  fixes now before :: "64 word"
  shows "unat (now - before) = (if before \<le> now then unat now - unat before else 2 ^ 64 - (unat before - unat now))"
proof (cases "before \<le> now")
  case True
  then show ?thesis by (simp add: unat_sub)
next
  case False
  then have less: "uint now < uint before" by (simp add: word_le_def)
  have b: "uint before < 2 ^ 64" "0 \<le> uint now" using uint_lt2p [of before] by simp_all
  have "uint (now - before) = (uint now - uint before) mod 2 ^ 64" by (simp add: uint_word_ariths)
  also have "\<dots> = (uint now - uint before + 2 ^ 64) mod 2 ^ 64" by simp
  also have "\<dots> = uint now - uint before + 2 ^ 64"
    by (rule mod_pos_pos_trivial) (use less b in linarith)+
  finally have i: "int (unat (now - before)) = int (unat now) - int (unat before) + 2 ^ 64" by (simp only: uint_nat)
  have "unat now < unat before" using less by (simp only: uint_nat of_nat_less_iff)
  moreover have "int (unat before) < 2 ^ 64" using b(1) by (simp only: uint_nat)
  ultimately have "unat (now - before) = 2 ^ 64 - (unat before - unat now)"
    using i nat_wrapped [of "unat (now - before)" "unat now" "unat before" "2 ^ 64"] by (simp only: of_nat_power of_nat_numeral)
  with False show ?thesis by simp
qed

text \<open>
  The figures sent are those of the samples: the busy share of the processor never exceeds the whole, and the rates
  and the memory in use are exact as long as the counters behave; when a counter goes down (an interface that
  disappears, a restart) the difference wraps, and a rate of about \<^verbatim>\<open>2^64\<close> bytes is reported.
\<close>

theorem metrics_deltas:
  assumes "d = metrics_of fo (Some prev) cur" "fo_positive fo seconds" "seconds = fo_seconds fo (rm_collected_at cur - rm_collected_at prev)"
  shows "(md_cpu_percent d = fo_zero fo \<or> (\<exists>busy whole. md_cpu_percent d = ratio fo busy whole \<and> busy \<le> whole \<and> 0 < whole)) \<and>
    (\<exists>delta. md_rx_per_sec d = fo_div fo (fo_of_word fo delta) seconds \<and>
       unat delta = (if rm_network_rx prev \<le> rm_network_rx cur then unat (rm_network_rx cur) - unat (rm_network_rx prev)
         else 2 ^ 64 - (unat (rm_network_rx prev) - unat (rm_network_rx cur)))) \<and>
    (0 < rm_memory_total cur \<longrightarrow> unat (md_memory_used d) =
       (if rm_memory_avail cur \<le> rm_memory_total cur then unat (rm_memory_total cur) - unat (rm_memory_avail cur)
        else 2 ^ 64 - (unat (rm_memory_avail cur) - unat (rm_memory_total cur))))"
proof -
  let ?total = "rm_cpu_total cur - rm_cpu_total prev" and ?idle = "rm_cpu_idle cur - rm_cpu_idle prev"
  have "md_cpu_percent d = (if ?total > 0 \<and> ?idle \<le> ?total then ratio fo (?total - ?idle) ?total else fo_zero fo)"
    by (simp add: assms(1) metrics_of_def Let_def)
  moreover have "?total - ?idle \<le> ?total" if "?idle \<le> ?total" using that by (simp add: word_le_nat_alt unat_sub)
  moreover have "md_rx_per_sec d = fo_div fo (fo_of_word fo (rm_network_rx cur - rm_network_rx prev)) seconds"
    using assms(2) by (simp add: assms(1,3) metrics_of_def Let_def)
  moreover have "0 < rm_memory_total cur \<longrightarrow> md_memory_used d = rm_memory_total cur - rm_memory_avail cur"
    by (simp add: assms(1) metrics_of_def Let_def)
  ultimately show ?thesis using unat_difference by (metis (no_types, lifting))
qed

lemma stream_metrics_length: "length (stream_metrics fo previous ticks) = length (filter (\<lambda>t. t \<noteq> None) ticks)"
  by (induction fo previous ticks rule: stream_metrics.induct) auto

text \<open>Each message compares a sample with the one before it, whatever was skipped between them.\<close>

lemma stream_metrics_append:
  "stream_metrics fo previous (xs @ Some cur # ticks) =
     stream_metrics fo previous (xs @ [Some cur]) @ stream_metrics fo (Some cur) ticks"
  by (induction fo previous xs rule: stream_metrics.induct) auto

section \<open>Witnesses\<close>

theorem shell_output_prefix_witness:
  "\<exists>t. stream_reach (start_stream ''bye'' []) t \<and> op_cancelled t \<and> concat (map stdout_part (op_sent t)) @ rd_source (op_out t) = ''bye''"
proof -
  obtain t where t: "stream_reach (start_stream ''bye'' []) t" "op_cancelled t"
    using shell_output_prefix [OF rtranclp.rtrancl_refl [of stream_step "start_stream ''bye'' []"]] by blast
  with shell_output_prefix [OF t(1)] show ?thesis by blast
qed

definition nat_floats :: "nat float_ops" where
  "nat_floats = \<lparr>fo_parse = (\<lambda>s. map_option nat (atoi s)), fo_to_word = of_nat, fo_of_word = unat, fo_mul = (*), fo_div = (div),
     fo_positive = (\<lambda>n. n > 0), fo_seconds = (\<lambda>d. nat (d div second)), fo_zero = 0, fo_hundred = 100\<rparr>"

lemma metrics_parsed:
  "\<not> isl (parse_metrics_output nat_floats 0 ''400 100 2 1 8 4 9 7 1 2'')"
  by code_simp

definition sample_metrics :: "nat raw_metrics" where
  "sample_metrics = \<lparr>rm_cpu_total = 400, rm_cpu_idle = 100, rm_memory_total = 2048, rm_memory_avail = 1024, rm_disk_total = 8192,
     rm_disk_used = 4096, rm_network_rx = 9, rm_network_tx = 7, rm_load1 = 1, rm_uptime = 2, rm_collected_at = 0\<rparr>"

theorem metrics_deltas_witness:
  "unat (md_memory_used (metrics_of nat_floats (Some sample_metrics) (sample_metrics\<lparr>rm_collected_at := 3 * second\<rparr>))) = 1024"
proof -
  let ?c = "sample_metrics\<lparr>rm_collected_at := 3 * second\<rparr>"
  have s: "fo_positive nat_floats (fo_seconds nat_floats (rm_collected_at ?c - rm_collected_at sample_metrics))"
    by (simp add: nat_floats_def sample_metrics_def)
  have m: "0 < rm_memory_total ?c" "rm_memory_avail ?c \<le> rm_memory_total ?c" "unat (rm_memory_total ?c) - unat (rm_memory_avail ?c) = 1024"
    by (simp_all add: sample_metrics_def)
  from metrics_deltas [OF refl s refl] m show ?thesis by auto
qed

end
