(* ===== verification/Themes.thy ===== *)
theory Themes
  imports Go_Prelude "HOL-Library.Multiset"
begin

text \<open>
  \<^verbatim>\<open>themes/catalog.go\<close>: the terminal themes, embedded ones overlaid by the files of a directory. A
  parsed JSON object is an association list in the order Go happens to iterate it, with \<open>None\<close> for
  a value that is not a string; the files are the entries of a directory, with the content that
  reading them gives.
\<close>

section \<open>Data\<close>

type_synonym theme = "string \<rightharpoonup> string"

type_synonym json_object = "(string \<times> string option) list"

record dir_entry =
  de_name :: string
  de_is_dir :: bool
  de_data :: "bytes option"

datatype theme_error =
    ThemeEmpty | ThemeJson | ThemeColor string | ThemeColorEmpty string | ThemeIncomplete | ThemeId
  | ThemeRead | ThemeStat | ThemeNotDir | ThemeReadDir

text \<open>What \<^verbatim>\<open>os.Stat\<close> and \<^verbatim>\<open>os.ReadDir\<close> say of the configured directory.\<close>

datatype dir_stat = DirMissing | DirError | DirFile | DirOk "dir_entry list option"

definition preferred_order :: "string list" where
  "preferred_order =
    [''github-light'', ''solarized-light'', ''catppuccin-latte'', ''catppuccin-mocha'', ''dracula'',
     ''tokyo-night'', ''one-dark'', ''nord'']"

section \<open>Parsing\<close>

fun collect_colors :: "json_object \<Rightarrow> theme \<Rightarrow> theme_error + theme" where
  "collect_colors [] th = Inr th"
| "collect_colors ((key, v) # rest) th =
     (if key = ''name'' then collect_colors rest th
      else (case v of
              None \<Rightarrow> Inl (ThemeColor key)
            | Some s \<Rightarrow>
                if trim_space s = [] then Inl (ThemeColorEmpty key)
                else collect_colors rest (th(key \<mapsto> trim_space s))))"

text \<open>A Go map gives the empty string for a missing key.\<close>

definition color :: "theme \<Rightarrow> string \<Rightarrow> string" where
  "color th k = (case th k of Some s \<Rightarrow> s | None \<Rightarrow> [])"

definition theme_complete :: "theme \<Rightarrow> bool" where
  "theme_complete th \<longleftrightarrow> color th ''background'' \<noteq> [] \<and> color th ''foreground'' \<noteq> []"

definition parse_theme :: "(bytes \<Rightarrow> json_object option) \<Rightarrow> string \<Rightarrow> bytes \<Rightarrow> theme_error + theme" where
  "parse_theme unmarshal default_id data0 =
    (let data = trim_space data0 in
     if data = [] then Inl ThemeEmpty
     else (case unmarshal data of
       None \<Rightarrow> Inl ThemeJson
     | Some raw \<Rightarrow> bind_result (collect_colors raw Map.empty) (\<lambda>th.
         if \<not> theme_complete th then Inl ThemeIncomplete
         else if default_id = [] then Inl ThemeId
         else Inr th)))"

text \<open>\<^verbatim>\<open>filepath.Ext\<close> of a file name: from the last dot on.\<close>

definition file_ext :: "string \<Rightarrow> string" where
  "file_ext name =
    (if CHR ''.'' \<in> set name then CHR ''.'' # rev (takeWhile (\<lambda>c. c \<noteq> CHR ''.'') (rev name)) else [])"

definition theme_id :: "string \<Rightarrow> string" where
  "theme_id name = trim_suffix name (file_ext name)"

definition is_theme_file :: "dir_entry \<Rightarrow> bool" where
  "is_theme_file d \<longleftrightarrow> \<not> de_is_dir d \<and> has_suffix (to_lower (de_name d)) ''.json''"

text \<open>\<^verbatim>\<open>loadDir\<close> and \<^verbatim>\<open>loadFS\<close> do the same on their entries; a later file replaces an earlier one.\<close>

fun load_entries ::
  "(bytes \<Rightarrow> json_object option) \<Rightarrow> dir_entry list \<Rightarrow> (string \<rightharpoonup> theme) \<Rightarrow> theme_error + (string \<rightharpoonup> theme)" where
  "load_entries unmarshal [] out = Inr out"
| "load_entries unmarshal (d # ds) out =
     (if \<not> is_theme_file d then load_entries unmarshal ds out
      else (case de_data d of
              None \<Rightarrow> Inl ThemeRead
            | Some data \<Rightarrow>
                bind_result (parse_theme unmarshal (theme_id (de_name d)) data) (\<lambda>th.
                load_entries unmarshal ds (out(theme_id (de_name d) \<mapsto> th)))))"

section \<open>The catalog\<close>

definition load_dir ::
  "(bytes \<Rightarrow> json_object option) \<Rightarrow> dir_entry list option \<Rightarrow> (string \<rightharpoonup> theme) \<Rightarrow> theme_error + (string \<rightharpoonup> theme)" where
  "load_dir unmarshal entries out =
    (case entries of None \<Rightarrow> Inl ThemeReadDir | Some ds \<Rightarrow> load_entries unmarshal ds out)"

definition load_themes ::
  "(bytes \<Rightarrow> json_object option) \<Rightarrow> dir_entry list \<Rightarrow> (string \<Rightarrow> dir_stat) \<Rightarrow> string \<Rightarrow> theme_error + (string \<rightharpoonup> theme)" where
  "load_themes unmarshal embedded stat dir0 =
    bind_result (load_entries unmarshal embedded Map.empty) (\<lambda>out.
      let dir = trim_space dir0 in
      if dir = [] then Inr out
      else (case stat dir of
              DirMissing \<Rightarrow> Inr out
            | DirError \<Rightarrow> Inl ThemeStat
            | DirFile \<Rightarrow> Inl ThemeNotDir
            | DirOk entries \<Rightarrow> load_dir unmarshal entries out))"

text \<open>\<open>keys\<close> are the names of the loaded themes in map iteration order.\<close>

definition ordered_names :: "string list \<Rightarrow> string list" where
  "ordered_names keys =
    (let names = filter (\<lambda>n. n \<in> set keys) preferred_order in
     names @ sort (filter (\<lambda>n. n \<notin> set names) keys))"

definition theme_names ::
  "(bytes \<Rightarrow> json_object option) \<Rightarrow> dir_entry list \<Rightarrow> (string \<Rightarrow> dir_stat) \<Rightarrow> string \<Rightarrow>
   ((string \<rightharpoonup> theme) \<Rightarrow> string list) \<Rightarrow> theme_error + string list" where
  "theme_names unmarshal embedded stat dir keys_of =
    bind_result (load_themes unmarshal embedded stat dir) (\<lambda>all. Inr (ordered_names (keys_of all)))"

text \<open>\<^verbatim>\<open>WriteJS\<close>: the text written, or the error.\<close>

definition write_js ::
  "(bytes \<Rightarrow> json_object option) \<Rightarrow> ((string \<rightharpoonup> theme) \<Rightarrow> bytes option) \<Rightarrow> dir_entry list \<Rightarrow> (string \<Rightarrow> dir_stat) \<Rightarrow>
   string \<Rightarrow> theme_error + string" where
  "write_js unmarshal marshal embedded stat dir =
    bind_result (load_themes unmarshal embedded stat dir) (\<lambda>all.
    bind_result (of_option ThemeJson (marshal all)) (\<lambda>payload.
      Inr (''/* generated by go-webssh */'' @ [CHR 0x0A] @ ''window.GOWEBSSH_THEMES = '' @ payload @ '';'' @ [CHR 0x0A])))"

section \<open>Lemmas\<close>

lemma collect_colors_nonempty:
  "collect_colors raw th = Inr th' \<Longrightarrow> (\<And>k. th k \<noteq> Some []) \<Longrightarrow> th' k \<noteq> Some []"
  by (induction raw th rule: collect_colors.induct) (auto split: if_split_asm option.split_asm)

definition theme_ok :: "theme \<Rightarrow> bool" where
  "theme_ok th \<longleftrightarrow> theme_complete th \<and> (\<forall>k. th k \<noteq> Some [])"

lemma parse_theme_ok:
  assumes "parse_theme unmarshal i data = Inr th"
  shows "theme_ok th"
proof -
  have "\<exists>obj. collect_colors obj Map.empty = Inr th \<and> theme_complete th"
    using assms
    by (auto simp: parse_theme_def Let_def bind_result_Inr_iff split: if_split_asm option.split_asm)
  with collect_colors_nonempty show ?thesis by (fastforce simp: theme_ok_def)
qed

lemma load_entries_ok:
  assumes "load_entries unmarshal ds out = Inr out'" "\<forall>i th. out i = Some th \<longrightarrow> theme_ok th"
  shows "\<forall>i th. out' i = Some th \<longrightarrow> theme_ok th"
  using assms
proof (induction unmarshal ds out rule: load_entries.induct)
  case (1 unmarshal out)
  then show ?case by simp
next
  case (2 unmarshal d ds out)
  show ?case
  proof (cases "is_theme_file d")
    case False
    with 2(1) 2(3,4) show ?thesis by simp
  next
    case True
    with 2(3) obtain data th where d: "de_data d = Some data"
      "parse_theme unmarshal (theme_id (de_name d)) data = Inr th"
      "load_entries unmarshal ds (out(theme_id (de_name d) \<mapsto> th)) = Inr out'"
      by (auto simp: bind_result_Inr_iff split: option.split_asm)
    have "\<forall>i t. (out(theme_id (de_name d) \<mapsto> th)) i = Some t \<longrightarrow> theme_ok t"
      using 2(4) parse_theme_ok [OF d(2)] by simp
    then show ?thesis using 2(2) [OF _ d(1) d(3)] True by blast
  qed
qed

lemma distinct_preferred_order: "distinct preferred_order"
  by code_simp

text \<open>
  The names offered are the names of the loaded themes, each once: first those of the historical
  list, in its order, then the others sorted; whatever the iteration order of the map.
\<close>

theorem ordered_names_complete:
  assumes "distinct keys"
  shows "mset (ordered_names keys) = mset keys \<and>
    (\<exists>k. take k (ordered_names keys) = filter (\<lambda>n. n \<in> set keys) preferred_order \<and>
         sorted (drop k (ordered_names keys)) \<and> set (drop k (ordered_names keys)) \<inter> set preferred_order = {}) \<and>
    (\<forall>keys'. mset keys' = mset keys \<longrightarrow> ordered_names keys' = ordered_names keys)"
proof -
  let ?f = "filter (\<lambda>n. n \<in> set keys) preferred_order"
  let ?r = "filter (\<lambda>n. n \<notin> set ?f) keys"
  have o: "ordered_names keys = ?f @ sort ?r" by (simp add: ordered_names_def)
  have d: "distinct (ordered_names keys)" using assms distinct_preferred_order by (auto simp: o)
  have s: "set (ordered_names keys) = set keys" by (auto simp: o)
  have m: "mset (ordered_names keys) = mset keys"
    using d s assms by (metis set_eq_iff_mset_eq_distinct)
  have "\<exists>k. take k (ordered_names keys) = ?f \<and> sorted (drop k (ordered_names keys)) \<and>
      set (drop k (ordered_names keys)) \<inter> set preferred_order = {}"
    by (intro exI [of _ "length ?f"]) (auto simp: o)
  moreover have "ordered_names keys' = ordered_names keys" if "mset keys' = mset keys" for keys'
  proof -
    have e: "set keys' = set keys" using that by (rule mset_eq_setD)
    have "mset (filter P keys') = mset (filter P keys)" for P using that by (simp add: mset_filter)
    then have "sort (filter P keys') = sort (filter P keys)" for P
      by (metis properties_for_sort mset_sort sorted_sort)
    then show ?thesis by (simp add: ordered_names_def e)
  qed
  ultimately show ?thesis using m by blast
qed

theorem ordered_names_complete_witness:
  "mset (ordered_names [''zen'', ''nord'', ''acme'', ''dracula'']) = mset [''zen'', ''nord'', ''acme'', ''dracula'']"
proof -
  have "distinct [''zen'', ''nord'', ''acme'', ''dracula'']" by simp
  from ordered_names_complete [OF this] show ?thesis by blast
qed

lemma load_themes_ok:
  assumes "load_themes unmarshal embedded stat dir = Inr all"
  shows "\<forall>i th. all i = Some th \<longrightarrow> theme_ok th"
proof -
  from assms obtain out where out: "load_entries unmarshal embedded Map.empty = Inr out"
    and rest: "all = out \<or> (\<exists>entries. load_entries unmarshal entries out = Inr all)"
    by (auto simp: load_themes_def bind_result_Inr_iff Let_def load_dir_def
        split: if_split_asm dir_stat.split_asm option.split_asm)
  have "\<forall>i th. out i = Some th \<longrightarrow> theme_ok th" by (rule load_entries_ok [OF out]) simp
  with rest load_entries_ok show ?thesis by blast
qed

lemma load_entries_append:
  "load_entries unmarshal (xs @ ys) out =
     bind_result (load_entries unmarshal xs out) (load_entries unmarshal ys)"
proof (induction xs arbitrary: out)
  case Nil
  then show ?case by (simp add: bind_result_def)
next
  case (Cons d ds)
  show ?case
    by (cases "is_theme_file d"; cases "de_data d";
        cases "parse_theme unmarshal (theme_id (de_name d)) (the (de_data d))")
      (simp_all add: Cons.IH bind_result_def del: fun_upd_apply)
qed

lemma load_entries_keeps:
  "load_entries unmarshal ds out = Inr out' \<Longrightarrow>
   out' i = (case find (\<lambda>d. is_theme_file d \<and> theme_id (de_name d) = i) (rev ds) of
     None \<Rightarrow> out i
   | Some d \<Rightarrow> (case de_data d of None \<Rightarrow> None
               | Some data \<Rightarrow> (case parse_theme unmarshal i data of Inr th \<Rightarrow> Some th | Inl _ \<Rightarrow> None)))"
proof (induction ds arbitrary: out' rule: rev_induct)
  case Nil
  then show ?case by simp
next
  case (snoc d ds)
  from snoc.prems obtain o1 where o1: "load_entries unmarshal ds out = Inr o1" "load_entries unmarshal [d] o1 = Inr out'"
    by (auto simp: load_entries_append bind_result_Inr_iff)
  show ?case
  proof (cases "is_theme_file d")
    case False
    with o1 snoc.IH [OF o1(1)] show ?thesis by simp
  next
    case True
    with o1(2) obtain data th where "de_data d = Some data"
      "parse_theme unmarshal (theme_id (de_name d)) data = Inr th" "out' = o1(theme_id (de_name d) \<mapsto> th)"
      by (auto simp: bind_result_Inr_iff split: option.split_asm)
    with True snoc.IH [OF o1(1)] show ?thesis by auto
  qed
qed

text \<open>
  C34: every theme of a loaded catalog has a background and a foreground and no empty color, and the
  catalog of a directory is the embedded one overlaid by the directory's files: under each name
  the theme of its last file there, or else the embedded one.
\<close>

theorem loaded_themes_complete:
  assumes "load_themes unmarshal embedded stat dir = Inr all"
  shows "(\<forall>i th. all i = Some th \<longrightarrow> theme_complete th \<and> (\<forall>k. th k \<noteq> Some [])) \<and>
    (\<forall>ds. trim_space dir \<noteq> [] \<and> stat (trim_space dir) = DirOk (Some ds) \<longrightarrow>
      (\<exists>base. load_themes unmarshal embedded stat [] = Inr base \<and>
        (\<forall>i. all i = (case find (\<lambda>d. is_theme_file d \<and> theme_id (de_name d) = i) (rev ds) of
           None \<Rightarrow> base i
         | Some d \<Rightarrow> Option.bind (de_data d) (\<lambda>data.
             case parse_theme unmarshal i data of Inr th \<Rightarrow> Some th | Inl _ \<Rightarrow> None)))))"
proof (intro conjI allI impI)
  show "theme_complete th" "th k \<noteq> Some []" if "all i = Some th" for i th k
    using load_themes_ok [OF assms] that by (auto simp: theme_ok_def)
  fix ds assume d: "trim_space dir \<noteq> [] \<and> stat (trim_space dir) = DirOk (Some ds)"
  with assms obtain base where base: "load_entries unmarshal embedded Map.empty = Inr base"
    "load_entries unmarshal ds base = Inr all"
    by (auto simp: load_themes_def bind_result_Inr_iff Let_def load_dir_def)
  then have "load_themes unmarshal embedded stat [] = Inr base" by (simp add: load_themes_def)
  moreover have "all i = (case find (\<lambda>d. is_theme_file d \<and> theme_id (de_name d) = i) (rev ds) of
       None \<Rightarrow> base i
     | Some d \<Rightarrow> Option.bind (de_data d) (\<lambda>data.
         case parse_theme unmarshal i data of Inr th \<Rightarrow> Some th | Inl _ \<Rightarrow> None))" for i
    using load_entries_keeps [OF base(2), of i] by (auto split: option.splits)
  ultimately show "\<exists>base. load_themes unmarshal embedded stat [] = Inr base \<and>
        (\<forall>i. all i = (case find (\<lambda>d. is_theme_file d \<and> theme_id (de_name d) = i) (rev ds) of
           None \<Rightarrow> base i
         | Some d \<Rightarrow> Option.bind (de_data d) (\<lambda>data.
             case parse_theme unmarshal i data of Inr th \<Rightarrow> Some th | Inl _ \<Rightarrow> None)))"
    by blast
qed

definition sample_object :: "bytes \<Rightarrow> json_object option" where
  "sample_object b = Some [(''name'', None), (''background'', Some b), (''foreground'', Some ''#fff'')]"

definition sample_entry :: "string \<Rightarrow> string \<Rightarrow> dir_entry" where
  "sample_entry name data = \<lparr>de_name = name, de_is_dir = False, de_data = Some data\<rparr>"

definition sample_themes :: "theme_error + (string \<rightharpoonup> theme)" where
  "sample_themes = load_themes sample_object [sample_entry ''nord.json'' ''#111'', sample_entry ''dracula.json'' ''#222'']
     (\<lambda>_. DirOk (Some [sample_entry ''nord.json'' '' #333 '', sample_entry ''README'' ''x''])) ''./themes''"

theorem loaded_themes_complete_witness:
  "\<exists>all. sample_themes = Inr all \<and> (\<forall>i th. all i = Some th \<longrightarrow> theme_complete th)"
proof -
  have "case sample_themes of Inl _ \<Rightarrow> False | Inr all \<Rightarrow> True" by code_simp
  then obtain all where all: "sample_themes = Inr all" by (auto split: sum.splits)
  from loaded_themes_complete [OF all [unfolded sample_themes_def]] all show ?thesis by blast
qed

end
