(* ===== verification/Go_Json_Array.thy ===== *)
theory Go_Json_Array
  imports Go_Json_Object
begin

text \<open>
  Arrays of JSON, as \<^verbatim>\<open>encoding/json\<close> reads them into slices and writes them, and the reading of the first value of a
  stream.
\<close>

section \<open>Reading\<close>

text \<open>The texts of the elements that follow, and those of an array.\<close>

function element_texts :: "nat \<Rightarrow> bytes \<Rightarrow> bytes list" where
  "element_texts d s =
     (case scan_value d s of
        None \<Rightarrow> []
      | Some s1 \<Rightarrow> consumed s s1 #
          (case skip_space s1 of
             [] \<Rightarrow> []
           | c # r \<Rightarrow> if c = CHR '','' \<and> length (skip_space r) < length s then element_texts d (skip_space r) else []))"
  by pat_completeness auto
termination by (relation "measure (length \<circ> snd)") auto

declare element_texts.simps [simp del]

definition array_elements :: "bytes \<Rightarrow> bytes list" where
  "array_elements v =
    (case skip_space (tl v) of
       [] \<Rightarrow> []
     | b # r \<Rightarrow> if b = CHR '']'' then [] else element_texts (max_nesting - 1) (skip_space (tl v)))"

text \<open>
  An element is read into the one that the slice has at its place, or else into a new one. (A slice that has been longer before,
  as only a key given three times can make it, is taken to be new there.)
\<close>

fun store_elements :: "(bytes \<Rightarrow> 'a \<Rightarrow> bool \<times> 'a) \<Rightarrow> 'a \<Rightarrow> bytes list \<Rightarrow> 'a list \<Rightarrow> bool \<times> 'a list" where
  "store_elements store new [] old = (True, [])"
| "store_elements store new (v # vs) old =
     (case store v (case old of [] \<Rightarrow> new | x # _ \<Rightarrow> x) of
        (fits, y) \<Rightarrow> (case store_elements store new vs (tl old) of (rest, ys) \<Rightarrow> (fits \<and> rest, y # ys)))"

definition store_list :: "(bytes \<Rightarrow> 'a \<Rightarrow> bool \<times> 'a) \<Rightarrow> 'a \<Rightarrow> bytes \<Rightarrow> 'a list \<Rightarrow> bool \<times> 'a list" where
  "store_list store new v old =
    (if v = ''null'' then (True, [])
     else if v \<noteq> [] \<and> hd v = CHR ''['' then store_elements store new (array_elements v) old
     else (False, old))"

text \<open>\<^verbatim>\<open>Decoder.Decode\<close> reads one value and leaves what follows.\<close>

definition json_decode :: "(bytes \<Rightarrow> 'a \<Rightarrow> bool \<times> 'a) \<Rightarrow> bytes \<Rightarrow> 'a \<Rightarrow> bool \<times> 'a" where
  "json_decode store s x =
    (case scan_value max_nesting (skip_space s) of None \<Rightarrow> (False, x) | Some r \<Rightarrow> store (consumed (skip_space s) r) x)"

section \<open>Writing\<close>

fun elements_text :: "bytes list \<Rightarrow> bytes" where
  "elements_text [] = []"
| "elements_text [v] = v"
| "elements_text (v # vs) = v @ CHR '','' # elements_text vs"

definition array_text :: "bytes list \<Rightarrow> bytes" where
  "array_text vs = CHR ''['' # elements_text vs @ '']''"

section \<open>What is written is read\<close>

lemma value_text_front: "value_text d v \<Longrightarrow> hd v \<noteq> CHR '']''"
proof
  assume v: "value_text d v" and h: "hd v = CHR '']''"
  then obtain cs where cs: "v = CHR '']'' # cs" by (cases v) (auto simp: value_text_def)
  have "scan_value d (v @ []) = Some []" by (rule value_textD(3) [OF v]) (simp add: value_end_def)
  then show False by (simp add: cs scan_value.simps scan_number_def scan_digits_def is_digit_def)
qed

lemma elements_text_front:
  assumes "vs \<noteq> []" "list_all (value_text d) vs"
  shows "\<exists>c t. elements_text vs = c # t \<and> \<not> json_space c \<and> c \<noteq> CHR '']''"
proof (cases vs rule: elements_text.cases)
  case (2 v)
  then show ?thesis using assms(2) value_text_front [of d v] by (cases v) (auto simp: value_text_def)
next
  case (3 v w ws)
  then show ?thesis using assms(2) value_text_front [of d v] by (cases v) (auto simp: value_text_def)
qed (use assms in simp)

lemma scan_elements_text:
  assumes "vs \<noteq> []" "list_all (value_text d) vs"
  shows "scan_elements d (elements_text vs @ CHR '']'' # r) = Some r \<and> element_texts d (elements_text vs @ CHR '']'' # r) = vs"
  using assms
proof (induction vs rule: elements_text.induct)
  case (2 v)
  then have "scan_value d (v @ CHR '']'' # r) = Some (CHR '']'' # r)" by (intro value_textD(3)) (simp_all add: value_end_def)
  then show ?case by (simp add: scan_elements.simps element_texts.simps json_space_def)
next
  case (3 v w ws)
  let ?t = "elements_text (w # ws) @ CHR '']'' # r"
  have "scan_value d (v @ CHR '','' # ?t) = Some (CHR '','' # ?t)"
    using 3 by (intro value_textD(3)) (simp_all add: value_end_def)
  moreover obtain c t where "elements_text (w # ws) = c # t" "\<not> json_space c"
    using elements_text_front [of "w # ws" d] 3(3) by auto
  then have "skip_space ?t = ?t" by simp
  moreover have "skip_space (CHR '','' # x) = CHR '','' # x" for x by (simp add: json_space_def)
  ultimately have "scan_elements d (v @ CHR '','' # ?t) = scan_elements d ?t" "element_texts d (v @ CHR '','' # ?t) = v # element_texts d ?t"
    by (subst scan_elements.simps element_texts.simps; simp del: elements_text.simps dropWhile.simps)+
  then show ?case using 3 by simp
qed simp

lemma value_text_array:
  assumes "0 < d" "list_all (value_text (d - 1)) vs"
  shows "value_text d (array_text vs)"
proof (cases "vs = []")
  case True
  then show ?thesis using assms(1) by (simp add: value_text_def array_text_def json_space_def scan_value.simps)
next
  case False
  obtain c t where f: "elements_text vs = c # t" "\<not> json_space c" "c \<noteq> CHR '']''" using elements_text_front [OF False assms(2)] by blast
  have "scan_elements (d - 1) (elements_text vs @ CHR '']'' # r) = Some r" for r using scan_elements_text [OF False assms(2)] by blast
  with assms(1) f show ?thesis by (simp add: value_text_def array_text_def json_space_def [of "CHR ''[''"] scan_value.simps)
qed

lemma array_elements_text:
  assumes "list_all (value_text (max_nesting - 1)) vs"
  shows "array_elements (array_text vs) = vs"
proof (cases "vs = []")
  case True
  then show ?thesis by (simp add: array_elements_def array_text_def json_space_def)
next
  case False
  obtain c t where f: "elements_text vs = c # t" "\<not> json_space c" "c \<noteq> CHR '']''" using elements_text_front [OF False assms] by blast
  have "element_texts (max_nesting - 1) (elements_text vs @ '']'') = vs" using scan_elements_text [OF False assms, of "[]"] by simp
  with f show ?thesis by (simp add: array_elements_def array_text_def)
qed

lemma store_array_text:
  "list_all (value_text (max_nesting - 1)) vs \<Longrightarrow> store_list store new (array_text vs) old = store_elements store new vs old"
  by (simp add: store_list_def array_elements_text) (simp add: array_text_def)

lemma store_elements_new:
  assumes "\<And>x. x \<in> set xs \<Longrightarrow> store (f x) new = (True, g x)"
  shows "store_elements store new (map f xs) [] = (True, map g xs)"
  using assms by (induction xs) simp_all

text \<open>The first value of a stream that begins with an object.\<close>

lemma decode_object:
  assumes "list_all (\<lambda>(_, v). value_text (max_nesting - 1) v) ms"
  shows "json_decode (store_struct fs) (object_text ms @ w) x = store_members fs (map (\<lambda>(name, v). (json_quote name, v)) ms) x"
proof -
  have "Suc (max_nesting - 1) = max_nesting" by (simp add: max_nesting_def)
  with scan_object_text [OF assms, of w] have "scan_value max_nesting (object_text ms @ w) = Some w" by simp
  moreover have "skip_space (object_text ms @ w) = object_text ms @ w" by (simp add: object_text_def json_space_def)
  ultimately have "json_decode (store_struct fs) (object_text ms @ w) x = store_struct fs (object_text ms) x" by (simp add: json_decode_def)
  also have "\<dots> = json_unmarshal (store_struct fs) (object_text ms @ []) x"
    using unmarshal_text [of "object_text ms" "store_struct fs" x] value_text_object [of max_nesting ms] assms by (simp add: max_nesting_def)
  finally show ?thesis using unmarshal_object [OF assms, of "[]" fs x] by simp
qed

end
