(* ===== verification/Http_Server.thy ===== *)
theory Http_Server
  imports Vault_Listing Ws_Tunnel Themes Go_Json_Array
begin

text \<open>
  \<^verbatim>\<open>internal/httpserver/server.go\<close>: the routes and the handlers of the web server, over the components
  they call. A request is the \<open>http_request\<close> of the WebSocket handlers with its method, path and
  body; \<open>inputs\<close> is what the handlers read besides: clocks, random bytes and how a WebSocket
  went. The JSON of themes, the files and the components' own parameters are in \<open>server_env\<close>.
\<close>

section \<open>Data\<close>

record api_request = http_request +
  ar_method :: string
  ar_path :: string
  ar_content_type :: string
  ar_body :: bytes
  ar_body_fails :: bool

record inputs =
  in_now :: int
  in_now2 :: int
  in_rnd :: "bytes option"
  in_rnd_id :: "bytes option"
  in_rnd_nonce :: "bytes option"
  in_rnd_record :: "bytes \<Rightarrow> bytes option"
  in_upgrade_ok :: bool
  in_upgrade_status :: int
  in_rnd1 :: bytes
  in_rnd2 :: bytes
  in_sent :: bool
  in_write_ok :: "string \<Rightarrow> bool"
  in_ended :: session_end
  in_others :: "handler \<Rightarrow> handler"
  in_frames :: "frame list"
  in_dial :: "string \<Rightarrow> bool"
  in_relayed :: "bytes list"

record ('signer, 'client, 'db) server_env =
  se_ws :: "('signer, 'client) ws_env"
  se_vault :: "'db vault_env"
  se_theme_json :: "bytes \<Rightarrow> json_object option"
  se_theme_marshal :: "(string \<rightharpoonup> theme) \<Rightarrow> bytes option"
  se_theme_keys :: "(string \<rightharpoonup> theme) \<Rightarrow> string list"
  se_embedded :: "dir_entry list"
  se_stat :: "string \<Rightarrow> dir_stat"
  se_static :: "string \<Rightarrow> (bool \<times> bytes) option"

record 'db server =
  sr_handler :: handler
  sr_vault :: "'db vault option"

definition new_server :: "handler \<Rightarrow> 'db vault option \<Rightarrow> 'db server" where
  "new_server h v = \<lparr>sr_handler = h, sr_vault = v\<rparr>"

text \<open>The bodies of the login and of the migration.\<close>

definition login_fields :: "(string \<times> string \<times> bool) json_fields" where
  "login_fields =
    [(''username'', field store_string fst (\<lambda>u (_, r). (u, r))),
     (''password'', field store_string (fst \<circ> snd) (\<lambda>p (u, _, m). (u, p, m))),
     (''remember'', field store_bool (snd \<circ> snd) (\<lambda>m (u, p, _). (u, p, m)))]"

definition decode_login :: "bytes \<Rightarrow> (string \<times> string \<times> bool) option" where
  "decode_login b = if_fits (json_unmarshal (store_struct login_fields) b ([], [], False))"

definition decode_password :: "bytes \<Rightarrow> string option" where
  "decode_password b = if_fits (json_unmarshal (store_struct [(''password'', store_string)]) b [])"

record public_summary =
  ps_id :: string
  ps_name :: string
  ps_host :: string
  ps_port :: int
  ps_username :: string
  ps_term :: string
  ps_use_herdr :: bool
  ps_legacy_use_tmux :: bool
  ps_has_private_key :: bool
  ps_has_passphrase :: bool
  ps_updated_at :: go_time

record ui_config =
  ui_host_key_policy :: string
  ui_key_persistence :: string
  ui_max_key_bytes :: int
  ui_allow_private :: bool
  ui_credential_storage :: bool
  ui_themes_dir :: string
  ui_themes :: "string list"

datatype body =
    OkBody
  | ErrBody string string
  | SessionBody "string option"
  | UiBody ui_config
  | ListBody "public_summary list" int int
  | CredentialBody credential
  | SummaryBody public_summary
  | MigratedBody int int
  | FileBody string bytes
  | ScriptBody string
  | TextBody string
  | SocketBody "ws_message list" "ssh_action list"
  | TunnelBody "tunnel_event list"

record response =
  rs_status :: int
  rs_headers :: "(string \<times> string) list"
  rs_cookies :: "cookie list"
  rs_body :: body

definition write_json :: "int \<Rightarrow> body \<Rightarrow> response" where
  "write_json status b =
    \<lparr>rs_status = status, rs_headers = [(''Content-Type'', ''application/json'')], rs_cookies = [], rs_body = b\<rparr>"

definition write_err :: "int \<Rightarrow> string \<Rightarrow> string \<Rightarrow> response" where
  "write_err status code message = write_json status (ErrBody code message)"

text \<open>The JSON of a body; the keys of a map are sorted. A value with a time that has no text is not written.\<close>

definition public_members :: "public_summary \<Rightarrow> bytes \<Rightarrow> (string \<times> bytes) list" where
  "public_members p updated =
    [(''id'', json_quote (ps_id p)), (''name'', json_quote (ps_name p)), (''host'', json_quote (ps_host p)),
     (''port'', itoa (ps_port p)), (''username'', json_quote (ps_username p)), (''term'', json_quote (ps_term p)),
     (''useHerdr'', bool_text (ps_use_herdr p)), (''useTmux'', bool_text (ps_legacy_use_tmux p)),
     (''hasPrivateKey'', bool_text (ps_has_private_key p)), (''hasPassphrase'', bool_text (ps_has_passphrase p)),
     (''updatedAt'', updated)]"

definition public_text :: "public_summary \<Rightarrow> bytes option" where
  "public_text p = map_option (\<lambda>updated. object_text (public_members p updated)) (time_text (ps_updated_at p))"

fun json_body :: "body \<Rightarrow> bytes option" where
  "json_body OkBody = Some (object_text [(''ok'', bool_text True)])"
| "json_body (ErrBody code message) =
     Some (object_text [(''error'', object_text [(''code'', json_quote code), (''message'', json_quote message)]), (''ok'', bool_text False)])"
| "json_body (SessionBody None) = Some (object_text [(''authenticated'', bool_text False)])"
| "json_body (SessionBody (Some username)) =
     Some (object_text [(''authenticated'', bool_text True), (''username'', json_quote username)])"
| "json_body (UiBody c) =
     Some (object_text
       [(''allowPrivateRanges'', bool_text (ui_allow_private c)), (''credentialStorage'', bool_text (ui_credential_storage c)),
        (''hostKeyPolicy'', json_quote (ui_host_key_policy c)), (''maxPrivateKeyBytes'', itoa (ui_max_key_bytes c)),
        (''privateKeyPersistence'', json_quote (ui_key_persistence c)), (''themes'', array_text (map json_quote (ui_themes c))),
        (''themesDir'', json_quote (ui_themes_dir c))])"
| "json_body (ListBody items removed unmigrated) =
     map_option (\<lambda>ts. object_text [(''credentials'', array_text ts), (''removedCredentials'', itoa removed),
        (''unmigratedCredentials'', itoa unmigrated)]) (those (map public_text items))"
| "json_body (CredentialBody c) = credential_marshal c"
| "json_body (SummaryBody p) = public_text p"
| "json_body (MigratedBody migrated remaining) =
     Some (object_text [(''migrated'', itoa migrated), (''ok'', bool_text True), (''remaining'', itoa remaining)])"
| "json_body _ = None"

text \<open>The bytes of a body. \<^verbatim>\<open>Encode\<close> and \<^verbatim>\<open>http.Error\<close> end with a newline; the connection of a WebSocket has no body.\<close>

definition body_text :: "body \<Rightarrow> bytes" where
  "body_text b =
    (case b of
       FileBody _ content \<Rightarrow> content
     | ScriptBody js \<Rightarrow> js
     | TextBody t \<Rightarrow> t @ [CHR 0x0A]
     | _ \<Rightarrow> (case json_body b of None \<Rightarrow> [] | Some t \<Rightarrow> t @ [CHR 0x0A]))"

definition security_headers :: "(string \<times> string) list" where
  "security_headers =
    [(''X-Content-Type-Options'', ''nosniff''), (''X-Frame-Options'', ''DENY''),
     (''Referrer-Policy'', ''no-referrer''),
     (''Permissions-Policy'', ''camera=(), microphone=(), geolocation=()''),
     (''Content-Security-Policy'',
      ''default-src 'self'; connect-src 'self' ws: wss:; img-src 'self' data:; style-src 'self' 'unsafe-inline'; script-src 'self'; base-uri 'none'; frame-ancestors 'none'; form-action 'self'' @ [CHR 0x27])]"

definition with_security_headers :: "response \<Rightarrow> response" where
  "with_security_headers r = r\<lparr>rs_headers := security_headers @ rs_headers r\<rparr>"

text \<open>
  Reading a body through \<^verbatim>\<open>io.LimitReader\<close>: at most \<open>n\<close> bytes, and the error of the connection only if
  it comes before them.
\<close>

definition read_limited :: "nat \<Rightarrow> api_request \<Rightarrow> bytes option" where
  "read_limited n r = (if ar_body_fails r \<and> length (ar_body r) < n then None else Some (take n (ar_body r)))"

section \<open>Sessions\<close>

text \<open>Who makes the request, and the server after the lookup, which may drop an expired session.\<close>

definition request_session ::
  "('g, 'c, 'db) server_env \<Rightarrow> inputs \<Rightarrow> 'db server \<Rightarrow> api_request \<Rightarrow> session_info option \<times> 'db server" where
  "request_session env i s r =
    (let h = sr_handler s in
     case session_from_request (we_crypto (se_ws env)) (hd_auth h) (hd_store h) (hr_cookie r) (in_now i) of
       (who, store) \<Rightarrow> (who, s\<lparr>sr_handler := h\<lparr>hd_store := store\<rparr>\<rparr>))"

definition handle_login ::
  "('g, 'c, 'db) server_env \<Rightarrow> inputs \<Rightarrow> 'db server \<Rightarrow> api_request \<Rightarrow> response \<times> 'db server" where
  "handle_login env i s r =
    (if \<not> has_prefix (ar_content_type r) ''application/json''
     then (write_err 400 ''BAD_REQUEST'' ''Content-Type must be application/json'', s)
     else (case read_limited 4096 r of
       None \<Rightarrow> (write_err 400 ''BAD_REQUEST'' ''invalid request body'', s)
     | Some b \<Rightarrow>
         (case decode_login b of
            None \<Rightarrow> (write_err 400 ''BAD_REQUEST'' ''invalid JSON'', s)
          | Some (username, password, remember) \<Rightarrow>
              (let h = sr_handler s in
               case login (we_crypto (se_ws env)) (hd_auth h) (hd_store h) username password
                      [remember] (in_rnd i) (in_now i) (in_now2 i) of
                 (Inl _, store) \<Rightarrow>
                   (write_err 401 ''AUTH_FAILED'' ''invalid username or password'', s\<lparr>sr_handler := h\<lparr>hd_store := store\<rparr>\<rparr>)
               | (Inr ck, store) \<Rightarrow>
                   ((write_json 200 OkBody)\<lparr>rs_cookies := [ck]\<rparr>, s\<lparr>sr_handler := h\<lparr>hd_store := store\<rparr>\<rparr>)))))"

definition handle_logout ::
  "('g, 'c, 'db) server_env \<Rightarrow> inputs \<Rightarrow> 'db server \<Rightarrow> api_request \<Rightarrow> response \<times> 'db server" where
  "handle_logout env i s0 r =
    (case request_session env i s0 r of
       (None, s) \<Rightarrow> (write_err 401 ''AUTH_REQUIRED'' ''authentication required'', s)
     | (Some _, s) \<Rightarrow>
         (let h = sr_handler s in
          case logout (we_crypto (se_ws env)) (hd_auth h) (hd_store h) (hr_cookie r) of
            (ck, store) \<Rightarrow> ((write_json 200 OkBody)\<lparr>rs_cookies := [ck]\<rparr>, s\<lparr>sr_handler := h\<lparr>hd_store := store\<rparr>\<rparr>)))"

definition handle_session ::
  "('g, 'c, 'db) server_env \<Rightarrow> inputs \<Rightarrow> 'db server \<Rightarrow> api_request \<Rightarrow> response \<times> 'db server" where
  "handle_session env i s0 r =
    (case request_session env i s0 r of
       (Some info, s) \<Rightarrow> (write_json 200 (SessionBody (Some (si_username info))), s)
     | (None, s) \<Rightarrow> (write_json 200 (SessionBody None), s))"

section \<open>The interface\<close>

definition server_themes :: "('g, 'c, 'db) server_env \<Rightarrow> 'db server \<Rightarrow> theme_error + string list" where
  "server_themes env s =
    theme_names (se_theme_json env) (se_embedded env) (se_stat env) (c_themes_dir (hd_cfg (sr_handler s))) (se_theme_keys env)"

definition handle_ui_config :: "('g, 'c, 'db) server_env \<Rightarrow> 'db server \<Rightarrow> response" where
  "handle_ui_config env s =
    (let cfg = hd_cfg (sr_handler s) in
     case server_themes env s of
       Inl _ \<Rightarrow> write_err 500 ''THEMES_LOAD_FAILED'' ''failed to load terminal themes''
     | Inr names \<Rightarrow> write_json 200 (UiBody
         \<lparr>ui_host_key_policy = sh_host_key_policy (c_ssh cfg), ui_key_persistence = ''memory-only'',
          ui_max_key_bytes = 131072, ui_allow_private = nc_allow_private (c_network cfg),
          ui_credential_storage = (sr_vault s \<noteq> None), ui_themes_dir = c_themes_dir cfg, ui_themes = names\<rparr>))"

definition handle_themes_js :: "('g, 'c, 'db) server_env \<Rightarrow> 'db server \<Rightarrow> response" where
  "handle_themes_js env s =
    (let headers = [(''Content-Type'', ''application/javascript; charset=utf-8''), (''Cache-Control'', ''no-cache, must-revalidate'')] in
     case write_js (se_theme_json env) (se_theme_marshal env) (se_embedded env) (se_stat env) (c_themes_dir (hd_cfg (sr_handler s))) of
       Inl _ \<Rightarrow> \<lparr>rs_status = 500, rs_headers = headers, rs_cookies = [], rs_body = TextBody ''failed to load themes''\<rparr>
     | Inr js \<Rightarrow> \<lparr>rs_status = 200, rs_headers = headers, rs_cookies = [], rs_body = ScriptBody js\<rparr>)"

definition not_found :: response where
  "not_found = \<lparr>rs_status = 404, rs_headers = [], rs_cookies = [], rs_body = TextBody ''404 page not found''\<rparr>"

definition serve_file :: "('g, 'c, 'db) server_env \<Rightarrow> string \<Rightarrow> response" where
  "serve_file env name =
    (let headers = [(''Cache-Control'', ''no-cache, must-revalidate'')] in
     case se_static env name of
       None \<Rightarrow> not_found\<lparr>rs_headers := headers\<rparr>
     | Some (is_dir, content) \<Rightarrow>
         if is_dir then not_found\<lparr>rs_headers := headers\<rparr>
         else \<lparr>rs_status = 200, rs_headers = headers, rs_cookies = [], rs_body = FileBody name content\<rparr>)"

definition serve_static :: "('g, 'c, 'db) server_env \<Rightarrow> string \<Rightarrow> response" where
  "serve_static env path =
    (let name = trim_prefix path ''/'' in serve_file env (if name = [] then ''index.html'' else name))"

definition handle_index :: "('g, 'c, 'db) server_env \<Rightarrow> string \<Rightarrow> response" where
  "handle_index env path = (if path \<noteq> ''/'' then not_found else serve_file env ''index.html'')"

section \<open>Credentials\<close>

definition credential_session ::
  "('g, 'c, 'db) server_env \<Rightarrow> inputs \<Rightarrow> 'db server \<Rightarrow> api_request \<Rightarrow> (response + session_info \<times> 'db vault) \<times> 'db server" where
  "credential_session env i s0 r =
    (case request_session env i s0 r of
       (None, s) \<Rightarrow> (Inl (write_err 401 ''AUTH_REQUIRED'' ''authentication required''), s)
     | (Some info, s) \<Rightarrow>
         (case sr_vault s of
            None \<Rightarrow> (Inl (write_err 503 ''CREDENTIAL_STORAGE_DISABLED'' ''credential storage is disabled''), s)
          | Some v \<Rightarrow> (Inr (info, v), s)))"

text \<open>The handlers of the credentials, given the session and the vault.\<close>

definition summary_view :: "summary \<Rightarrow> public_summary" where
  "summary_view m =
    \<lparr>ps_id = sm_id m, ps_name = sm_name m, ps_host = sm_host m, ps_port = sm_port m, ps_username = sm_username m,
     ps_term = sm_term m, ps_use_herdr = sm_use_herdr m, ps_legacy_use_tmux = sm_use_herdr m,
     ps_has_private_key = sm_has_private_key m, ps_has_passphrase = sm_has_passphrase m, ps_updated_at = sm_updated_at m\<rparr>"

definition saved_view :: "credential \<Rightarrow> public_summary" where
  "saved_view c =
    \<lparr>ps_id = cd_id c, ps_name = cd_name c, ps_host = cd_host c, ps_port = cd_port c, ps_username = cd_username c,
     ps_term = cd_term c, ps_use_herdr = cd_use_herdr c, ps_legacy_use_tmux = cd_use_herdr c,
     ps_has_private_key = True, ps_has_passphrase = (cd_passphrase c \<noteq> []), ps_updated_at = cd_updated_at c\<rparr>"

definition credential_list :: "('g, 'c, 'db) server_env \<Rightarrow> session_info \<Rightarrow> 'db vault \<Rightarrow> response \<times> 'db vault" where
  "credential_list env info v =
    (case list_summaries (se_vault env) v (si_username info) of
       (Inl _, v') \<Rightarrow> (write_err 422 ''VAULT_DECRYPT_FAILED'' ''credential vault could not be decrypted'', v')
     | (Inr (items, unmigrated), v') \<Rightarrow> (write_json 200 (ListBody (map summary_view items) 0 unmigrated), v'))"

definition credential_get :: "('g, 'c, 'db) server_env \<Rightarrow> string \<Rightarrow> 'db vault \<Rightarrow> response" where
  "credential_get env k v =
    (case vault_get (se_vault env) v k of
       Inl err \<Rightarrow>
         if err = ErrNotExist then write_err 404 ''NOT_FOUND'' ''credential not found''
         else write_err 422 ''VAULT_DECRYPT_FAILED'' ''credential vault could not be decrypted''
     | Inr item \<Rightarrow> write_json 200 (CredentialBody item))"

text \<open>What a body must hold to be stored, with the names trimmed.\<close>

definition check_item :: "credential \<Rightarrow> response + credential" where
  "check_item item0 =
    (let item = item0\<lparr>cd_name := trim_space (cd_name item0), cd_host := trim_space (cd_host item0),
                      cd_username := trim_space (cd_username item0)\<rparr> in
     if cd_name item = [] \<or> cd_host item = [] \<or> cd_username item = [] \<or> cd_private_key item = []
     then Inl (write_err 400 ''BAD_REQUEST'' ''name, host, username and private key are required'')
     else if cd_port item \<noteq> 0 \<and> (cd_port item < 1 \<or> cd_port item > 65535)
     then Inl (write_err 400 ''INVALID_PORT'' ''port must be between 1 and 65535'')
     else if length (cd_private_key item) > 128 * 1024 \<or> length (cd_passphrase item) > 8 * 1024
     then Inl (write_err 400 ''BAD_REQUEST'' ''credential is too large'')
     else Inr item)"

definition credential_put ::
  "('g, 'c, 'db) server_env \<Rightarrow> inputs \<Rightarrow> api_request \<Rightarrow> session_info \<Rightarrow> 'db vault \<Rightarrow> response \<times> 'db vault" where
  "credential_put env i r info v =
    (case read_limited (256 * 1024 + 1) r of
       None \<Rightarrow> (write_err 400 ''BAD_REQUEST'' ''credential is too large'', v)
     | Some b \<Rightarrow>
         if length b > 256 * 1024 then (write_err 400 ''BAD_REQUEST'' ''credential is too large'', v)
         else (case credential_unmarshal b of
           None \<Rightarrow> (write_err 400 ''BAD_REQUEST'' ''invalid JSON'', v)
         | Some item0 \<Rightarrow>
             (case check_item item0 of
                Inl resp \<Rightarrow> (resp, v)
              | Inr item \<Rightarrow>
                  (case put_for_user (se_vault env) v (si_username info) item (in_now i) (in_rnd_id i) (in_rnd_nonce i) of
                     (Inl _, v') \<Rightarrow> (write_err 500 ''INTERNAL_ERROR'' ''failed to save credential'', v')
                   | (Inr saved, v') \<Rightarrow> (write_json 200 (SummaryBody (saved_view saved)), v')))))"

definition credential_migrate ::
  "('g, 'c, 'db) server_env \<Rightarrow> inputs \<Rightarrow> api_request \<Rightarrow> 'db vault \<Rightarrow> response \<times> 'db vault" where
  "credential_migrate env i r v =
    (case read_limited (16 * 1024 + 1) r of
       None \<Rightarrow> (write_err 400 ''BAD_REQUEST'' ''migration request is too large'', v)
     | Some b \<Rightarrow>
         if length b > 16 * 1024 then (write_err 400 ''BAD_REQUEST'' ''migration request is too large'', v)
         else (case decode_password b of
           None \<Rightarrow> (write_err 400 ''BAD_REQUEST'' ''earlier login password is required'', v)
         | Some password \<Rightarrow>
             if password = [] then (write_err 400 ''BAD_REQUEST'' ''earlier login password is required'', v)
             else (case migrate_legacy_from_password (se_vault env) v password (in_rnd_record i) of
               ((_, _, Some _), v') \<Rightarrow> (write_err 500 ''VAULT_MIGRATE_FAILED'' ''credential migration failed'', v')
             | ((migrated, remaining, None), v') \<Rightarrow>
                 if migrated = 0 \<and> remaining > 0
                 then (write_err 422 ''VAULT_MIGRATE_FAILED'' ''the supplied password could not decrypt older credentials'', v')
                 else (write_json 200 (MigratedBody migrated remaining), v'))))"

definition credential_delete :: "('g, 'c, 'db) server_env \<Rightarrow> string \<Rightarrow> 'db vault \<Rightarrow> response \<times> 'db vault" where
  "credential_delete env k v =
    (case vault_delete (se_vault env) v k of
       (Inl _, v') \<Rightarrow> (write_err 400 ''BAD_REQUEST'' ''failed to delete credential'', v')
     | (Inr _, v') \<Rightarrow> (write_json 200 OkBody, v'))"

definition with_vault ::
  "('g, 'c, 'db) server_env \<Rightarrow> inputs \<Rightarrow> 'db server \<Rightarrow> api_request \<Rightarrow>
   (session_info \<Rightarrow> 'db vault \<Rightarrow> response \<times> 'db vault) \<Rightarrow> response \<times> 'db server" where
  "with_vault env i s0 r f =
    (case credential_session env i s0 r of
       (Inl resp, s) \<Rightarrow> (resp, s)
     | (Inr (info, v), s) \<Rightarrow> (case f info v of (resp, v') \<Rightarrow> (resp, s\<lparr>sr_vault := Some v'\<rparr>)))"

section \<open>Routes\<close>

datatype endpoint =
    Healthz | Login | Logout | SessionState | UiConfig | CredentialList | CredentialPut | CredentialMigrate
  | CredentialGet string | CredentialDelete string | SshSocket | TunnelSocket | Index | Static | ThemesJs
  | MethodNotAllowed

text \<open>The single segment a path has after \<^verbatim>\<open>/api/credentials/\<close>.\<close>

definition credential_id :: "string \<Rightarrow> string option" where
  "credential_id path =
    (if has_prefix path ''/api/credentials/'' \<and> trim_prefix path ''/api/credentials/'' \<noteq> [] \<and>
        CHR ''/'' \<notin> set (trim_prefix path ''/api/credentials/'')
     then Some (trim_prefix path ''/api/credentials/'') else None)"

text \<open>
  The patterns of the multiplexer on a clean path; a \<^verbatim>\<open>GET\<close> pattern also takes \<^verbatim>\<open>HEAD\<close>, and as \<^verbatim>\<open>GET /\<close>
  takes every path, another method on a path of no pattern of its own is not allowed.
\<close>

definition route :: "string \<Rightarrow> string \<Rightarrow> endpoint" where
  "route method path =
    (if method = ''GET'' \<or> method = ''HEAD'' then
       (if path = ''/api/healthz'' then Healthz
        else if path = ''/api/session'' then SessionState
        else if path = ''/api/config/ui'' then UiConfig
        else if path = ''/api/credentials'' then CredentialList
        else if path = ''/api/ws/ssh'' then SshSocket
        else if path = ''/api/ws/tunnel'' then TunnelSocket
        else if path = ''/themes.js'' then ThemesJs
        else if path = ''/app.js'' \<or> path = ''/style.css'' \<or> path = ''/favicon.svg'' \<or> has_prefix path ''/vendor/'' then Static
        else (case credential_id path of Some k \<Rightarrow> CredentialGet k | None \<Rightarrow> Index))
     else if method = ''POST'' then
       (if path = ''/api/login'' then Login
        else if path = ''/api/logout'' then Logout
        else if path = ''/api/credentials'' then CredentialPut
        else if path = ''/api/credentials/migrate'' then CredentialMigrate
        else MethodNotAllowed)
     else if method = ''DELETE'' then
       (case credential_id path of Some k \<Rightarrow> CredentialDelete k | None \<Rightarrow> MethodNotAllowed)
     else MethodNotAllowed)"

definition socket_response :: "inputs \<Rightarrow> http_reply \<Rightarrow> body \<Rightarrow> response" where
  "socket_response i reply b =
    (case reply of
       HttpReply status code \<Rightarrow> write_err status code []
     | Upgraded \<Rightarrow> \<lparr>rs_status = 101, rs_headers = [], rs_cookies = [], rs_body = b\<rparr>
     | UpgradeFailed \<Rightarrow> \<lparr>rs_status = in_upgrade_status i, rs_headers = [], rs_cookies = [], rs_body = TextBody []\<rparr>)"

definition dispatch ::
  "('g, 'c, 'db) server_env \<Rightarrow> inputs \<Rightarrow> 'db server \<Rightarrow> api_request \<Rightarrow> response \<times> 'db server" where
  "dispatch env i s r =
    (case route (ar_method r) (ar_path r) of
       Healthz \<Rightarrow> (write_json 200 OkBody, s)
     | Login \<Rightarrow> handle_login env i s r
     | Logout \<Rightarrow> handle_logout env i s r
     | SessionState \<Rightarrow> handle_session env i s r
     | UiConfig \<Rightarrow> (handle_ui_config env s, s)
     | CredentialList \<Rightarrow> with_vault env i s r (\<lambda>info v. credential_list env info v)
     | CredentialPut \<Rightarrow> with_vault env i s r (\<lambda>info v. credential_put env i r info v)
     | CredentialMigrate \<Rightarrow> with_vault env i s r (\<lambda>info v. credential_migrate env i r v)
     | CredentialGet k \<Rightarrow> with_vault env i s r (\<lambda>info v. (credential_get env k v, v))
     | CredentialDelete k \<Rightarrow> with_vault env i s r (\<lambda>info v. credential_delete env k v)
     | SshSocket \<Rightarrow>
         (case serve_http (se_ws env) (sr_handler s) (http_request.truncate r) (in_now i) (in_upgrade_ok i) (in_rnd1 i)
                 (in_rnd2 i) (in_sent i) (in_write_ok i) (in_ended i) (in_others i) (in_frames i) of
            (reply, h, out, acts) \<Rightarrow> (socket_response i reply (SocketBody out acts), s\<lparr>sr_handler := h\<rparr>))
     | TunnelSocket \<Rightarrow>
         (case serve_tunnel_http (se_ws env) (sr_handler s) (http_request.truncate r) (in_now i) (in_upgrade_ok i) (in_dial i)
                 (in_sent i) (case in_frames i of [] \<Rightarrow> ReadError | f # _ \<Rightarrow> f) (in_relayed i) (in_others i) of
            (reply, h, events) \<Rightarrow> (socket_response i reply (TunnelBody events), s\<lparr>sr_handler := h\<rparr>))
     | Index \<Rightarrow> (handle_index env (ar_path r), s)
     | Static \<Rightarrow> (serve_static env (ar_path r), s)
     | ThemesJs \<Rightarrow> (handle_themes_js env s, s)
     | MethodNotAllowed \<Rightarrow> (\<lparr>rs_status = 405, rs_headers = [], rs_cookies = [], rs_body = TextBody ''Method Not Allowed''\<rparr>, s))"

definition serve ::
  "('g, 'c, 'db) server_env \<Rightarrow> inputs \<Rightarrow> 'db server \<Rightarrow> api_request \<Rightarrow> response \<times> 'db server" where
  "serve env i s r = (case dispatch env i s r of (resp, s') \<Rightarrow> (with_security_headers resp, s'))"

section \<open>Lemmas\<close>

abbreviation who_asks :: "('g, 'c, 'db) server_env \<Rightarrow> inputs \<Rightarrow> 'db server \<Rightarrow> api_request \<Rightarrow> session_info option" where
  "who_asks env i s r \<equiv> fst (session_from_request (we_crypto (se_ws env)) (hd_auth (sr_handler s))
     (hd_store (sr_handler s)) (hr_cookie r) (in_now i))"

text \<open>The store after the lookup of the session of a request, which may drop that session once it has expired.\<close>

abbreviation looked_up :: "('g, 'c, 'db) server_env \<Rightarrow> inputs \<Rightarrow> 'db server \<Rightarrow> api_request \<Rightarrow> auth_store" where
  "looked_up env i s r \<equiv> snd (session_from_request (we_crypto (se_ws env)) (hd_auth (sr_handler s))
     (hd_store (sr_handler s)) (hr_cookie r) (in_now i))"

definition only_expired_lost :: "int \<Rightarrow> auth_store \<Rightarrow> auth_store \<Rightarrow> bool" where
  "only_expired_lost now st st' \<longleftrightarrow> as_ttl st' = as_ttl st \<and>
     (\<forall>t. as_sessions st' t = as_sessions st t \<or>
        as_sessions st' t = None \<and> (\<exists>x. as_sessions st t = Some x \<and> si_expires x < now))"

lemma only_expired_lost_refl [simp]: "only_expired_lost now st st"
  by (simp add: only_expired_lost_def)

lemma lookup_loses_expired: "only_expired_lost now st (snd (session_from_request c a st rc now))"
  by (auto simp: only_expired_lost_def session_from_request_def store_get_def store_delete_def split: option.split)

lemma request_session_store:
  "request_session env i s r = (who, s') \<Longrightarrow> s' = s\<lparr>sr_handler := (sr_handler s)\<lparr>hd_store := looked_up env i s r\<rparr>\<rparr>"
  by (auto simp: request_session_def Let_def split: prod.split_asm)

lemma request_session_eq:
  "request_session env i s r = (who_asks env i s r, s\<lparr>sr_handler := sr_handler s\<lparr>hd_store := looked_up env i s r\<rparr>\<rparr>)"
  by (auto simp: request_session_def Let_def split: prod.split)

lemma with_vault_cases:
  assumes "with_vault env i s r f = (resp, s')"
  obtains (anonymous) store where "who_asks env i s r = None" "rs_status resp = 401" "rs_body resp = ErrBody ''AUTH_REQUIRED'' ''authentication required''"
      "s' = s\<lparr>sr_handler := sr_handler s\<lparr>hd_store := store\<rparr>\<rparr>"
  | (disabled) info store where "who_asks env i s r = Some info" "sr_vault s = None" "rs_status resp = 503"
      "s' = s\<lparr>sr_handler := sr_handler s\<lparr>hd_store := store\<rparr>\<rparr>"
  | (handled) info v v' store where "who_asks env i s r = Some info" "sr_vault s = Some v" "f info v = (resp, v')"
      "s' = s\<lparr>sr_handler := sr_handler s\<lparr>hd_store := store\<rparr>, sr_vault := Some v'\<rparr>"
proof -
  obtain store where q: "request_session env i s r = (who_asks env i s r, s\<lparr>sr_handler := sr_handler s\<lparr>hd_store := store\<rparr>\<rparr>)"
    using request_session_eq by blast
  show ?thesis
  proof (cases "who_asks env i s r")
    case None
    with assms q show ?thesis
      by (intro anonymous) (auto simp: with_vault_def credential_session_def write_err_def write_json_def)
  next
    case who: (Some info)
    show ?thesis
    proof (cases "sr_vault s")
      case None
      with assms q who show ?thesis
        by (intro disabled) (auto simp: with_vault_def credential_session_def write_err_def write_json_def)
    next
      case (Some v)
      obtain d v' where "f info v = (d, v')" by fastforce
      with assms q who Some show ?thesis
        by (intro handled [OF _ Some, of info v']) (auto simp: with_vault_def credential_session_def)
    qed
  qed
qed

lemma serve_dispatch:
  assumes "serve env i s r = (resp, s')"
  obtains d where "dispatch env i s r = (d, s')" "rs_status resp = rs_status d" "rs_body resp = rs_body d"
    "rs_cookies resp = rs_cookies d" "rs_headers resp = security_headers @ rs_headers d"
  using assms by (auto simp: serve_def with_security_headers_def split: prod.split_asm)

text \<open>What is left of the server after a request without a session, and of its store if that is not a login.\<close>

lemma with_vault_anonymous:
  assumes "who_asks env i s r = None"
  shows "with_vault env i s r f =
    (write_err 401 ''AUTH_REQUIRED'' ''authentication required'', s\<lparr>sr_handler := sr_handler s\<lparr>hd_store := looked_up env i s r\<rparr>\<rparr>)"
  using assms by (simp add: with_vault_def credential_session_def request_session_eq)

lemma sockets_anonymous:
  assumes "fst (session_from_request (we_crypto env) (hd_auth h) (hd_store h) (hr_cookie r) now) = None"
  shows "serve_http env h r now up r1 r2 sent wok ended others frames
      = (HttpReply 401 ''AUTH_REQUIRED'', h\<lparr>hd_store := snd (session_from_request (we_crypto env) (hd_auth h) (hd_store h) (hr_cookie r) now)\<rparr>, [], [])"
    and "serve_tunnel_http env h r now up dial sent f relayed others
      = (HttpReply 401 ''AUTH_REQUIRED'', h\<lparr>hd_store := snd (session_from_request (we_crypto env) (hd_auth h) (hd_store h) (hr_cookie r) now)\<rparr>, [])"
  using assms by (auto simp: serve_http_def serve_tunnel_http_def Let_def split: prod.split)

text \<open>What an anonymous visitor may be sent, and which endpoints ask for a session.\<close>

fun public_body :: "body \<Rightarrow> bool" where
  "public_body (SessionBody who) = (who = None)"
| "public_body (ListBody _ _ _) = False"
| "public_body (CredentialBody _) = False"
| "public_body (SummaryBody _) = False"
| "public_body (MigratedBody _ _) = False"
| "public_body (SocketBody _ _) = False"
| "public_body (TunnelBody _) = False"
| "public_body _ = True"

fun needs_session :: "endpoint \<Rightarrow> bool" where
  "needs_session Logout = True"
| "needs_session CredentialList = True"
| "needs_session CredentialPut = True"
| "needs_session CredentialMigrate = True"
| "needs_session (CredentialGet _) = True"
| "needs_session (CredentialDelete _) = True"
| "needs_session SshSocket = True"
| "needs_session TunnelSocket = True"
| "needs_session _ = False"

lemma public_responses:
  "public_body (rs_body (write_err status code msg))"
  "public_body (rs_body (handle_ui_config env s))"
  "public_body (rs_body (handle_themes_js env s))"
  "public_body (rs_body (serve_static env path))"
  "public_body (rs_body (handle_index env path))"
  by (auto simp: write_err_def write_json_def handle_ui_config_def handle_themes_js_def serve_static_def handle_index_def
      serve_file_def not_found_def Let_def split: sum.split option.split)

lemma same_server: "\<exists>store. s = s\<lparr>sr_handler := sr_handler s\<lparr>hd_store := store\<rparr>\<rparr>"
  by (rule exI [of _ "hd_store (sr_handler s)"]) simp

lemma login_public:
  assumes "handle_login env i s r = (resp, s')"
  shows "public_body (rs_body resp) \<and> (\<exists>store. s' = s\<lparr>sr_handler := sr_handler s\<lparr>hd_store := store\<rparr>\<rparr>)"
  using assms
  by (auto simp: handle_login_def write_err_def write_json_def Let_def same_server
      split: if_split_asm option.split_asm prod.split_asm sum.split_asm)

text \<open>A login with the password: the one thing that an anonymous visitor may do to the sessions, and the cookie it is given.\<close>

definition logged_in :: "('g, 'c, 'db) server_env \<Rightarrow> inputs \<Rightarrow> 'db server \<Rightarrow> api_request \<Rightarrow> cookie \<Rightarrow> auth_store \<Rightarrow> bool" where
  "logged_in env i s r ck st \<longleftrightarrow> route (ar_method r) (ar_path r) = Login \<and>
     (\<exists>b username password remember. read_limited 4096 r = Some b \<and> decode_login b = Some (username, password, remember) \<and>
        authenticate (we_crypto (se_ws env)) (hd_auth (sr_handler s)) username password = Inr () \<and>
        login (we_crypto (se_ws env)) (hd_auth (sr_handler s)) (hd_store (sr_handler s)) username password [remember]
          (in_rnd i) (in_now i) (in_now2 i) = (Inr ck, st))"

lemma login_outcome:
  "login c a st username password remember rnd now now2 = (Inl err, st') \<Longrightarrow> st' = st"
  "login c a st username password remember rnd now now2 = (Inr ck, st') \<Longrightarrow> authenticate c a username password = Inr ()"
  by (auto simp: login_def Let_def split: sum.split_asm if_split_asm option.split_asm prod.split_asm)

lemma handle_login_outcome:
  assumes "handle_login env i s r = (resp, s')" "route (ar_method r) (ar_path r) = Login"
  shows "public_body (rs_body resp) \<and>
    (s' = s \<and> rs_cookies resp = [] \<and> rs_status resp \<noteq> 200 \<or>
     (\<exists>ck st. s' = s\<lparr>sr_handler := sr_handler s\<lparr>hd_store := st\<rparr>\<rparr> \<and> rs_cookies resp = [ck] \<and> rs_status resp = 200 \<and> logged_in env i s r ck st))"
proof (cases "has_prefix (ar_content_type r) ''application/json'' \<and> (\<exists>b q. read_limited 4096 r = Some b \<and> decode_login b = Some q)")
  case False
  with assms(1) show ?thesis
    by (auto simp: handle_login_def write_err_def write_json_def split: if_split_asm option.split_asm)
next
  case True
  then obtain b username password remember where b: "has_prefix (ar_content_type r) ''application/json''" "read_limited 4096 r = Some b"
    "decode_login b = Some (username, password, remember)" by auto
  let ?h = "sr_handler s"
  obtain res st where l: "login (we_crypto (se_ws env)) (hd_auth ?h) (hd_store ?h) username password
      [remember] (in_rnd i) (in_now i) (in_now2 i) = (res, st)" by fastforce
  show ?thesis
  proof (cases res)
    case (Inl err)
    with l login_outcome(1) have "st = hd_store ?h" by blast
    with assms(1) b l Inl show ?thesis by (auto simp: handle_login_def Let_def write_err_def write_json_def)
  next
    case (Inr ck)
    with l assms(2) b login_outcome(2) [of "we_crypto (se_ws env)"] have "logged_in env i s r ck st" by (auto simp: logged_in_def)
    with assms(1) b l Inr show ?thesis by (auto simp: handle_login_def Let_def write_json_def)
  qed
qed

lemma no_cookies:
  "rs_cookies (handle_ui_config env s) = []" "rs_cookies (handle_themes_js env s) = []"
  "rs_cookies (serve_static env path) = []" "rs_cookies (handle_index env path) = []"
  by (auto simp: write_err_def write_json_def handle_ui_config_def handle_themes_js_def serve_static_def handle_index_def
      serve_file_def not_found_def Let_def split: sum.split option.split)

text \<open>A listing, with its backfill of summaries, changes no credential.\<close>

lemma write_summaries_keeps:
  assumes "bolt_laws (ve_bolt e)" "write_summaries e sms db = Inr ((), db')"
  shows "bk_get (ve_bolt e) db' credential_bucket = bk_get (ve_bolt e) db credential_bucket \<and>
    bk_begin (ve_bolt e) db' = bk_begin (ve_bolt e) db"
  using assms(2)
proof (induction sms arbitrary: db)
  case Nil
  then show ?case by simp
next
  case (Cons sm sms)
  then obtain raw db1 where db1: "bk_put (ve_bolt e) db summary_bucket (sm_id sm) raw = Some db1"
    "write_summaries e sms db1 = Inr ((), db')"
    by (auto simp: result_iff)
  from Cons.IH [OF db1(2)] bolt_get(2) [OF assms(1) db1(1)] bolt_begin(2) [OF assms(1) db1(1)] show ?case
    by (simp add: fun_eq_iff)
qed

lemma list_summaries_look:
  assumes "env_ok e" "list_summaries e v owner = (res, v')"
  shows "vault_look e v' = vault_look e v"
proof (cases res)
  case (Inl err)
  with assms(2) list_summaries_Inl have "v' = v" by blast
  then show ?thesis by simp
next
  case (Inr q)
  obtain sums n where "list_summaries e v owner = (Inr (sums, n), v')" using assms(2) Inr by (cases q) auto
  then show ?thesis
  proof (rule list_summaries_Inr_cases)
    fix bf assume v': "v' = v\<lparr>vs_db := vs_db v'\<rparr>" and w: "write_summaries e bf (vs_db v) = Inr ((), vs_db v')"
    from write_summaries_keeps [OF env_okD(2) [OF assms(1)] w] have
      "vault_look e (v\<lparr>vs_db := vs_db v'\<rparr>) = vault_look e v"
      by (simp add: fun_eq_iff vault_look_eq stored_credential_def)
    with v' show ?thesis by simp
  qed
qed

text \<open>A credential that the interface lets into the vault.\<close>

definition api_valid :: "credential \<Rightarrow> bool" where
  "api_valid c \<longleftrightarrow> cd_id c \<noteq> [] \<and>
     cd_name c \<noteq> [] \<and> trim_space (cd_name c) = cd_name c \<and> cd_host c \<noteq> [] \<and> trim_space (cd_host c) = cd_host c \<and>
     cd_username c \<noteq> [] \<and> trim_space (cd_username c) = cd_username c \<and>
     cd_private_key c \<noteq> [] \<and> length (cd_private_key c) \<le> 128 * 1024 \<and> length (cd_passphrase c) \<le> 8 * 1024 \<and>
     1 \<le> cd_port c \<and> cd_port c \<le> 65535 \<and> cd_term c \<noteq> []"

lemma random_id_nonempty: "random_id rnd \<noteq> []"
proof -
  have "length (case rand_read 16 rnd of Some b \<Rightarrow> b | None \<Rightarrow> replicate 16 (CHR 0x00)) = 16"
    by (auto split: option.split dest: rand_read_length)
  then have "length (random_id rnd) \<noteq> 0" by (simp add: random_id_def length_b64_encode)
  then show ?thesis by auto
qed

lemma stamped_valid:
  assumes "check_item item0 = Inr item"
  shows "api_valid (stamp e v item now rnd)"
  using assms random_id_nonempty
  by (auto simp: check_item_def api_valid_def stamp_def Let_def split: if_split_asm sum.splits)

lemma credential_put_cases:
  assumes "credential_put env i r info v = (resp, v')"
  obtains (refused) "v' = v"
  | (saved) item saved where "put_for_user (se_vault env) v (si_username info) item (in_now i) (in_rnd_id i) (in_rnd_nonce i) = (Inr saved, v')"
      "api_valid saved" "resp = write_json 200 (SummaryBody (saved_view saved))"
proof (cases "v' = v")
  case True
  then show ?thesis by (rule refused)
next
  case False
  with assms obtain item0 item res where c: "check_item item0 = Inr item" and
    p: "put_for_user (se_vault env) v (si_username info) item (in_now i) (in_rnd_id i) (in_rnd_nonce i) = (res, v')" and
    r: "case res of Inl _ \<Rightarrow> True | Inr saved \<Rightarrow> resp = write_json 200 (SummaryBody (saved_view saved))"
    by (auto simp: credential_put_def split: option.split_asm if_split_asm sum.split_asm prod.split_asm)
  show ?thesis
  proof (cases res)
    case (Inl err)
    with p False store_credential_Inl show ?thesis unfolding put_for_user_def by blast
  next
    case (Inr c')
    with p have "c' = stamp (se_vault env) v item (in_now i) (in_rnd_id i)"
      unfolding put_for_user_def by (auto elim: store_credential_Inr_cases)
    with stamped_valid [OF c] have "api_valid c'" by simp
    moreover have "resp = write_json 200 (SummaryBody (saved_view c'))" using r Inr by simp
    ultimately show ?thesis using saved [OF p [unfolded Inr]] by blast
  qed
qed

lemma credential_migrate_cases:
  assumes "credential_migrate env i r v = (resp, v')"
  obtains (refused) "v' = v"
  | (migrated) password n remaining where "password \<noteq> []"
      "migrate_legacy_from_password (se_vault env) v password (in_rnd_record i) = ((n, remaining, None), v')"
  using assms migrate_Some
  by (fastforce simp: credential_migrate_def split: option.split_asm if_split_asm prod.split_asm)

text \<open>The vault of a server changes only through one of the vault's handlers.\<close>

lemma dispatch_vault:
  assumes "dispatch env i s r = (resp, s')" "sr_vault s = Some v" "sr_vault s' = Some v'"
  obtains (same) "v' = v"
  | (listed) owner res where "list_summaries (se_vault env) v owner = (res, v')"
  | (put) info where "who_asks env i s r = Some info" "route (ar_method r) (ar_path r) = CredentialPut" "credential_put env i r info v = (resp, v')"
  | (migrate) info where "who_asks env i s r = Some info" "route (ar_method r) (ar_path r) = CredentialMigrate" "credential_migrate env i r v = (resp, v')"
  | (delete) k where "vault_delete (se_vault env) v k = (Inr (), v')"
proof -
  obtain store where q: "request_session env i s r = (who_asks env i s r, s\<lparr>sr_handler := sr_handler s\<lparr>hd_store := store\<rparr>\<rparr>)"
    using request_session_eq by blast
  have vault: "\<exists>info. who_asks env i s r = Some info \<and> f info v = (resp, v')" if "with_vault env i s r f = (resp, s')" "v' \<noteq> v" for f
    using that assms(2,3) by (cases rule: with_vault_cases) auto
  show ?thesis
  proof (cases "v' = v")
    case True
    then show ?thesis by (rule same)
  next
    case False
    note vault = vault [OF _ False]
    show ?thesis
    proof (cases "route (ar_method r) (ar_path r)")
      case CredentialList
      with assms(1) vault obtain info where "credential_list env info v = (resp, v')" by (auto simp: dispatch_def)
      moreover obtain res v1 where l: "list_summaries (se_vault env) v (si_username info) = (res, v1)" by fastforce
      ultimately have "v1 = v'" by (auto simp: credential_list_def split: prod.split_asm sum.split_asm)
      with l listed show ?thesis by blast
    next
      case CredentialPut
      with assms(1) vault put show ?thesis by (auto simp: dispatch_def)
    next
      case CredentialMigrate
      with assms(1) vault migrate show ?thesis by (auto simp: dispatch_def)
    next
      case (CredentialGet k)
      with assms(1) vault False show ?thesis by (auto simp: dispatch_def)
    next
      case (CredentialDelete k)
      with assms(1) vault obtain info where "credential_delete env k v = (resp, v')" by (auto simp: dispatch_def)
      with False delete show ?thesis
        by (auto simp: credential_delete_def split: prod.split_asm sum.split_asm dest: vault_delete_Inl)
    next
      case Logout
      with assms q False show ?thesis by (auto simp: dispatch_def handle_logout_def Let_def split: option.split_asm prod.split_asm)
    next
      case SessionState
      with assms q False show ?thesis by (auto simp: dispatch_def handle_session_def split: option.split_asm)
    next
      case Login
      with assms(1) have "handle_login env i s r = (resp, s')" by (simp add: dispatch_def)
      from login_public [OF this] assms False show ?thesis by auto
    qed (use assms False in \<open>auto simp: dispatch_def split: prod.split_asm\<close>)
  qed
qed

section \<open>Properties\<close>

text \<open>
  C3: a request without a valid session can do nothing but log in: whatever its route, the vault, the counters,
  the policy and the configuration are left as they were, nothing is done on the SSH side or on
  a tunnel, the reply carries no credential and names no user, and every route that needs a
  session answers 401. It is given a cookie only as a login that has the right password, and is then what \<open>login\<close>
  makes of it; otherwise it sets no cookie, creates no session and ends none but expired ones.
\<close>

theorem anonymous_request_inert:
  assumes "serve env i s r = (resp, s')" "who_asks env i s r = None"
  shows "\<exists>store. s' = s\<lparr>sr_handler := sr_handler s\<lparr>hd_store := store\<rparr>\<rparr> \<and> public_body (rs_body resp) \<and>
    (needs_session (route (ar_method r) (ar_path r)) \<longrightarrow> rs_status resp = 401) \<and>
    (if rs_cookies resp = [] then only_expired_lost (in_now i) (hd_store (sr_handler s)) store
     else \<exists>ck. rs_cookies resp = [ck] \<and> logged_in env i s r ck store)"
proof -
  obtain d where d: "dispatch env i s r = (d, s')" "rs_status resp = rs_status d" "rs_body resp = rs_body d" "rs_cookies resp = rs_cookies d"
    by (rule serve_dispatch [OF assms(1)])
  let ?st = "looked_up env i s r"
  have looked: ?thesis if "s' = s\<lparr>sr_handler := sr_handler s\<lparr>hd_store := ?st\<rparr>\<rparr>" "rs_cookies d = []" "public_body (rs_body d)"
    "needs_session (route (ar_method r) (ar_path r)) \<longrightarrow> rs_status d = 401"
    using that d lookup_loses_expired by (intro exI [of _ ?st]) simp
  have same: ?thesis if "s' = s" "rs_cookies d = []" "public_body (rs_body d)" "\<not> needs_session (route (ar_method r) (ar_path r))"
    using that d by (intro exI [of _ "hd_store (sr_handler s)"]) simp
  have err: "rs_cookies (write_err st code msg) = []" "rs_status (write_err st code msg) = st" "public_body (rs_body (write_err st code msg))"
    for st code msg by (simp_all add: write_err_def write_json_def)
  have vault: ?thesis if "with_vault env i s r f = (d, s')" for f
    using that by (intro looked) (simp_all only: with_vault_anonymous [OF assms(2)] prod.inject, auto simp: err)
  have cookie: "hr_cookie (http_request.truncate r) = hr_cookie r" by (simp add: http_request.defs)
  show ?thesis
  proof (cases "route (ar_method r) (ar_path r)")
    case Login
    with d have "handle_login env i s r = (d, s')" by (simp add: dispatch_def)
    from handle_login_outcome [OF this Login] Login d show ?thesis
      by (auto intro: exI [of _ "hd_store (sr_handler s)"])
  next
    case Logout
    with d(1) assms(2) show ?thesis by (intro looked) (auto simp: dispatch_def handle_logout_def request_session_eq err)
  next
    case SessionState
    with d(1) assms(2) show ?thesis by (intro looked) (auto simp: dispatch_def handle_session_def request_session_eq write_json_def)
  next
    case SshSocket
    with d(1) assms(2) show ?thesis
      by (intro looked) (auto simp: dispatch_def sockets_anonymous(1) [where env = "se_ws env"] cookie socket_response_def err)
  next
    case TunnelSocket
    with d(1) assms(2) show ?thesis
      by (intro looked) (auto simp: dispatch_def sockets_anonymous(2) [where env = "se_ws env"] cookie socket_response_def err)
  next
    case CredentialList with d vault show ?thesis by (simp add: dispatch_def)
  next
    case CredentialPut with d vault show ?thesis by (simp add: dispatch_def)
  next
    case CredentialMigrate with d vault show ?thesis by (simp add: dispatch_def)
  next
    case (CredentialGet k) with d vault show ?thesis by (simp add: dispatch_def)
  next
    case (CredentialDelete k) with d vault show ?thesis by (simp add: dispatch_def)
  qed ((rule same, (use d(1) in \<open>auto simp: dispatch_def write_json_def no_cookies public_responses\<close>)[4])+)
qed

text \<open>
  C11: a credential that can be read after a request could be read before it under the same
  identifier, or the request had a session and stored it: as a save that was checked and is
  reported back (then what is read is what was saved, if JSON reads it back), or as the migration
  of an old record that the password given opens.
\<close>

theorem credential_provenance:
  assumes "env_ok (se_vault env)" "serve env i s r = (resp, s')" "sr_vault s = Some v" "sr_vault s' = Some v'"
    and "vault_look (se_vault env) v' k = Some c"
  shows "vault_look (se_vault env) v k = Some c \<or>
    who_asks env i s r \<noteq> None \<and>
      (route (ar_method r) (ar_path r) = CredentialPut \<and>
         (\<exists>saved. rs_body resp = SummaryBody (saved_view saved) \<and> k = cd_id saved \<and> api_valid saved \<and>
            (cred_storable saved \<longrightarrow> c = saved)) \<or>
       route (ar_method r) (ar_path r) = CredentialMigrate \<and>
         (\<exists>password. password \<noteq> [] \<and> stored_legacy (se_vault env) v password k = Some c))"
proof -
  obtain d where d: "dispatch env i s r = (d, s')" "rs_body resp = rs_body d"
    by (rule serve_dispatch [OF assms(2)])
  from d(1) assms(3,4) show ?thesis
  proof (cases rule: dispatch_vault)
    case same
    with assms(5) show ?thesis by simp
  next
    case (listed owner res)
    with list_summaries_look [OF assms(1)] assms(5) show ?thesis by metis
  next
    case (put info)
    from put(3) show ?thesis
    proof (cases rule: credential_put_cases)
      case refused
      with assms(5) show ?thesis by simp
    next
      case (saved item c')
      from saved(1) have w: "store_credential (se_vault env) v (si_username info)
          (stamp (se_vault env) v item (in_now i) (in_rnd_id i)) (in_rnd_nonce i) = (Inr c', v')"
        by (simp add: put_for_user_def)
      note st = store_credential_Inr [OF assms(1) w]
      have "k = cd_id c' \<and> (cred_storable c' \<longrightarrow> c = c')" if "vault_look (se_vault env) v k \<noteq> Some c"
      proof -
        have "k = cd_id c'"
          using that st(1,2) st(6) [of k] assms(5) by (auto simp: vault_look_eq split: if_split_asm)
        with st(1,2) st(4) [of k] assms(5) show ?thesis by (auto simp: vault_look_eq)
      qed
      with saved put d(2) show ?thesis by (auto simp: write_json_def)
    qed
  next
    case (migrate info)
    from migrate(3) show ?thesis
    proof (cases rule: credential_migrate_cases)
      case refused
      with assms(5) show ?thesis by simp
    next
      case (migrated password n remaining)
      from migration_look [OF assms(1) migrated(2), of k] assms(5) migrated(1) migrate show ?thesis
        by (auto split: option.split_asm)
    qed
  next
    case (delete k')
    from vault_delete_Inr [OF assms(1) delete] assms(5) show ?thesis
      by (auto simp: vault_look_eq split: if_split_asm)
  qed
qed

lemma session_found_keeps_store:
  "session_from_request c a st rc now = (Some info, st') \<Longrightarrow> st' = st"
  by (auto simp: session_from_request_def store_get_def split: option.split_asm if_split_asm)

lemma request_session_found:
  assumes "who_asks env i s r = Some info"
  shows "request_session env i s r = (Some info, s)"
proof -
  obtain who st where q: "session_from_request (we_crypto (se_ws env)) (hd_auth (sr_handler s))
      (hd_store (sr_handler s)) (hr_cookie r) (in_now i) = (who, st)" by fastforce
  with assms have "who = Some info" by simp
  with q session_found_keeps_store show ?thesis by (fastforce simp: request_session_def Let_def)
qed

lemma handle_login_ok:
  assumes "handle_login env i s r = (resp, s')" "rs_cookies resp = [ck]"
  obtains username password remember where "decode_login (take 4096 (ar_body r)) = Some (username, password, remember)"
    "login (we_crypto (se_ws env)) (hd_auth (sr_handler s)) (hd_store (sr_handler s)) username password
       [remember] (in_rnd i) (in_now i) (in_now2 i) = (Inr ck, hd_store (sr_handler s'))"
    "s' = s\<lparr>sr_handler := sr_handler s\<lparr>hd_store := hd_store (sr_handler s')\<rparr>\<rparr>"
  using assms
  by (auto simp: handle_login_def read_limited_def Let_def write_err_def write_json_def
      split: if_split_asm option.split_asm prod.split_asm sum.split_asm)

lemma put_ok_item:
  assumes "credential_put env i r info v = (resp, v')" "rs_body resp = SummaryBody ps"
  obtains item0 item saved where "credential_unmarshal (ar_body r) = Some item0" "check_item item0 = Inr item"
    "put_for_user (se_vault env) v (si_username info) item (in_now i) (in_rnd_id i) (in_rnd_nonce i) = (Inr saved, v')"
    "ps = saved_view saved"
proof -
  obtain b where b: "read_limited (256 * 1024 + 1) r = Some b" "\<not> 256 * 1024 < length b"
    using assms by (auto simp: credential_put_def write_err_def write_json_def split: option.split_asm if_split_asm)
  then have "b = ar_body r" by (auto simp: read_limited_def min_def split: if_split_asm)
  note b = b [unfolded this]
  have body: "rs_body (write_err st code msg) \<noteq> SummaryBody ps" for st code msg
    by (simp add: write_err_def write_json_def)
  obtain item0 where i0: "credential_unmarshal (ar_body r) = Some item0"
    using assms b body by (auto simp: credential_put_def split: option.split_asm)
  have refused: "check_item item0 = Inl e \<Longrightarrow> rs_body e \<noteq> SummaryBody ps" for e
    using body by (auto simp: check_item_def Let_def split: if_split_asm)
  obtain item where it: "check_item item0 = Inr item"
    using assms b i0 refused by (cases "check_item item0") (auto simp: credential_put_def)
  obtain res v1 where p: "put_for_user (se_vault env) v (si_username info) item (in_now i) (in_rnd_id i) (in_rnd_nonce i) = (res, v1)"
    by fastforce
  from assms b i0 it p body obtain saved where "res = Inr saved" "v1 = v'" "ps = saved_view saved"
    by (cases res) (auto simp: credential_put_def write_json_def)
  with that [OF i0 it] p show ?thesis by simp
qed

lemma check_item_keeps:
  "check_item item0 = Inr item \<Longrightarrow> cd_private_key item = cd_private_key item0 \<and> cd_passphrase item = cd_passphrase item0"
  by (auto simp: check_item_def Let_def split: if_split_asm)

text \<open>
  C22: signing in, saving and reading back, one after the other: with the cookie that a login set, remembered or not, a
  credential saved through the interface is returned in full, with the key that was sent, under the identifier
  that the save reported. The cookie serves until it expires, a remembered one in whole seconds and for a user
  name in UTF-8; the credential is one that JSON reads back as it was, with strings in UTF-8 and years of four digits.
\<close>

theorem login_save_read:
  assumes "env_ok (se_vault env)" "crypto_laws (we_crypto (se_ws env))"
    and "serve env i1 s0 r1 = (resp1, s1)" "route (ar_method r1) (ar_path r1) = Login" "rs_cookies resp1 = [ck]"
    and "decode_login (take 4096 (ar_body r1)) = Some (user, password, remember)" "in_rnd i1 = Some b" "length b = 32"
    and "remember \<Longrightarrow> utf8_valid user \<and> int64 (ck_expires ck div second)"
    and "serve env i2 s1 r2 = (resp2, s2)" "route (ar_method r2) (ar_path r2) = CredentialPut" "hr_cookie r2 = Some (ck_value ck)"
    and "cookie_live remember ck (in_now i2)" "rs_body resp2 = SummaryBody ps"
    and "serve env i3 s2 r3 = (resp3, s3)" "route (ar_method r3) (ar_path r3) = CredentialGet (ps_id ps)"
    and "hr_cookie r3 = Some (ck_value ck)" "cookie_live remember ck (in_now i3)"
  shows "\<exists>item0 saved. credential_unmarshal (ar_body r2) = Some item0 \<and> api_valid saved \<and> ps = saved_view saved \<and>
    cd_private_key saved = cd_private_key item0 \<and> cd_passphrase saved = cd_passphrase item0 \<and>
    (cred_storable saved \<longrightarrow> rs_status resp3 = 200 \<and> rs_body resp3 = CredentialBody saved)"
proof -
  obtain d1 where d1: "dispatch env i1 s0 r1 = (d1, s1)" "rs_cookies resp1 = rs_cookies d1" by (rule serve_dispatch [OF assms(3)])
  obtain d2 where d2: "dispatch env i2 s1 r2 = (d2, s2)" "rs_body resp2 = rs_body d2" by (rule serve_dispatch [OF assms(10)])
  obtain d3 where d3: "dispatch env i3 s2 r3 = (d3, s3)" "rs_body resp3 = rs_body d3" "rs_status resp3 = rs_status d3"
    by (rule serve_dispatch [OF assms(15)])
  from d1 assms(4,5) have "handle_login env i1 s0 r1 = (d1, s1)" "rs_cookies d1 = [ck]" by (simp_all add: dispatch_def)
  then obtain u p m where lg: "decode_login (take 4096 (ar_body r1)) = Some (u, p, m)"
    "login (we_crypto (se_ws env)) (hd_auth (sr_handler s0)) (hd_store (sr_handler s0)) u p
       [m] (in_rnd i1) (in_now i1) (in_now2 i1) = (Inr ck, hd_store (sr_handler s1))"
    "s1 = s0\<lparr>sr_handler := sr_handler s0\<lparr>hd_store := hd_store (sr_handler s1)\<rparr>\<rparr>"
    by (rule handle_login_ok)
  have m: "m = remember" "u = user" using lg(1) assms(6) by simp_all
  have auth: "hd_auth (sr_handler s1) = hd_auth (sr_handler s0)" by (subst lg(3)) simp
  have who: "\<exists>info. fst (session_from_request (we_crypto (se_ws env)) (hd_auth (sr_handler s1))
      (hd_store (sr_handler s1)) (Some (ck_value ck)) now) = Some info" if "cookie_live remember ck now" for now
    using login_cookie_live [OF assms(2,8) lg(2) [unfolded assms(7) m] assms(9) that] auth by simp
  obtain info where who2: "who_asks env i2 s1 r2 = Some info" using who [OF assms(13)] assms(12) by auto
  from d2(1) assms(11) have w2: "with_vault env i2 s1 r2 (\<lambda>info v. credential_put env i2 r2 info v) = (d2, s2)"
    by (simp add: dispatch_def)
  obtain v v' where v: "sr_vault s1 = Some v" "credential_put env i2 r2 info v = (d2, v')" "s2 = s1\<lparr>sr_vault := Some v'\<rparr>"
  proof (cases "sr_vault s1")
    case None
    with w2 request_session_found [OF who2] have "d2 = write_err 503 ''CREDENTIAL_STORAGE_DISABLED'' ''credential storage is disabled''"
      by (simp add: with_vault_def credential_session_def)
    with d2(2) assms(14) show ?thesis by (simp add: write_err_def write_json_def)
  next
    case (Some v)
    with w2 request_session_found [OF who2] that show ?thesis
      by (auto simp: with_vault_def credential_session_def split: prod.split_asm)
  qed
  obtain item0 item saved where it: "credential_unmarshal (ar_body r2) = Some item0" "check_item item0 = Inr item"
    "put_for_user (se_vault env) v (si_username info) item (in_now i2) (in_rnd_id i2) (in_rnd_nonce i2) = (Inr saved, v')"
    "ps = saved_view saved"
    by (rule put_ok_item [OF v(2)]) (use d2(2) assms(14) in auto)
  have st: "saved = stamp (se_vault env) v item (in_now i2) (in_rnd_id i2)"
    using it(3) unfolding put_for_user_def by (auto elim: store_credential_Inr_cases)
  have keys: "cd_private_key saved = cd_private_key item0" "cd_passphrase saved = cd_passphrase item0"
    using check_item_keeps [OF it(2)] by (auto simp: st stamp_def Let_def split: sum.split)
  obtain info3 where "who_asks env i3 s2 r3 = Some info3" using who [OF assms(18)] assms(17) v(3) by auto
  from request_session_found [OF this] v(3) d3(1) assms(16)
  have "d3 = credential_get env (ps_id ps) v'"
    by (auto simp: dispatch_def with_vault_def credential_session_def)
  moreover have "ps_id ps = cd_id saved" by (simp add: it(4) saved_view_def)
  moreover have "vault_get (se_vault env) v' (cd_id saved) = Inr saved" if "cred_storable saved"
    using put_get [OF assms(1) that it(3)] by blast
  ultimately have "cred_storable saved \<longrightarrow> rs_status resp3 = 200 \<and> rs_body resp3 = CredentialBody saved"
    using d3 by (simp add: credential_get_def write_json_def)
  moreover have "api_valid saved" using stamped_valid [OF it(2)] by (simp add: st)
  ultimately show ?thesis using it keys by blast
qed


section \<open>Witnesses\<close>

definition sample_server_env :: "(string, string, memory_db) server_env" where
  "sample_server_env =
    \<lparr>se_ws = sample_ws, se_vault = vault_sample_env, se_theme_json = sample_object, se_theme_marshal = (\<lambda>_. Some []), se_theme_keys = (\<lambda>_. []),
     se_embedded = [], se_stat = (\<lambda>_. DirMissing), se_static = (\<lambda>_. None)\<rparr>"

definition sample_inputs :: inputs where
  "sample_inputs =
    \<lparr>in_now = 1000, in_now2 = 1000, in_rnd = Some sample_token, in_rnd_id = sample_nonce, in_rnd_nonce = sample_nonce,
     in_rnd_record = (\<lambda>_. None), in_upgrade_ok = True, in_upgrade_status = 400, in_rnd1 = [], in_rnd2 = [], in_sent = True,
     in_write_ok = (\<lambda>_. True), in_ended = ShellExit, in_others = (\<lambda>h. h), in_frames = [], in_dial = (\<lambda>_. True), in_relayed = []\<rparr>"

definition sample_server :: "memory_db server" where
  "sample_server = new_server (sample_handler\<lparr>hd_store := new_store 0\<rparr>) (Some empty_vault)"

definition sample_api :: "string option \<Rightarrow> string \<Rightarrow> string \<Rightarrow> bytes \<Rightarrow> api_request" where
  "sample_api ck m path b =
    \<lparr>hr_cookie = ck, hr_origin = [], hr_host = ''h'', hr_forwarded = [], hr_remote = ''10.0.0.1:5000'',
     ar_method = m, ar_path = path, ar_content_type = ''application/json'', ar_body = b, ar_body_fails = False\<rparr>"

definition sample_form :: credential where
  "sample_form = sample_cred\<lparr>cd_name := '' web '', cd_created_at := utc 0, cd_updated_at := utc 0\<rparr>"

definition sample_login_body :: bytes where
  "sample_login_body = object_text [(''password'', json_quote ''pw''), (''username'', json_quote ''admin'')]"

definition server_login :: "response \<times> memory_db server" where
  "server_login = serve sample_server_env sample_inputs sample_server (sample_api None ''POST'' ''/api/login'' sample_login_body)"

definition server_cookie :: cookie where
  "server_cookie = hd (rs_cookies (fst server_login))"

definition server_save :: "response \<times> memory_db server" where
  "server_save = serve sample_server_env sample_inputs (snd server_login)
     (sample_api (Some (ck_value server_cookie)) ''POST'' ''/api/credentials''
       (the (credential_marshal sample_form)))"

definition server_read :: "response \<times> memory_db server" where
  "server_read = serve sample_server_env sample_inputs (snd server_save)
     (sample_api (Some (ck_value server_cookie)) ''GET'' (''/api/credentials/'' @ cd_id sample_stored) [])"

lemma server_login_ok: "rs_cookies (fst server_login) = [server_cookie] \<and> 1000 \<le> ck_expires server_cookie"
  by code_simp

lemma server_save_ok: "rs_body (fst server_save) = SummaryBody (saved_view sample_stored)"
  by code_simp

lemma sample_login_read: "decode_login (take 4096 sample_login_body) = Some (''admin'', ''pw'', False)"
  by code_simp

lemma server_routes:
  "route ''POST'' ''/api/login'' = Login" "route ''POST'' ''/api/credentials'' = CredentialPut"
  "route ''GET'' (''/api/credentials/'' @ cd_id sample_stored) = CredentialGet (cd_id sample_stored)"
  by code_simp+

theorem login_save_read_witness:
  "\<exists>saved. api_valid saved \<and> saved_view saved = saved_view sample_stored \<and> cd_private_key saved = ''KEY'' \<and>
     (cred_storable saved \<longrightarrow> rs_body (fst server_read) = CredentialBody saved)"
proof -
  have e: "env_ok (se_vault sample_server_env)" "crypto_laws (we_crypto (se_ws sample_server_env))"
    using vault_sample_env_ok sample_crypto_laws by (simp_all add: sample_server_env_def sample_ws_def)
  note lg = server_login_ok [unfolded server_login_def] note sv = server_save_ok [unfolded server_save_def]
  have key: "cd_private_key (the (credential_unmarshal
      (the (credential_marshal sample_form)))) = ''KEY''" by code_simp
  have l: "length sample_token = 32" by (simp add: sample_token_def)
  have t: "in_now sample_inputs \<le> ck_expires server_cookie" using server_login_ok by (simp add: sample_inputs_def)
  have "\<exists>item0 saved. credential_unmarshal (ar_body (sample_api (Some (ck_value server_cookie)) ''POST'' ''/api/credentials''
       (the (credential_marshal sample_form)))) = Some item0 \<and>
    api_valid saved \<and> saved_view sample_stored = saved_view saved \<and>
    cd_private_key saved = cd_private_key item0 \<and> cd_passphrase saved = cd_passphrase item0 \<and>
    (cred_storable saved \<longrightarrow> rs_status (fst server_read) = 200 \<and> rs_body (fst server_read) = CredentialBody saved)"
  proof (rule login_save_read [OF e, where remember = False and user = "''admin''" and password = "''pw''"])
    show "serve sample_server_env sample_inputs sample_server (sample_api None ''POST'' ''/api/login'' sample_login_body) =
        (fst server_login, snd server_login)" by (simp add: server_login_def)
    show "serve sample_server_env sample_inputs (snd server_login) (sample_api (Some (ck_value server_cookie)) ''POST'' ''/api/credentials''
       (the (credential_marshal sample_form))) = (fst server_save, snd server_save)"
      by (simp add: server_save_def)
    show "serve sample_server_env sample_inputs (snd server_save)
     (sample_api (Some (ck_value server_cookie)) ''GET'' (''/api/credentials/'' @ cd_id sample_stored) []) = (fst server_read, snd server_read)"
      by (simp add: server_read_def)
    show "rs_body (fst server_save) = SummaryBody (saved_view sample_stored)" by (rule server_save_ok)
  qed (use server_login_ok server_routes l t in \<open>auto simp: sample_api_def sample_inputs_def sample_server_env_def saved_view_def sample_login_read cookie_live_def\<close>)
  with key show ?thesis by (auto simp: sample_api_def sample_server_env_def)
qed

theorem anonymous_request_inert_witness:
  "rs_status (fst (serve sample_server_env sample_inputs sample_server (sample_api None ''DELETE'' ''/api/credentials/x'' []))) = 401"
proof -
  let ?r = "sample_api None ''DELETE'' ''/api/credentials/x'' []"
  obtain resp s' where s: "serve sample_server_env sample_inputs sample_server ?r = (resp, s')" by fastforce
  have "route (ar_method ?r) (ar_path ?r) = CredentialDelete ''x''" by code_simp
  moreover have "fst (session_from_request (we_crypto (se_ws sample_server_env))
      (hd_auth (sr_handler sample_server)) (hd_store (sr_handler sample_server)) (hr_cookie ?r) (in_now sample_inputs)) = None"
    by (simp add: session_from_request_def sample_api_def)
  ultimately show ?thesis using anonymous_request_inert [OF s] s by auto
qed

theorem credential_provenance_witness:
  "\<exists>saved. saved_view saved = saved_view sample_stored \<and> api_valid saved \<and> (cred_storable saved \<longrightarrow> sample_stored = saved)"
proof -
  let ?b = "the (credential_marshal sample_form)"
  let ?r = "sample_api (Some (ck_value server_cookie)) ''POST'' ''/api/credentials'' ?b"
  have e: "env_ok (se_vault sample_server_env)" using vault_sample_env_ok by (simp add: sample_server_env_def)
  have s: "serve sample_server_env sample_inputs (snd server_login) ?r = (fst server_save, snd server_save)" by (simp add: server_save_def)
  have "\<not> Option.is_none (sr_vault (snd server_login))" "\<not> Option.is_none (sr_vault (snd server_save))" by code_simp+
  then have v: "sr_vault (snd server_login) = Some (the (sr_vault (snd server_login)))"
    "sr_vault (snd server_save) = Some (the (sr_vault (snd server_save)))" by (auto simp: Option.is_none_def)
  have l: "vault_look (se_vault sample_server_env) (the (sr_vault (snd server_save))) (cd_id sample_stored) = Some sample_stored"
    by code_simp
  have n: "vault_look (se_vault sample_server_env) (the (sr_vault (snd server_login))) (cd_id sample_stored) \<noteq> Some sample_stored"
    by code_simp
  have "route (ar_method ?r) (ar_path ?r) = CredentialPut" using server_routes by (simp add: sample_api_def)
  with credential_provenance [OF e s v l] n server_save_ok show ?thesis
    by (auto simp: sample_server_env_def)
qed

end
