(* ===== verification/Host_Key.thy ===== *)
theory Host_Key
  imports Ws_Handler
begin

text \<open>
  \<^verbatim>\<open>internal/security/hostkey.go\<close>: the check of a server's host key. The known hosts database is a
  parameter: the contents of a file give a check or an error, and a check gives the error of
  \<^verbatim>\<open>knownhosts\<close> as the chain of its \<^verbatim>\<open>Unwrap\<close> calls. The file system is a map that is returned updated.
\<close>

section \<open>Errors\<close>

text \<open>A layer of an error: a \<^verbatim>\<open>KeyError\<close> with the number of keys it wants, or another error that wraps the rest.\<close>

datatype known_layer = KnownKeyError nat | OtherLayer

datatype host_key_setup_error =
    KnownHostsRequired
  | CreateKnownHosts
  | StatKnownHosts
  | LoadKnownHosts
  | UnsupportedPolicy string

type_synonym 'key host_check = "string \<Rightarrow> string \<Rightarrow> 'key \<Rightarrow> known_layer list option"
type_synonym 'key host_callback = "string \<Rightarrow> string \<Rightarrow> 'key \<Rightarrow> ssh_error option"

fun as_key_error :: "known_layer list \<Rightarrow> nat option" where
  "as_key_error [] = None"
| "as_key_error (KnownKeyError want # ls) = Some want"
| "as_key_error (OtherLayer # ls) = as_key_error ls"

section \<open>The callback\<close>

definition wrap_known_hosts :: "'key host_check \<Rightarrow> 'key host_callback" where
  "wrap_known_hosts check hostname remote key =
    (case check hostname remote key of
       None \<Rightarrow> None
     | Some err \<Rightarrow>
         (case as_key_error err of
            Some want \<Rightarrow>
              if want = 0 then Some (HostKeyError ''HOST_KEY_UNTRUSTED'' ''host key not found in known_hosts'')
              else Some (HostKeyError ''HOST_KEY_CHANGED'' ''host key verification failed: key has changed'')
          | None \<Rightarrow> Some (HostKeyError ''HOST_KEY_UNTRUSTED'' ''host key verification failed'')))"

text \<open>\<open>hk_stat_fails\<close> is an error other than that the file does not exist.\<close>

record 'key host_key_env =
  hk_stat_fails :: "string \<Rightarrow> bool"
  hk_creates :: "string \<Rightarrow> bool"
  hk_load :: "bytes \<Rightarrow> 'key host_check option"

definition known_hosts_header :: bytes where
  "known_hosts_header = ''# go-webssh known_hosts'' @ [CHR 0x0A]"

definition load_known_hosts ::
  "'key host_key_env \<Rightarrow> string \<Rightarrow> (string \<rightharpoonup> bytes) \<Rightarrow> (host_key_setup_error + 'key host_callback) \<times> (string \<rightharpoonup> bytes)" where
  "load_known_hosts env path files =
    (case Option.bind (files path) (hk_load env) of
       None \<Rightarrow> (Inl LoadKnownHosts, files)
     | Some check \<Rightarrow> (Inr (wrap_known_hosts check), files))"

definition new_host_key_callback ::
  "'key host_key_env \<Rightarrow> string \<Rightarrow> string \<Rightarrow> (string \<rightharpoonup> bytes) \<Rightarrow> (host_key_setup_error + 'key host_callback) \<times> (string \<rightharpoonup> bytes)" where
  "new_host_key_callback env policy path files =
    (let p = to_lower (trim_space policy) in
     if p = ''known-hosts'' then
       (if path = [] then (Inl KnownHostsRequired, files)
        else if hk_stat_fails env path then (Inl StatKnownHosts, files)
        else if files path = None then
          (if hk_creates env path then load_known_hosts env path (files(path \<mapsto> known_hosts_header))
           else (Inl CreateKnownHosts, files))
        else load_known_hosts env path files)
     else if p = ''insecure-ignore'' then (Inr (\<lambda>_ _ _. None), files)
     else (Inl (UnsupportedPolicy policy), files))"

section \<open>Dialling with the callback\<close>

text \<open>
  What the SSH library makes of an error of the callback: documented is that the handshake fails with an error
  that wraps it. \<open>wrapped\<close> holds the type names of the layers outside it; \<open>offered\<close> is the address and the key of
  the server that answers at a dialled address, if one does.
\<close>

definition handshake_error :: "string \<Rightarrow> string list \<Rightarrow> ssh_error \<Rightarrow> dial_error" where
  "handshake_error text wrapped err =
    DialError text (map (\<lambda>t. (t, OtherError text)) wrapped @ [(''*security.HostKeyError'', err)])"

definition reports_host_key :: "('g, 'c) ssh_lib \<Rightarrow> 'key host_callback \<Rightarrow> (string \<Rightarrow> (string \<times> 'key) option) \<Rightarrow> bool" where
  "reports_host_key lib cb offered \<longleftrightarrow>
    (\<forall>addr user signer timeout remote key err. offered addr = Some (remote, key) \<and> cb addr remote key = Some err \<longrightarrow>
       (\<exists>text wrapped. list_all (\<lambda>t. \<not> contains t ''HostKeyError'') wrapped \<and>
          sl_dial lib addr user signer timeout = Inl (handshake_error text wrapped err)))"

section \<open>Lemmas\<close>

lemma wrap_known_hosts_None [simp]: "wrap_known_hosts check h r k = None \<longleftrightarrow> check h r k = None"
  by (auto simp: wrap_known_hosts_def split: option.split)

lemma wrap_known_hosts_Some:
  "wrap_known_hosts check h r k = Some err \<Longrightarrow>
     \<exists>code msg. err = HostKeyError code msg \<and> (code = ''HOST_KEY_CHANGED'' \<longleftrightarrow>
       (\<exists>ls want. check h r k = Some ls \<and> as_key_error ls = Some want \<and> want \<noteq> 0)) \<and>
       code \<in> {''HOST_KEY_CHANGED'', ''HOST_KEY_UNTRUSTED''}"
  by (auto simp: wrap_known_hosts_def split: option.split_asm if_split_asm)

lemma load_known_hosts_Inr:
  "load_known_hosts env path files = (Inr cb, files') \<longleftrightarrow>
     files' = files \<and> (\<exists>data check. files path = Some data \<and> hk_load env data = Some check \<and> cb = wrap_known_hosts check)"
  by (auto simp: load_known_hosts_def split: option.split Option.bind_splits)

lemma new_host_key_callback_Inr:
  assumes "new_host_key_callback env policy path files = (Inr cb, files')"
  shows "(to_lower (trim_space policy) = ''insecure-ignore'' \<and> cb = (\<lambda>_ _ _. None) \<and> files' = files) \<or>
    (to_lower (trim_space policy) = ''known-hosts'' \<and> path \<noteq> [] \<and>
     files' = (case files path of None \<Rightarrow> files(path \<mapsto> known_hosts_header) | Some _ \<Rightarrow> files) \<and>
     (\<exists>data check. files' path = Some data \<and> hk_load env data = Some check \<and> cb = wrap_known_hosts check))"
  using assms by (auto simp: new_host_key_callback_def Let_def load_known_hosts_Inr split: if_split_asm)

lemma unwrap_handshake:
  assumes "list_all (\<lambda>t. \<not> contains t ''HostKeyError'') wrapped"
  shows "unwrap_host_key (handshake_error text wrapped err) = Some err"
proof -
  have "contains ''*security.HostKeyError'' ''HostKeyError''" by code_simp
  then have "find (\<lambda>(t, _). contains t ''HostKeyError'')
      (map (\<lambda>t. (t, OtherError text)) wrapped @ [(''*security.HostKeyError'', err)]) = Some (''*security.HostKeyError'', err)"
    using assms by (induction wrapped) auto
  then show ?thesis by (simp add: unwrap_host_key_def handshake_error_def)
qed

section \<open>Properties\<close>

text \<open>
  C24: a host key callback under \<^verbatim>\<open>known-hosts\<close> accepts exactly the keys the database accepts, with a file created
  first when there is none, and every refusal tells a changed key from an unknown one; nothing is
  accepted without a check unless the policy says so, and no other file is touched.
\<close>

theorem host_key_callback_checks:
  assumes "new_host_key_callback env policy path files = (Inr cb, files')"
  shows "files' = (if to_lower (trim_space policy) = ''known-hosts'' \<and> files path = None then files(path \<mapsto> known_hosts_header) else files) \<and>
    (to_lower (trim_space policy) \<noteq> ''insecure-ignore'' \<longrightarrow>
      (\<exists>data check. files' path = Some data \<and> hk_load env data = Some check \<and>
        (\<forall>host remote key. (cb host remote key = None \<longleftrightarrow> check host remote key = None) \<and>
          (\<forall>err. cb host remote key = Some err \<longrightarrow> (\<exists>msg.
             err = HostKeyError (if \<exists>ls want. check host remote key = Some ls \<and> as_key_error ls = Some want \<and> want \<noteq> 0
               then ''HOST_KEY_CHANGED'' else ''HOST_KEY_UNTRUSTED'') msg)))))"
proof -
  have refuse: "\<exists>msg. err = HostKeyError (if \<exists>ls want. check host remote key = Some ls \<and> as_key_error ls = Some want \<and> want \<noteq> 0
      then ''HOST_KEY_CHANGED'' else ''HOST_KEY_UNTRUSTED'') msg"
    if "wrap_known_hosts check host remote key = Some err" for check host remote key err
    using wrap_known_hosts_Some [OF that] by auto
  from new_host_key_callback_Inr [OF assms] show ?thesis
  proof (elim disjE conjE exE)
    assume "to_lower (trim_space policy) = ''insecure-ignore''" "files' = files"
    then show ?thesis by simp
  next
    fix data check
    assume p: "to_lower (trim_space policy) = ''known-hosts''"
      and f: "files' = (case files path of None \<Rightarrow> files(path \<mapsto> known_hosts_header) | Some _ \<Rightarrow> files)"
      and d: "files' path = Some data" "hk_load env data = Some check" and cb: "cb = wrap_known_hosts check"
    have "files' = (if to_lower (trim_space policy) = ''known-hosts'' \<and> files path = None then files(path \<mapsto> known_hosts_header) else files)"
      using p f by (simp split: option.split)
    with d refuse [of check] show ?thesis unfolding cb by (intro conjI impI exI [of _ data] exI [of _ check]) auto
  qed
qed

text \<open>
  A key the callback refuses reaches the browser: no connection is opened, and the error
  of the connection carries the code of the refusal.
\<close>

theorem refused_key_reported:
  assumes "reports_host_key lib cb offered" "offered addr = Some (remote, key)"
    and "cb addr remote key = Some (HostKeyError code msg)"
    and "addr = join_host_port (rq_host req) (itoa (rq_port req))" "connect lib req timeout = (r, acts)"
    and "trim_space (rq_private_key req) \<noteq> []" "length (rq_private_key req) \<le> 256 * 1024"
    and "parse_signer lib (rq_private_key req) (rq_passphrase req) = Inr signer"
  shows "OpenClient \<notin> set acts \<and> (\<exists>err. r = Inl err \<and> classify_ssh_error err = (code, msg))"
proof -
  define t where "t = (if timeout \<le> 0 then 15 * second else timeout)"
  from assms(1-3) obtain m wrapped where w: "list_all (\<lambda>t. \<not> contains t ''HostKeyError'') wrapped"
    "sl_dial lib addr (rq_username req) signer t = Inl (handshake_error m wrapped (HostKeyError code msg))"
    unfolding reports_host_key_def by blast
  have "connect lib req timeout = (Inl (HostKeyError code msg), [Dial addr (rq_username req) t])"
    using assms(6,7) w(2) by (simp add: connect_def Let_def assms(4,8) t_def [symmetric] unwrap_handshake [OF w(1)])
  with assms(5) show ?thesis by auto
qed

section \<open>Witnesses\<close>

definition sample_check :: "string host_check" where
  "sample_check h r k = (if k = ''good'' then None else Some [OtherLayer, KnownKeyError 1])"

definition sample_keys :: "string host_key_env" where
  "sample_keys = \<lparr>hk_stat_fails = (\<lambda>_. False), hk_creates = (\<lambda>_. True), hk_load = (\<lambda>data. Some sample_check)\<rparr>"

theorem host_key_callback_checks_witness:
  "\<exists>cb. new_host_key_callback sample_keys '' Known-Hosts'' ''kh'' Map.empty = (Inr cb, [''kh'' \<mapsto> known_hosts_header]) \<and>
     cb ''h:22'' ''r'' ''good'' = None"
proof -
  have p: "to_lower (trim_space '' Known-Hosts'') = ''known-hosts''" by code_simp
  have c: "new_host_key_callback sample_keys '' Known-Hosts'' ''kh'' Map.empty = (Inr (wrap_known_hosts sample_check), [''kh'' \<mapsto> known_hosts_header])"
    by (simp add: new_host_key_callback_def p sample_keys_def load_known_hosts_def)
  have n: "to_lower (trim_space '' Known-Hosts'') \<noteq> ''insecure-ignore''" by (simp add: p)
  from host_key_callback_checks [OF c] n obtain check where "hk_load sample_keys known_hosts_header = Some check"
    "wrap_known_hosts sample_check ''h:22'' ''r'' ''good'' = None \<longleftrightarrow> check ''h:22'' ''r'' ''good'' = None"
    by auto
  with c show ?thesis by (auto simp: sample_keys_def sample_check_def)
qed

definition refusing_lib :: "(string, string) ssh_lib" where
  "refusing_lib = \<lparr>sl_parse_key = Inr, sl_parse_key_with = (\<lambda>k _. Inr k),
     sl_dial = (\<lambda>_ _ _ _. Inl (handshake_error ''handshake'' [''*fmt.wrapError'']
       (HostKeyError ''HOST_KEY_CHANGED'' ''host key verification failed: key has changed''))),
     sl_probe = (\<lambda>_. False), sl_run = (\<lambda>_ _. False), sl_session = (\<lambda>_. True), sl_stdin = (\<lambda>_. True), sl_stdout = (\<lambda>_. True), sl_stderr = (\<lambda>_. True),
     sl_pty = (\<lambda>_ _ _ _. True), sl_shell = (\<lambda>_. True), sl_write = (\<lambda>_ _. True)\<rparr>"

definition host_key_request :: connect_request where
  "host_key_request = \<lparr>rq_host = ''h'', rq_port = 22, rq_username = ''u'', rq_private_key = ''k'', rq_passphrase = [], rq_term = [],
     rq_cols = 80, rq_rows = 24, rq_use_herdr = False, rq_herdr_session = []\<rparr>"

theorem refused_key_reported_witness:
  "\<exists>err. fst (connect refusing_lib host_key_request 0) = Inl err \<and> fst (classify_ssh_error err) = ''HOST_KEY_CHANGED''"
proof -
  let ?cb = "wrap_known_hosts sample_check"
  have cb: "?cb a ''r'' ''bad'' = Some (HostKeyError ''HOST_KEY_CHANGED'' ''host key verification failed: key has changed'')" for a
    by (simp add: wrap_known_hosts_def sample_check_def)
  have w: "list_all (\<lambda>t. \<not> contains t ''HostKeyError'') [''*fmt.wrapError'']" by code_simp
  have rep: "reports_host_key refusing_lib ?cb (\<lambda>_. Some (''r'', ''bad''))"
    unfolding reports_host_key_def
  proof (intro allI impI exI [of _ "''handshake''"] exI [of _ "[''*fmt.wrapError'']"] conjI)
    show "list_all (\<lambda>t. \<not> contains t ''HostKeyError'') [''*fmt.wrapError'']" by (rule w)
  qed (auto simp: cb refusing_lib_def)
  obtain r acts where c: "connect refusing_lib host_key_request 0 = (r, acts)" by fastforce
  have "trim_space ''k'' \<noteq> []" by code_simp
  then have k: "trim_space (rq_private_key host_key_request) \<noteq> []" by (simp add: host_key_request_def)
  have l: "length (rq_private_key host_key_request) \<le> 256 * 1024"
    "parse_signer refusing_lib (rq_private_key host_key_request) (rq_passphrase host_key_request) = Inr ''k''"
    by (simp_all add: host_key_request_def parse_signer_def refusing_lib_def)
  let ?a = "join_host_port (rq_host host_key_request) (itoa (rq_port host_key_request))"
  note reported = refused_key_reported [where addr = ?a and remote = "''r''" and key = "''bad''" and lib = refusing_lib and
      cb = ?cb and offered = "\<lambda>_. Some (''r'', ''bad'')" and code = "''HOST_KEY_CHANGED''" and
      msg = "''host key verification failed: key has changed''" and req = host_key_request]
  from reported [OF rep refl cb refl c k l] obtain err where "r = Inl err" "fst (classify_ssh_error err) = ''HOST_KEY_CHANGED''" by auto
  then show ?thesis unfolding c fst_conv by blast
qed

end
