(* ===== verification/Startup.thy ===== *)
theory Startup
  imports Http_Server Vault_Open Host_Key
begin

text \<open>
  \<^verbatim>\<open>cmd/webssh/main.go\<close>: how the server is put together from the configuration. The steps come in the
  order of \<^verbatim>\<open>main\<close>, and the first that fails ends the program. What follows, from the command line to the exit, is in
  \<^verbatim>\<open>Server_Main\<close>; what is logged is not modelled.
\<close>

section \<open>The log level\<close>

text \<open>\<^verbatim>\<open>internal/logging/logging.go\<close>.\<close>

datatype log_level = LevelDebug | LevelInfo | LevelWarn | LevelError

text \<open>The levels are ordered as \<^verbatim>\<open>slog\<close> orders them: a record is written from the configured level on.\<close>

fun level_rank :: "log_level \<Rightarrow> nat" where
  "level_rank LevelDebug = 0"
| "level_rank LevelInfo = 1"
| "level_rank LevelWarn = 2"
| "level_rank LevelError = 3"

lemma level_rank_inj: "level_rank a = level_rank b \<Longrightarrow> a = b"
  by (cases a; cases b) simp_all

instantiation log_level :: linorder
begin

definition less_eq_log_level :: "log_level \<Rightarrow> log_level \<Rightarrow> bool" where
  "a \<le> b \<longleftrightarrow> level_rank a \<le> level_rank b"

definition less_log_level :: "log_level \<Rightarrow> log_level \<Rightarrow> bool" where
  "a < b \<longleftrightarrow> level_rank a < level_rank b"

instance
  by standard (auto simp: less_eq_log_level_def less_log_level_def intro: level_rank_inj)

end

definition new_logger :: "string \<Rightarrow> log_level" where
  "new_logger level =
    (let l = to_lower (trim_space level) in
     if l = ''debug'' then LevelDebug
     else if l = ''warn'' \<or> l = ''warning'' then LevelWarn
     else if l = ''error'' then LevelError
     else LevelInfo)"

section \<open>The steps of main\<close>

datatype startup_error =
    StartConfig config_error
  | StartInvalid config_error
  | StartVault vault_error
  | StartMigration vault_error
  | StartPolicy entry_error
  | StartHostKeys host_key_setup_error
  | StartThemes theme_error

record ('g, 'c, 'db, 'key) startup_env =
  st_read :: "string \<Rightarrow> bytes option"
  st_yaml :: "bytes \<Rightarrow> raw_config option"
  st_getenv :: "string \<Rightarrow> string"
  st_server :: "('g, 'c, 'db) server_env"
  st_key :: key_env
  st_db :: 'db
  st_files :: files
  st_rnd :: "bytes \<Rightarrow> bytes option"
  st_host_keys :: "'key host_key_env"
  st_known :: "string \<rightharpoonup> bytes"

record ('db, 'key) running =
  rg_server :: "'db server"
  rg_host_keys :: "'key host_callback"
  rg_themes :: "string list"
  rg_log :: log_level

definition map_error :: "('e \<Rightarrow> 'f) \<Rightarrow> 'e + 'a \<Rightarrow> 'f + 'a" where
  "map_error f r = (case r of Inl e \<Rightarrow> Inl (f e) | Inr x \<Rightarrow> Inr x)"

definition load_config :: "('g, 'c, 'db, 'key) startup_env \<Rightarrow> string \<Rightarrow> string \<Rightarrow> startup_error + config" where
  "load_config e path listen =
    bind_result (map_error StartConfig (load (st_read e) (st_yaml e) path)) (\<lambda>cfg.
      map_error StartInvalid (validate (apply_flags (apply_env cfg (st_getenv e)) listen)))"

text \<open>The vault, with the records of a former password migrated.\<close>

definition start_vault :: "('g, 'c, 'db, 'key) startup_env \<Rightarrow> config \<Rightarrow> startup_error + 'db vault option" where
  "start_vault e cfg =
    (let k = c_credentials cfg in
     if \<not> cr_enabled k then Inr None
     else (case vault_open (se_vault (st_server e)) (st_key e) (cr_db_file k)
              [\<lparr>oo_key_file = cr_key_file k, oo_key_hex = cr_key_hex k\<rparr>] (st_db e) (st_files e) of
       (Inl err, _) \<Rightarrow> Inl (StartVault err)
     | (Inr v, _) \<Rightarrow>
         if uses_plaintext_password cfg then
           (case migrate_legacy_from_password (se_vault (st_server e)) v (ac_password (c_auth cfg)) (st_rnd e) of
              ((_, _, Some err), _) \<Rightarrow> Inl (StartMigration err)
            | ((_, _, None), v') \<Rightarrow> Inr (Some v'))
         else Inr (Some v)))"

definition start_authenticator :: "config \<Rightarrow> authenticator" where
  "start_authenticator cfg =
    \<lparr>au_username = ac_username (c_auth cfg), au_password = ac_password (c_auth cfg),
     au_password_hash = ac_password_hash (c_auth cfg), au_secure_cookie = sv_secure_cookie (c_server cfg),
     au_ttl = ac_session_ttl (c_auth cfg), au_secret = sv_session_secret (c_server cfg)\<rparr>"

definition start_policy :: "config \<Rightarrow> startup_error + network_policy" where
  "start_policy cfg =
    (let n = c_network cfg in
     map_error StartPolicy (new_network_policy (nc_allow_private n) (nc_deny n) (nc_allow n)))"

definition new_handler :: "config \<Rightarrow> network_policy \<Rightarrow> handler" where
  "new_handler cfg policy =
    \<lparr>hd_cfg = cfg, hd_auth = start_authenticator cfg, hd_store = new_store (ac_session_ttl (c_auth cfg)),
     hd_policy = policy, hd_sessions = 0, hd_tunnels = 0\<rparr>"

definition start_server ::
  "('g, 'c, 'db, 'key) startup_env \<Rightarrow> string \<Rightarrow> string \<Rightarrow> startup_error + ('db, 'key) running" where
  "start_server e path listen =
    bind_result (load_config e path listen) (\<lambda>cfg.
    bind_result (start_vault e cfg) (\<lambda>v.
    bind_result (start_policy cfg) (\<lambda>policy.
    bind_result (map_error StartHostKeys (fst (new_host_key_callback (st_host_keys e)
      (sh_host_key_policy (c_ssh cfg)) (sh_known_hosts_file (c_ssh cfg)) (st_known e)))) (\<lambda>cb.
    bind_result (map_error StartThemes (theme_names (se_theme_json (st_server e)) (se_embedded (st_server e)) (se_stat (st_server e))
      (c_themes_dir cfg) (se_theme_keys (st_server e)))) (\<lambda>names.
      Inr \<lparr>rg_server = new_server (new_handler cfg policy) v, rg_host_keys = cb, rg_themes = names, rg_log = new_logger (c_log_level cfg)\<rparr>)))))"

section \<open>Lemmas\<close>

lemma map_error_Inr [result_iff]: "map_error f r = Inr x \<longleftrightarrow> r = Inr x"
  by (cases r) (simp_all add: map_error_def)

lemma load_config_Inr:
  assumes "load_config e path listen = Inr cfg"
  shows "config_valid cfg" "listen \<noteq> [] \<Longrightarrow> sv_listen (c_server cfg) = listen"
proof -
  from assms obtain c where "validate (apply_flags c listen) = Inr cfg"
    by (auto simp: load_config_def bind_result_Inr_iff map_error_Inr)
  then have v: "acceptable (apply_flags c listen)" "cfg = normalised (apply_flags c listen)" by (simp_all add: validate_Inr_iff)
  then show "config_valid cfg" using normalised_valid by blast
  show "sv_listen (c_server cfg) = listen" if "listen \<noteq> []"
    using that by (simp add: v(2) normalised_def apply_flags_def override_def)
qed

lemma start_vault_Inr:
  "start_vault e cfg = Inr v \<Longrightarrow> v \<noteq> None \<longleftrightarrow> cr_enabled (c_credentials cfg)"
  by (auto simp: start_vault_def Let_def split: if_split_asm prod.split_asm sum.split_asm option.split_asm)

lemma start_server_Inr:
  assumes "start_server e path listen = Inr r"
  obtains cfg v policy where "load_config e path listen = Inr cfg" "start_vault e cfg = Inr v" "start_policy cfg = Inr policy"
    "fst (new_host_key_callback (st_host_keys e) (sh_host_key_policy (c_ssh cfg)) (sh_known_hosts_file (c_ssh cfg)) (st_known e)) =
       Inr (rg_host_keys r)"
    "rg_server r = new_server (new_handler cfg policy) v"
  using assms unfolding start_server_def bind_result_Inr_iff map_error_Inr by auto

lemma policy_texts:
  "to_lower (trim_space ''known-hosts'') = ''known-hosts''" "to_lower (trim_space ''insecure-ignore'') = ''insecure-ignore''"
  by code_simp+

lemma open_persistent_user:
  assumes "open_persistent_session c a v now = Some info"
  shows "si_username info = au_username a \<and> now div second < si_expires info div second"
  using assms by (auto simp: open_persistent_session_def Let_def split: if_split_asm option.split_asm)

section \<open>Properties\<close>

text \<open>
  A server that starts runs on a validated configuration, its flag last, with the credentials, the session
  secret, the network policy and the host key policy of that configuration, a vault if and only if it is enabled,
  and no session.
\<close>

theorem started_server_configured:
  assumes "start_server e path listen = Inr r"
  shows "let h = sr_handler (rg_server r); cfg = hd_cfg h; n = c_network cfg in
    config_valid cfg \<and> (listen \<noteq> [] \<longrightarrow> sv_listen (c_server cfg) = listen) \<and>
    hd_auth h = start_authenticator cfg \<and> 16 \<le> length (au_secret (hd_auth h)) \<and>
    (au_password (hd_auth h) \<noteq> [] \<or> au_password_hash (hd_auth h) \<noteq> []) \<and>
    as_sessions (hd_store h) = Map.empty \<and> hd_sessions h = 0 \<and> hd_tunnels h = 0 \<and>
    new_network_policy (nc_allow_private n) (nc_deny n) (nc_allow n) = Inr (hd_policy h) \<and>
    (sr_vault (rg_server r) \<noteq> None \<longleftrightarrow> cr_enabled (c_credentials cfg)) \<and>
    (sh_host_key_policy (c_ssh cfg) = ''insecure-ignore'' \<or>
     (\<exists>check. rg_host_keys r = wrap_known_hosts check))"
proof (rule start_server_Inr [OF assms])
  fix cfg v policy
  assume c: "load_config e path listen = Inr cfg" and v: "start_vault e cfg = Inr v" and p: "start_policy cfg = Inr policy"
    and k: "fst (new_host_key_callback (st_host_keys e) (sh_host_key_policy (c_ssh cfg)) (sh_known_hosts_file (c_ssh cfg)) (st_known e)) =
       Inr (rg_host_keys r)"
    and s: "rg_server r = new_server (new_handler cfg policy) v"
  note valid = load_config_Inr [OF c]
  have a: "16 \<le> length (sv_session_secret (c_server cfg))" "ac_password (c_auth cfg) \<noteq> [] \<or> ac_password_hash (c_auth cfg) \<noteq> []"
    and pol: "sh_host_key_policy (c_ssh cfg) \<in> {''known-hosts'', ''insecure-ignore''}"
    using valid(1) by (auto simp: config_valid_def acceptable_def)
  obtain files' where "new_host_key_callback (st_host_keys e) (sh_host_key_policy (c_ssh cfg)) (sh_known_hosts_file (c_ssh cfg)) (st_known e) =
      (Inr (rg_host_keys r), files')" using k by (metis prod.collapse)
  from new_host_key_callback_Inr [OF this] pol
  have keys: "sh_host_key_policy (c_ssh cfg) = ''insecure-ignore'' \<or> (\<exists>check. rg_host_keys r = wrap_known_hosts check)"
    using policy_texts by auto
  have net: "new_network_policy (nc_allow_private (c_network cfg)) (nc_deny (c_network cfg)) (nc_allow (c_network cfg)) = Inr policy"
    using p by (simp add: start_policy_def Let_def map_error_Inr)
  show ?thesis
    using valid a keys net start_vault_Inr [OF v]
    by (simp add: s new_server_def new_handler_def start_authenticator_def new_store_def Let_def)
qed

text \<open>
  Starting the server ends every session of before but the remembered ones: whoever is
  authenticated by the first requests of a fresh server holds a cookie sealed under the key derived from the session secret,
  for the configured user and not expired.
\<close>

theorem restart_ends_sessions:
  assumes "start_server e path listen = Inr r" "who_asks (st_server e) i (rg_server r) req = Some info"
  shows "\<exists>v. hr_cookie req = Some v \<and> has_prefix v persistent_prefix \<and>
    open_persistent_session (we_crypto (se_ws (st_server e)))
      (start_authenticator (hd_cfg (sr_handler (rg_server r)))) v (in_now i) = Some info \<and>
    si_username info = ac_username (c_auth (hd_cfg (sr_handler (rg_server r)))) \<and> in_now i div second < si_expires info div second"
proof (rule start_server_Inr [OF assms(1)])
  fix cfg v policy
  assume "rg_server r = new_server (new_handler cfg policy) v"
  then have h: "hd_auth (sr_handler (rg_server r)) = start_authenticator cfg" "hd_cfg (sr_handler (rg_server r)) = cfg"
    "as_sessions (hd_store (sr_handler (rg_server r))) = Map.empty"
    by (simp_all add: new_server_def new_handler_def new_store_def)
  obtain c where c: "hr_cookie req = Some c" using assms(2) by (cases "hr_cookie req") (simp_all add: session_from_request_def)
  have p: "has_prefix c persistent_prefix"
    using assms(2) by (auto simp: c h session_from_request_def store_get_def split: if_split_asm option.split_asm)
  then have o: "open_persistent_session (we_crypto (se_ws (st_server e)))
      (start_authenticator cfg) c (in_now i) = Some info"
    using assms(2) by (auto simp: c h session_from_request_def split: if_split_asm)
  from open_persistent_user [OF o] show ?thesis using c p o by (simp add: h start_authenticator_def)
qed

text \<open>Warnings, the security ones among them, are written unless the level asks for errors only.\<close>

lemma warnings_written: "new_logger level \<le> LevelWarn \<longleftrightarrow> to_lower (trim_space level) \<noteq> ''error''"
  by (simp add: new_logger_def Let_def less_eq_log_level_def)

section \<open>Witnesses\<close>

definition sample_start :: "(string, string, memory_db, string) startup_env" where
  "sample_start =
    \<lparr>st_read = (\<lambda>_. None), st_yaml = (\<lambda>_. None), st_getenv = sample_env, st_server = sample_server_env,
     st_key = key_env_ok sample_nonce, st_db = (True, \<lambda>_. []), st_files = (\<lambda>_. None), st_rnd = (\<lambda>_. None),
     st_host_keys = sample_keys, st_known = Map.empty\<rparr>"

lemma sample_start_ok: "\<not> isl (start_server sample_start [] '':9090'')"
  by code_simp

theorem started_server_configured_witness:
  "\<exists>r. start_server sample_start [] '':9090'' = Inr r \<and> sv_listen (c_server (hd_cfg (sr_handler (rg_server r)))) = '':9090'' \<and>
     hd_sessions (sr_handler (rg_server r)) = 0"
proof -
  obtain r where r: "start_server sample_start [] '':9090'' = Inr r"
    using sample_start_ok by (cases "start_server sample_start [] '':9090''") simp_all
  from started_server_configured [OF r] show ?thesis unfolding Let_def using r by auto
qed

definition remembered :: "string option" where
  "remembered = (case seal_persistent_session sample_crypto (start_authenticator (normalised (apply_env default_config sample_env)))
      \<lparr>si_username = ac_username (c_auth default_config), si_expires = hour\<rparr> sample_nonce of Inl _ \<Rightarrow> None | Inr v \<Rightarrow> Some v)"

theorem restart_ends_sessions_witness:
  "\<exists>r v. start_server sample_start [] [] = Inr r \<and> remembered = Some v \<and> has_prefix v persistent_prefix \<and>
     who_asks sample_server_env sample_inputs (rg_server r) (sample_api remembered ''GET'' ''/api/session'' []) \<noteq> None"
proof -
  let ?r = "start_server sample_start [] []" and ?q = "sample_api remembered ''GET'' ''/api/session'' []"
  have o: "\<not> isl ?r \<and> \<not> Option.is_none (who_asks sample_server_env sample_inputs (rg_server (projr ?r)) ?q)" by code_simp
  then obtain r where r: "?r = Inr r" by (cases ?r) simp_all
  from o obtain info where i: "who_asks (st_server sample_start) sample_inputs (rg_server r) ?q = Some info"
    unfolding r by (cases "who_asks sample_server_env sample_inputs (rg_server r) ?q") (simp_all add: sample_start_def)
  from restart_ends_sessions [OF r i] i r show ?thesis by (auto simp: sample_api_def sample_start_def)
qed

end
