(* ===== verification/Cli_Options.thy ===== *)
theory Cli_Options
  imports Go_Netip
begin

text \<open>
  The command line of \<^verbatim>\<open>go-webssh-cli\<close>: destinations and ports (\<^verbatim>\<open>internal/cli/cli.go\<close>), the options of
  the tunnel mode (\<^verbatim>\<open>cmd/webssh-cli/options.go\<close>) and the choice of what to run (\<^verbatim>\<open>main.go\<close>). The flag
  package is represented by its outcome: the flags given explicitly, their values and the arguments
  left over; the environment is a function that gives the empty string for an unset variable.
\<close>

section \<open>Data\<close>

datatype cli_error = CliError string | InvalidPort string | InvalidUrl string

record cli_options =
  co_server_url :: string
  co_web_user :: string
  co_web_password :: string
  co_proxy_url :: string
  co_no_proxy :: bool
  co_insecure_tls :: bool
  co_private_connect :: bool
  co_identity_file :: string
  co_passphrase :: string
  co_saved :: string
  co_list_saved :: bool
  co_host :: string
  co_port :: int
  co_ssh_user :: string
  co_term :: string
  co_use_tmux :: bool
  co_tmux_session :: string
  co_timeout :: duration
  co_user_agent :: string

section \<open>Destinations\<close>

text \<open>\<^verbatim>\<open>unicode.IsDigit\<close> takes more digits than \<^verbatim>\<open>strconv.Atoi\<close>; those fail there, with the same error.\<close>

definition parse_port :: "string \<Rightarrow> cli_error + int" where
  "parse_port s =
    (if s = [] \<or> \<not> list_all is_digit s then Inl (InvalidPort s)
     else (case atoi s of
             None \<Rightarrow> Inl (InvalidPort s)
           | Some port \<Rightarrow> if port < 1 \<or> port > 65535 then Inl (InvalidPort s) else Inr port))"

definition split_user :: "string \<Rightarrow> cli_error + string \<times> string" where
  "split_user s =
    (case last_cut s CHR ''@'' of
       None \<Rightarrow> Inr ([], s)
     | Some (user, rest) \<Rightarrow>
         if trim_space user = [] then Inl (CliError ''missing username before @'') else Inr (user, rest))"

definition parse_bracketed :: "string \<Rightarrow> cli_error + string \<times> int" where
  "parse_bracketed s =
    (case cut s CHR '']'' of
       None \<Rightarrow> Inl (CliError ''invalid IPv6 destination'')
     | Some (open_host, rest) \<Rightarrow>
         let host = tl open_host in
         if host = [] then Inl (CliError ''missing host'')
         else if rest = [] then Inr (host, 0)
         else if \<not> has_prefix rest '':'' then Inl (CliError ''invalid destination'')
         else bind_result (parse_port (tl rest)) (\<lambda>port. Inr (host, port)))"

definition parse_host :: "string \<Rightarrow> cli_error + string \<times> int" where
  "parse_host s =
    (if has_prefix s ''['' then parse_bracketed s
     else (case split_host_port s of
             Some (h, p) \<Rightarrow> bind_result (parse_port p) (\<lambda>port.
               if h = [] then Inl (CliError ''missing host'') else Inr (h, port))
           | None \<Rightarrow> if s = [] then Inl (CliError ''missing host'') else Inr (s, 0)))"

definition parse_destination :: "string \<Rightarrow> cli_error + string \<times> string \<times> int" where
  "parse_destination s0 =
    (let s = trim_space s0 in
     if s = [] then Inl (CliError ''missing destination'')
     else if contains s ''://'' then Inl (CliError ''destination must be [user@]host[:port], not a URL'')
     else bind_result (split_user s) (\<lambda>(user, rest).
          bind_result (parse_host rest) (\<lambda>(host, port). Inr (user, host, port))))"

definition clamp_size :: "int \<Rightarrow> int \<Rightarrow> int \<times> int" where
  "clamp_size cols rows =
    (let cols = (if cols < 20 then 20 else cols); cols = (if cols > 500 then 500 else cols);
         rows = (if rows < 5 then 5 else rows); rows = (if rows > 200 then 200 else rows)
     in (cols, rows))"

section \<open>Tunnel options\<close>

definition parse_bool :: "string \<Rightarrow> bool option" where
  "parse_bool s =
    (if s \<in> {''1'', ''t'', ''T'', ''TRUE'', ''true'', ''True''} then Some True
     else if s \<in> {''0'', ''f'', ''F'', ''FALSE'', ''false'', ''False''} then Some False
     else None)"

definition resolve_private_connect :: "string list \<Rightarrow> bool \<Rightarrow> (string \<Rightarrow> string) \<Rightarrow> cli_error + bool" where
  "resolve_private_connect explicit v getenv =
    (if ''private-connect'' \<in> set explicit then Inr v
     else let raw = trim_space (getenv ''GOWEBSSH_PRIVATE_CONNECT'') in
       if raw = [] then Inr v
       else of_option (CliError ''GOWEBSSH_PRIVATE_CONNECT must be a boolean (true/false)'') (parse_bool raw))"

text \<open>A port given as a number, in the range of the tunnel.\<close>

definition tunnel_port :: "string \<Rightarrow> string \<Rightarrow> cli_error + int" where
  "tunnel_port s message =
    (case atoi s of
       None \<Rightarrow> Inl (CliError message)
     | Some port \<Rightarrow> if port < 1 \<or> port > 65535 then Inl (CliError message) else Inr port)"

text \<open>The host and port of the arguments, or else of the environment; the flag says a port was given.\<close>

definition tunnel_target ::
  "string list \<Rightarrow> cli_options \<Rightarrow> bool \<Rightarrow> (string \<Rightarrow> string) \<Rightarrow> cli_error + string \<times> int \<times> bool" where
  "tunnel_target args opt provided getenv =
    (case args of
       [] \<Rightarrow> Inr (trim_space (getenv ''GOWEBSSH_TARGET_HOST''), co_port opt, provided)
     | [d] \<Rightarrow> bind_result (parse_destination d) (\<lambda>(_, host, port).
         if port \<noteq> 0 then Inr (host, port, True) else Inr (host, co_port opt, provided))
     | [host, p] \<Rightarrow> bind_result (tunnel_port p ''tunnel port must be between 1 and 65535'') (\<lambda>port.
         Inr (trim_space host, port, True))
     | _ \<Rightarrow> Inl (CliError ''tunnel mode accepts a host and optional port''))"

definition stdio_mode :: "string list \<Rightarrow> bool \<Rightarrow> (string \<Rightarrow> string) \<Rightarrow> cli_error + bool" where
  "stdio_mode explicit stdio getenv =
    (if ''stdio'' \<in> set explicit then Inr stdio
     else let v = trim_space (getenv ''GOWEBSSH_STDIO'') in
       if v = [] then Inr stdio
       else of_option (CliError ''GOWEBSSH_STDIO must be a boolean (true/false)'') (parse_bool v))"

definition resolve_tunnel_options ::
  "string list \<Rightarrow> string list \<Rightarrow> cli_options \<Rightarrow> bool \<Rightarrow> (string \<Rightarrow> string) \<Rightarrow> cli_error + cli_options \<times> bool" where
  "resolve_tunnel_options explicit args opt stdio0 getenv =
    bind_result (stdio_mode explicit stdio0 getenv) (\<lambda>stdio.
    if \<not> stdio then Inr (opt, False)
    else if co_list_saved opt \<or> co_saved opt \<noteq> []
    then Inl (CliError ''--stdio cannot be combined with --list or --saved'')
    else bind_result (tunnel_target args opt (''p'' \<in> set explicit \<or> ''port'' \<in> set explicit) getenv) (\<lambda>(host, port0, provided).
      if host = [] then Inl (CliError ''tunnel destination host is required (host argument or GOWEBSSH_TARGET_HOST)'')
      else bind_result
        (let v = trim_space (getenv ''GOWEBSSH_TARGET_PORT'') in
         if provided \<or> v = [] then Inr port0
         else tunnel_port v ''GOWEBSSH_TARGET_PORT must be between 1 and 65535'') (\<lambda>port1.
      let port = (if port1 = 0 then 22 else port1) in
      if port < 1 \<or> port > 65535 then Inl (CliError ''tunnel destination port must be between 1 and 65535'')
      else Inr (opt\<lparr>co_host := host, co_port := port\<rparr>, True))))"

section \<open>The program\<close>

datatype cli_mode = PrintVersion | UsageError | RunTunnel cli_options | RunShell cli_options

text \<open>
  \<open>opt0\<close> holds the values of the flags. What is run, or the error that is printed before exiting with
  status 2.
\<close>

definition choose_mode ::
  "string list \<Rightarrow> string list \<Rightarrow> cli_options \<Rightarrow> bool \<Rightarrow> bool \<Rightarrow> (string \<Rightarrow> string) \<Rightarrow> cli_error + cli_mode" where
  "choose_mode explicit args opt0 show_version stdio0 getenv =
    (if show_version then Inr PrintVersion
     else
       let opt1 = opt0\<lparr>co_web_password := (if co_web_password opt0 = [] then getenv ''GOWEBSSH_PASSWORD'' else co_web_password opt0)\<rparr> in
       bind_result (resolve_private_connect explicit (co_private_connect opt1) getenv) (\<lambda>private.
       bind_result (resolve_tunnel_options explicit args (opt1\<lparr>co_private_connect := private\<rparr>) stdio0 getenv) (\<lambda>(opt, stdio).
         if stdio then Inr (RunTunnel opt)
         else if co_list_saved opt then
           (if args \<noteq> [] then Inl (CliError ''--list does not take a destination'') else Inr (RunShell opt))
         else (case args of
           [d] \<Rightarrow> bind_result (parse_destination d) (\<lambda>(user, host, port).
             Inr (RunShell (opt\<lparr>co_host := host, co_ssh_user := (if co_ssh_user opt = [] then user else co_ssh_user opt),
                               co_port := (if port \<noteq> 0 then port else co_port opt)\<rparr>)))
         | [] \<Rightarrow> if co_saved opt \<noteq> [] then Inr (RunShell opt) else Inr UsageError
         | _ \<Rightarrow> Inr UsageError))))"

section \<open>Saved credentials\<close>

record cli_summary =
  cs_id :: string
  cs_name :: string
  cs_host :: string
  cs_port :: int
  cs_username :: string
  cs_term :: string
  cs_use_tmux :: bool

fun match_loop :: "string \<Rightarrow> cli_summary list \<Rightarrow> cli_summary list \<Rightarrow> string + cli_summary list" where
  "match_loop q [] matches = Inr matches"
| "match_loop q (item # items) matches =
     (if cs_id item = q \<or> equal_fold (cs_name item) q then Inl (cs_id item)
      else match_loop q items
        (if has_prefix (cs_id item) q \<or> has_prefix (to_lower (cs_name item)) (to_lower q) then matches @ [item] else matches))"

definition match_saved :: "cli_summary list \<Rightarrow> string \<Rightarrow> cli_error + string" where
  "match_saved items query =
    (let q = trim_space query in
     if q = [] then Inl (CliError ''saved credential id or name is required'')
     else (case match_loop q items [] of
       Inl i \<Rightarrow> Inr i
     | Inr [item] \<Rightarrow> Inr (cs_id item)
     | Inr [] \<Rightarrow> Inl (CliError ''saved credential not found'')
     | Inr _ \<Rightarrow> Inl (CliError ''saved credential is ambiguous'')))"

section \<open>Lemmas\<close>

lemma parse_port_Inr_iff [result_iff]:
  "parse_port s = Inr port \<longleftrightarrow> s \<noteq> [] \<and> list_all is_digit s \<and> atoi s = Some port \<and> 1 \<le> port \<and> port \<le> 65535"
  by (auto simp: parse_port_def split: option.split)

lemma tunnel_port_Inr_iff [result_iff]:
  "tunnel_port s m = Inr port \<longleftrightarrow> atoi s = Some port \<and> 1 \<le> port \<and> port \<le> 65535"
  by (auto simp: tunnel_port_def split: option.split)

lemma parse_port_itoa:
  assumes "1 \<le> port" "port \<le> 65535"
  shows "parse_port (itoa port) = Inr port"
  using assms dec_string_digits [of port] by (simp add: parse_port_Inr_iff atoi_itoa) (simp add: itoa_def)

lemma parse_bracketed_Inr:
  assumes "parse_bracketed s = Inr (host, port)"
  shows "host \<noteq> [] \<and> 0 \<le> port \<and> port \<le> 65535"
proof (cases "cut s CHR '']''")
  case None
  with assms show ?thesis by (simp add: parse_bracketed_def)
next
  case (Some ab)
  obtain a rest where ab: "ab = (a, rest)" by fastforce
  have eq: "parse_bracketed s = (if tl a = [] then Inl (CliError ''missing host'')
      else if rest = [] then Inr (tl a, 0)
      else if \<not> has_prefix rest '':'' then Inl (CliError ''invalid destination'')
      else bind_result (parse_port (tl rest)) (\<lambda>port. Inr (tl a, port)))"
    by (simp only: parse_bracketed_def Some ab option.case prod.case Let_def)
  show ?thesis
  proof (cases "tl a = [] \<or> rest = [] \<or> \<not> has_prefix rest '':''")
    case True
    with assms eq show ?thesis by (auto split: if_split_asm)
  next
    case False
    with assms eq have "bind_result (parse_port (tl rest)) (\<lambda>port. Inr (tl a, port)) = (Inr (host, port) :: cli_error + string \<times> int)"
      by simp
    with False show ?thesis by (auto simp: result_iff)
  qed
qed

lemma parse_host_Inr:
  assumes "parse_host s = Inr (host, port)"
  shows "host \<noteq> [] \<and> 0 \<le> port \<and> port \<le> 65535"
proof (cases "has_prefix s ''[''")
  case True
  with assms have "parse_bracketed s = Inr (host, port)" by (simp add: parse_host_def)
  then show ?thesis by (rule parse_bracketed_Inr)
next
  case False
  show ?thesis
  proof (cases "split_host_port s")
    case None
    with assms False show ?thesis by (auto simp: parse_host_def split: if_split_asm)
  next
    case (Some hp)
    obtain h p where "hp = (h, p)" by fastforce
    with assms False Some show ?thesis by (auto simp: parse_host_def bind_result_Inr_iff parse_port_Inr_iff split: if_split_asm)
  qed
qed

lemma parse_destination_Inr:
  assumes "parse_destination s = Inr (user, host, port)"
  obtains rest where "split_user (trim_space s) = Inr (user, rest)" "parse_host rest = Inr (host, port)"
  using assms unfolding parse_destination_def Let_def
  by (auto simp: bind_result_Inr_iff split: if_split_asm)

lemma trim_space_plain_ends:
  assumes "s \<noteq> []" "list_all plain_char s"
  shows "trim_space s = s"
  using assms by (intro trim_space_plain) (simp_all add: list_all_iff)

text \<open>The text of a destination: the user if there is one, and the host in brackets if it has a colon.\<close>

definition destination_text :: "string \<Rightarrow> string \<Rightarrow> int \<Rightarrow> string" where
  "destination_text user host port =
    (if user = [] then [] else user @ ''@'') @
    (if port = 0 then (if CHR '':'' \<in> set host then ''['' @ host @ '']'' else host)
     else join_host_port host (itoa port))"

lemma host_part_chars:
  assumes "c \<in> set (destination_text user host port)"
  shows "c \<in> set user \<or> c \<in> set host \<or> c \<in> {CHR ''@'', CHR ''['', CHR '']'', CHR '':''} \<or> is_digit c \<or> c = CHR ''-''"
proof -
  have "is_digit c \<or> c = CHR ''-''" if "c \<in> set (itoa port)"
    using that dec_string_digits [of port] dec_string_digits [of "- port"]
    by (auto simp: itoa_def list_all_iff split: if_split_asm)
  with assms show ?thesis by (auto simp: destination_text_def join_host_port_def split: if_split_asm)
qed

section \<open>Properties\<close>

text \<open>
  A destination written out is read back: the user may contain an \<^verbatim>\<open>@\<close>, an IPv6 address goes in
  brackets, and the port is optional. Nothing that parses has an empty host or a port out of range.
\<close>

theorem destination_roundtrip:
  assumes "list_all plain_char (user @ host)" "host \<noteq> []"
    and "set host \<inter> {CHR ''@'', CHR ''['', CHR '']'', CHR ''/''} = {}" "CHR ''/'' \<notin> set user"
    and "0 \<le> port" "port \<le> 65535"
  shows "parse_destination (destination_text user host port) = Inr (user, host, port)"
proof -
  let ?t = "destination_text user host port"
  define rest where "rest = (if port = 0 then (if CHR '':'' \<in> set host then ''['' @ host @ '']'' else host)
     else join_host_port host (itoa port))"
  have t: "?t = (if user = [] then rest else user @ CHR ''@'' # rest)"
    by (simp add: destination_text_def rest_def)
  have digits: "list_all is_digit (itoa port)" using assms(5) dec_string_digits [of port] by (simp add: itoa_def)
  have plain: "list_all plain_char ?t"
    using assms(1) host_part_chars digits_plain
    by (fastforce simp: list_all_iff plain_char_def is_digit_def)
  have nonempty: "rest \<noteq> []" using assms(2) by (auto simp: rest_def join_host_port_def)
  have trim: "trim_space ?t = ?t" using plain nonempty t by (intro trim_space_plain_ends) auto
  have no_slash: "CHR ''/'' \<notin> set ?t"
    using host_part_chars [of "CHR ''/''" user host port] assms(3,4) by (auto simp: is_digit_def)
  then have no_scheme: "\<not> contains ?t ''://''" by (auto simp: contains_iff)
  have no_at: "CHR ''@'' \<notin> set rest"
    using assms(3) digits by (auto simp: rest_def join_host_port_def list_all_iff is_digit_def)
  have user: "split_user ?t = Inr (user, rest)"
  proof (cases "user = []")
    case True
    then have e: "?t = rest" by (simp add: destination_text_def rest_def)
    have "last_cut rest CHR ''@'' = None" using no_at by (simp add: last_cut_def cut_def)
    then have "split_user rest = Inr ([], rest)" by (simp add: split_user_def)
    with e True show ?thesis by simp
  next
    case False
    have "last_cut (user @ CHR ''@'' # rest) CHR ''@'' = Some (user, rest)" using no_at by (simp add: last_cut_Some_iff)
    moreover have "trim_space user \<noteq> []" using trim_space_plain_ends [of user] False assms(1) by simp
    moreover have e: "?t = user @ CHR ''@'' # rest" using False by (simp only: t if_False)
    ultimately show ?thesis unfolding e by (simp add: split_user_def)
  qed
  have brackets: "cut (CHR ''['' # host @ CHR '']'' # x) CHR '']'' = Some (CHR ''['' # host, x)" for x
    using cut_append [of "CHR '']''" "CHR ''['' # host" x] assms(3) by simp
  have opened: "has_prefix (CHR ''['' # x) ''[''" for x by (simp add: has_prefix_def)
  have unopened: "\<not> has_prefix (host @ x) ''[''" for x
    using assms(2,3) by (cases host) (auto simp: has_prefix_def)
  have port: "parse_port (itoa port) = Inr port" if "port \<noteq> 0" using that assms(5,6) by (intro parse_port_itoa) auto
  have tail: "parse_host rest = Inr (host, port)"
  proof (cases "port = 0")
    case True
    show ?thesis
    proof (cases "CHR '':'' \<in> set host")
      case colon: True
      then have "rest = CHR ''['' # host @ [CHR '']'']" using True by (simp add: rest_def)
      with brackets [of "[]"] opened assms(2) True show ?thesis
        by (simp add: parse_host_def parse_bracketed_def)
    next
      case False
      then have "rest = host" "split_host_port host = None"
        using True by (simp_all add: rest_def split_host_port_def last_cut_def cut_def)
      with unopened [of "[]"] assms(2) True show ?thesis by (simp add: parse_host_def)
    qed
  next
    case False
    show ?thesis
    proof (cases "CHR '':'' \<in> set host")
      case True
      then have "rest = CHR ''['' # host @ CHR '']'' # CHR '':'' # itoa port"
        using False by (simp add: rest_def join_host_port_def)
      with brackets [of "CHR '':'' # itoa port"] opened assms(2) port [OF False] show ?thesis
        by (simp add: parse_host_def parse_bracketed_def has_prefix_def)
    next
      case no_colon: False
      then have r: "rest = host @ CHR '':'' # itoa port" "join_host_port host (itoa port) = rest"
        using False by (simp_all add: rest_def join_host_port_def)
      have "split_host_port (join_host_port host (itoa port)) = Some (host, itoa port)"
        by (rule split_join_host_port) (use assms(3) digits in \<open>auto simp: list_all_iff is_digit_def\<close>)
      with unopened r port [OF False] assms(2) show ?thesis by (simp add: parse_host_def)
    qed
  qed
  have "?t \<noteq> []" using nonempty by (simp add: t)
  then show ?thesis
    by (simp only: parse_destination_def Let_def trim if_not_P [OF no_scheme] if_False user tail bind_result_simps prod.case)
qed


text \<open>
  Tunnel options that are accepted name a host and a port from 1 to 65535, and are those of
  the command line with nothing else changed; what the arguments give is not overridden by the
  environment. Without the tunnel mode nothing changes.
\<close>

theorem tunnel_options_sane:
  assumes "resolve_tunnel_options explicit args opt stdio getenv = Inr (opt', mode)"
  shows "(if mode then co_host opt' \<noteq> [] \<and> 1 \<le> co_port opt' \<and> co_port opt' \<le> 65535 \<and>
      opt' = opt\<lparr>co_host := co_host opt', co_port := co_port opt'\<rparr> \<and> \<not> co_list_saved opt \<and> co_saved opt = [] \<and>
      (\<forall>h p. args = [h, p] \<longrightarrow> co_host opt' = trim_space h \<and> atoi p = Some (co_port opt')) \<and>
      (\<forall>d. args = [d] \<longrightarrow> (\<exists>user port. parse_destination d = Inr (user, co_host opt', port) \<and> (port \<noteq> 0 \<longrightarrow> co_port opt' = port)))
    else opt' = opt)"
proof (cases mode)
  case False
  with assms show ?thesis
    by (auto simp: resolve_tunnel_options_def bind_result_Inr_iff Let_def split: if_split_asm)
next
  case True
  let ?v = "trim_space (getenv ''GOWEBSSH_TARGET_PORT'')"
  from assms True obtain host port0 provided port1 where
    saved: "\<not> co_list_saved opt" "co_saved opt = []" and
    target: "tunnel_target args opt (''p'' \<in> set explicit \<or> ''port'' \<in> set explicit) getenv = Inr (host, port0, provided)" and
    host: "host \<noteq> []" and
    port1: "(if provided \<or> ?v = [] then Inr port0
         else tunnel_port ?v ''GOWEBSSH_TARGET_PORT must be between 1 and 65535'') = Inr port1" and
    range: "1 \<le> (if port1 = 0 then 22 else port1)" "(if port1 = 0 then 22 else port1) \<le> 65535" and
    opt': "opt' = opt\<lparr>co_host := host, co_port := if port1 = 0 then 22 else port1\<rparr>"
    unfolding resolve_tunnel_options_def Let_def
    by (auto simp: bind_result_Inr_iff simp del: if_split split: if_split_asm)
  have keep: "port1 = port0" if "provided" using port1 that by simp
  have two: "host = trim_space h \<and> port1 = port0 \<and> atoi p = Some port0 \<and> port0 \<noteq> 0" if "args = [h, p]" for h p
    using target keep that by (auto simp: tunnel_target_def bind_result_Inr_iff tunnel_port_Inr_iff)
  have one: "\<exists>user port. parse_destination d = Inr (user, host, port) \<and> (port \<noteq> 0 \<longrightarrow> port1 = port)" if "args = [d]" for d
    using target keep that by (auto simp: tunnel_target_def bind_result_Inr_iff split: if_split_asm)
  from saved host range two one show ?thesis unfolding opt' using True by (auto split: if_split_asm)
qed

section \<open>Witnesses\<close>

theorem destination_roundtrip_witness:
  "parse_destination ''git@[2001:db8::1]:2222'' = Inr (''git'', ''2001:db8::1'', 2222)"
proof -
  have t: "destination_text ''git'' ''2001:db8::1'' 2222 = ''git@[2001:db8::1]:2222''" by code_simp
  have p: "list_all plain_char (''git'' @ ''2001:db8::1'')" by code_simp
  have c: "set ''2001:db8::1'' \<inter> {CHR ''@'', CHR ''['', CHR '']'', CHR ''/''} = {}" "CHR ''/'' \<notin> set ''git''" by simp_all
  from destination_roundtrip [OF p _ c, of 2222] show ?thesis by (simp only: t) simp
qed

definition sample_options :: cli_options where
  "sample_options =
    \<lparr>co_server_url = ''https://h'', co_web_user = ''admin'', co_web_password = ''pw'', co_proxy_url = [], co_no_proxy = False,
     co_insecure_tls = False, co_private_connect = False, co_identity_file = [], co_passphrase = [], co_saved = [],
     co_list_saved = False, co_host = [], co_port = 0, co_ssh_user = [], co_term = [], co_use_tmux = False,
     co_tmux_session = [], co_timeout = 45 * second, co_user_agent = []\<rparr>"

theorem tunnel_options_sane_witness:
  "\<exists>opt. resolve_tunnel_options [''stdio''] ['' db '', ''2022''] sample_options True (\<lambda>_. ''99'') = Inr (opt, True) \<and>
     co_host opt = ''db'' \<and> co_port opt = 2022"
proof -
  let ?r = "resolve_tunnel_options [''stdio''] ['' db '', ''2022''] sample_options True (\<lambda>_. ''99'')"
  have "case ?r of Inl _ \<Rightarrow> False | Inr (opt, mode) \<Rightarrow> mode" by code_simp
  then obtain opt where r: "?r = Inr (opt, True)" by (auto split: sum.split_asm)
  moreover have "trim_space '' db '' = ''db''" "atoi ''2022'' = Some 2022" by code_simp+
  ultimately show ?thesis using tunnel_options_sane [OF r] by auto
qed

end
