(* ===== verification/Go_Flags.thy ===== *)
theory Go_Flags
  imports Cli_Options
begin

text \<open>
  The parts of Go's packages \<^verbatim>\<open>flag\<close> and \<^verbatim>\<open>strconv\<close> that the two programs rest on: the reading of a
  command line against a list of declared flags, and of a whole number in any base. A variable that a flag
  sets is represented by the update of the record of the program's variables; \<^verbatim>\<open>time.ParseDuration\<close> is the
  parameter \<open>pd\<close>.
\<close>

section \<open>Whole numbers\<close>

text \<open>\<^verbatim>\<open>strconv.ParseInt(s, 0, 64)\<close>: the prefix of the number gives its base, and digits may be grouped.\<close>

definition letter_digit :: "char \<Rightarrow> int option" where
  "letter_digit c =
    (if is_digit c then Some (digit_val c)
     else let l = lower_char c in
       if 97 \<le> byte l \<and> byte l \<le> 122 then Some (int (byte l) - 97 + 10) else None)"

fun digits_in_base :: "int \<Rightarrow> int \<Rightarrow> string \<Rightarrow> int option" where
  "digits_in_base b n [] = Some n"
| "digits_in_base b n (c # cs) =
     (if c = CHR ''_'' then digits_in_base b n cs
      else (case letter_digit c of
              None \<Rightarrow> None
            | Some d \<Rightarrow> if b \<le> d then None else digits_in_base b (b * n + d) cs))"

definition number_base :: "string \<Rightarrow> int \<times> string" where
  "number_base s =
    (case s of
       c # d # cs \<Rightarrow>
         if c \<noteq> CHR ''0'' then (10, s)
         else if cs \<noteq> [] \<and> lower_char d = CHR ''b'' then (2, cs)
         else if cs \<noteq> [] \<and> lower_char d = CHR ''o'' then (8, cs)
         else if cs \<noteq> [] \<and> lower_char d = CHR ''x'' then (16, cs)
         else (8, d # cs)
     | [c] \<Rightarrow> if c = CHR ''0'' then (8, []) else (10, s)
     | [] \<Rightarrow> (10, []))"

datatype seen_digit = AtStart | Digit | Underscore | Other

fun underscores_placed :: "bool \<Rightarrow> seen_digit \<Rightarrow> string \<Rightarrow> bool" where
  "underscores_placed hex saw [] \<longleftrightarrow> saw \<noteq> Underscore"
| "underscores_placed hex saw (c # cs) \<longleftrightarrow>
     (if is_digit c \<or> hex \<and> 97 \<le> byte (lower_char c) \<and> byte (lower_char c) \<le> 102 then underscores_placed hex Digit cs
      else if c = CHR ''_'' then saw = Digit \<and> underscores_placed hex Underscore cs
      else saw \<noteq> Underscore \<and> underscores_placed hex Other cs)"

definition underscore_ok :: "string \<Rightarrow> bool" where
  "underscore_ok s =
    (case s of
       c # d # cs \<Rightarrow>
         if c = CHR ''0'' \<and> lower_char d \<in> {CHR ''b'', CHR ''o'', CHR ''x''}
         then underscores_placed (lower_char d = CHR ''x'') Digit cs
         else underscores_placed False AtStart s
     | _ \<Rightarrow> underscores_placed False AtStart s)"

definition parse_magnitude :: "string \<Rightarrow> int option" where
  "parse_magnitude s =
    (if s = [] then None
     else (case number_base s of (b, ds) \<Rightarrow>
       (case digits_in_base b 0 ds of
          None \<Rightarrow> None
        | Some n \<Rightarrow> if CHR ''_'' \<in> set ds \<and> \<not> underscore_ok s then None else Some n)))"

definition parse_int :: "string \<Rightarrow> int option" where
  "parse_int s =
    (let neg = (s \<noteq> [] \<and> hd s = CHR ''-'');
         digits = (if s \<noteq> [] \<and> (hd s = CHR ''-'' \<or> hd s = CHR ''+'') then tl s else s)
     in Option.bind (parse_magnitude digits) (\<lambda>n.
          let v = (if neg then - n else n) in if - (2 ^ 63) \<le> v \<and> v < 2 ^ 63 then Some v else None))"

section \<open>Flags\<close>

datatype 's flag_var =
    BoolVar "bool \<Rightarrow> 's \<Rightarrow> 's"
  | StringVar "string \<Rightarrow> 's \<Rightarrow> 's"
  | IntVar "int \<Rightarrow> 's \<Rightarrow> 's"
  | DurationVar "duration \<Rightarrow> 's \<Rightarrow> 's"

datatype flag_error = BadSyntax string | UndefinedFlag string | HelpWanted | NeedsArgument string | InvalidValue string string

datatype arg_kind = NotFlag | Terminator | Malformed | FlagText string

definition classify_arg :: "string \<Rightarrow> arg_kind" where
  "classify_arg s =
    (case s of
       m # c # cs \<Rightarrow>
         if m \<noteq> CHR ''-'' then NotFlag
         else if c = CHR ''-'' \<and> cs = [] then Terminator
         else let name = (if c = CHR ''-'' then cs else c # cs) in
           if hd name = CHR ''-'' \<or> hd name = CHR ''='' then Malformed else FlagText name
     | _ \<Rightarrow> NotFlag)"

text \<open>A value attached with an equals sign, which does not come first.\<close>

definition split_value :: "string \<Rightarrow> string \<times> string option" where
  "split_value t = (case cut (tl t) CHR ''='' of None \<Rightarrow> (t, None) | Some (a, v) \<Rightarrow> (hd t # a, Some v))"

fun is_bool :: "'s flag_var \<Rightarrow> bool" where
  "is_bool (BoolVar f) \<longleftrightarrow> True"
| "is_bool _ \<longleftrightarrow> False"

text \<open>The value of a flag and the arguments after it: a switch takes none of them.\<close>

definition flag_value :: "'s flag_var \<Rightarrow> string option \<Rightarrow> string list \<Rightarrow> (string \<times> string list) option" where
  "flag_value x attached args =
    (case attached of
       Some v \<Rightarrow> Some (v, args)
     | None \<Rightarrow> if is_bool x then Some (''true'', args)
               else (case args of [] \<Rightarrow> None | v # rest \<Rightarrow> Some (v, rest)))"

fun set_flag :: "(string \<Rightarrow> duration option) \<Rightarrow> 's flag_var \<Rightarrow> string \<Rightarrow> 's \<Rightarrow> 's option" where
  "set_flag pd (BoolVar f) v s = map_option (\<lambda>b. f b s) (parse_bool v)"
| "set_flag pd (StringVar f) v s = Some (f v s)"
| "set_flag pd (IntVar f) v s = map_option (\<lambda>i. f i s) (parse_int v)"
| "set_flag pd (DurationVar f) v s = map_option (\<lambda>d. f d s) (pd v)"

lemma flag_value_shorter: "flag_value x attached args = Some (v, rest) \<Longrightarrow> length rest \<le> length args"
  by (auto simp: flag_value_def split: option.split_asm if_split_asm list.split_asm)

text \<open>The variables, the names of the flags given and the arguments left over, or the first error.\<close>

function parse_flags ::
  "(string \<Rightarrow> duration option) \<Rightarrow> (string \<times> 's flag_var) list \<Rightarrow> string list \<Rightarrow> string list \<Rightarrow> 's
    \<Rightarrow> flag_error + 's \<times> string list \<times> string list" where
  "parse_flags pd fs [] seen s = Inr (s, seen, [])"
| "parse_flags pd fs (a # args) seen s =
     (case classify_arg a of
        NotFlag \<Rightarrow> Inr (s, seen, a # args)
      | Terminator \<Rightarrow> Inr (s, seen, args)
      | Malformed \<Rightarrow> Inl (BadSyntax a)
      | FlagText t \<Rightarrow>
          let name = fst (split_value t) in
          (case map_of fs name of
             None \<Rightarrow> Inl (if name = ''help'' \<or> name = ''h'' then HelpWanted else UndefinedFlag name)
           | Some x \<Rightarrow>
               (case flag_value x (snd (split_value t)) args of
                  None \<Rightarrow> Inl (NeedsArgument name)
                | Some (v, rest) \<Rightarrow>
                    (case set_flag pd x v s of
                       None \<Rightarrow> Inl (InvalidValue name v)
                     | Some s' \<Rightarrow> parse_flags pd fs rest (name # seen) s'))))"
  by pat_completeness auto
termination
  by (relation "measure (\<lambda>(pd, fs, args, seen, s). length args)") (auto simp: less_Suc_eq_le dest: flag_value_shorter)

section \<open>Numbers are read back\<close>

lemma letter_digit_digit [simp]: "is_digit c \<Longrightarrow> letter_digit c = Some (digit_val c)"
  by (simp add: letter_digit_def)

lemma digits_in_base_ten:
  "list_all is_digit ds \<Longrightarrow> digits_in_base 10 n ds = Some (foldl (\<lambda>a c. 10 * a + digit_val c) n ds)"
proof (induction ds arbitrary: n)
  case (Cons c ds)
  then have "c \<noteq> CHR ''_''" "\<not> 10 \<le> digit_val c" by (auto simp: is_digit_def digit_val_def)
  with Cons show ?case by simp
qed simp

lemma number_base_decimal: "s \<noteq> [] \<Longrightarrow> hd s \<noteq> CHR ''0'' \<Longrightarrow> number_base s = (10, s)"
  by (auto simp: number_base_def split: list.split)

lemma parse_magnitude_dec: "0 \<le> i \<Longrightarrow> parse_magnitude (dec_string i) = Some i"
proof (cases "i = 0")
  case True
  have "dec_string 0 = ''0''" by code_simp
  moreover have "parse_magnitude ''0'' = Some 0" by code_simp
  ultimately show ?thesis using True by simp
next
  case False
  assume i: "0 \<le> i"
  note d = dec_string_digits [OF i]
  have "CHR ''_'' \<notin> set (dec_string i)" using d by (auto simp: list_all_iff is_digit_def)
  with False i d dec_string_no_zero [of i] show ?thesis
    by (simp add: parse_magnitude_def number_base_decimal digits_in_base_ten digits_val_dec_string flip: digits_val_def)
qed

lemma parse_int_itoa:
  assumes "- (2 ^ 63) \<le> i" "i < 2 ^ 63"
  shows "parse_int (itoa i) = Some i"
proof (cases "i < 0")
  case True
  with assms show ?thesis by (simp add: itoa_def parse_int_def parse_magnitude_dec)
next
  case False
  then have i: "0 \<le> i" by simp
  obtain c cs where cs: "dec_string i = c # cs" using dec_string_digits [OF i] by (cases "dec_string i") auto
  have "is_digit c" using dec_string_digits [OF i] by (simp add: cs)
  then have c: "c \<noteq> CHR ''-''" "c \<noteq> CHR ''+''" by (auto dest: not_digit_sign)
  have "parse_int (dec_string i) = Option.bind (parse_magnitude (dec_string i)) (\<lambda>n. if - (2 ^ 63) \<le> n \<and> n < 2 ^ 63 then Some n else None)"
    unfolding cs parse_int_def using c by simp
  then show ?thesis using False assms by (simp add: itoa_def parse_magnitude_dec)
qed

text \<open>The base is in the text: a leading zero makes a number octal.\<close>

lemma parse_int_octal: "parse_int ''022'' = Some 18" "parse_int ''0x16'' = Some 22" "parse_int ''6_5'' = Some 65" "parse_int ''09'' = None"
  by code_simp+

section \<open>A grammar of flags\<close>

text \<open>
  What the reading accepts, as a relation: a value attached, a value that is the next argument, or a
  switch; each with one dash or two.
\<close>

definition flag_name :: "string \<Rightarrow> bool" where
  "flag_name n \<longleftrightarrow> n \<noteq> [] \<and> hd n \<noteq> CHR ''-'' \<and> CHR ''='' \<notin> set n"

inductive reads_flag :: "(string \<times> 's flag_var) list \<Rightarrow> string \<Rightarrow> 's flag_var \<Rightarrow> string \<Rightarrow> string list \<Rightarrow> bool" for fs where
  attached: "map_of fs n = Some x \<Longrightarrow> flag_name n \<Longrightarrow> dash \<in> {''-'', ''--''} \<Longrightarrow> reads_flag fs n x v [dash @ n @ CHR ''='' # v]"
| separate: "map_of fs n = Some x \<Longrightarrow> flag_name n \<Longrightarrow> dash \<in> {''-'', ''--''} \<Longrightarrow> \<not> is_bool x \<Longrightarrow> reads_flag fs n x v [dash @ n, v]"
| switch: "map_of fs n = Some x \<Longrightarrow> flag_name n \<Longrightarrow> dash \<in> {''-'', ''--''} \<Longrightarrow> is_bool x \<Longrightarrow> reads_flag fs n x ''true'' [dash @ n]"

inductive reads_flags ::
  "(string \<Rightarrow> duration option) \<Rightarrow> (string \<times> 's flag_var) list \<Rightarrow> string list \<Rightarrow> 's \<Rightarrow> string list \<Rightarrow> 's \<Rightarrow> bool" for pd fs where
  no_flags: "reads_flags pd fs [] s [] s"
| one_flag: "reads_flag fs n x v args \<Longrightarrow> set_flag pd x v s = Some s1 \<Longrightarrow> reads_flags pd fs rest s1 names s2
    \<Longrightarrow> reads_flags pd fs (args @ rest) s (n # names) s2"

lemma classify_flag:
  assumes "flag_name n" "dash \<in> {''-'', ''--''}"
  shows "classify_arg (dash @ n @ t) = FlagText (n @ t)"
  using assms by (cases n) (auto simp: classify_arg_def flag_name_def)

lemma split_value_attached: "flag_name n \<Longrightarrow> split_value (n @ CHR ''='' # v) = (n, Some v)"
  by (cases n) (auto simp: split_value_def flag_name_def cut_append)

lemma split_value_alone: "flag_name n \<Longrightarrow> split_value n = (n, None)"
  by (cases n) (auto simp: split_value_def flag_name_def cut_def)

lemma parse_one_flag:
  assumes "reads_flag fs n x v args" "set_flag pd x v s = Some s1"
  shows "parse_flags pd fs (args @ rest) seen s = parse_flags pd fs rest (n # seen) s1"
  using assms
proof cases
  case (attached dash)
  with assms(2) show ?thesis
    by (simp add: classify_flag split_value_attached flag_value_def)
next
  case (separate dash)
  with assms(2) classify_flag [of n dash "[]"] show ?thesis
    by (simp add: split_value_alone flag_value_def)
next
  case (switch dash)
  with assms(2) classify_flag [of n dash "[]"] show ?thesis
    by (simp add: split_value_alone flag_value_def)
qed

lemma parse_reads_flags:
  "reads_flags pd fs flags s names s' \<Longrightarrow> parse_flags pd fs (flags @ rest) seen s = parse_flags pd fs rest (rev names @ seen) s'"
proof (induction arbitrary: seen rule: reads_flags.induct)
  case (one_flag n x v args s s1 more names s2)
  from parse_one_flag [OF one_flag.hyps(1,2), of "more @ rest" seen] one_flag.IH [of "n # seen"] show ?case by simp
qed simp

lemma classify_FlagText:
  assumes "classify_arg a = FlagText t"
  obtains dash where "dash \<in> {''-'', ''--''}" "a = dash @ t" "t \<noteq> []" "hd t \<noteq> CHR ''-''" "hd t \<noteq> CHR ''=''"
proof -
  from assms obtain c cs where a: "a = CHR ''-'' # c # cs" "\<not> (c = CHR ''-'' \<and> cs = [])"
    "t = (if c = CHR ''-'' then cs else c # cs)" "hd t \<noteq> CHR ''-''" "hd t \<noteq> CHR ''=''"
    by (auto simp: classify_arg_def Let_def split: list.split_asm if_split_asm)
  with that [of "''-''"] that [of "''--''"] show thesis by (cases "c = CHR ''-''") auto
qed

lemma split_value_cases:
  assumes "t \<noteq> []" "hd t \<noteq> CHR ''-''" "hd t \<noteq> CHR ''=''"
  shows "flag_name (fst (split_value t)) \<and>
    t = (case snd (split_value t) of None \<Rightarrow> fst (split_value t) | Some v \<Rightarrow> fst (split_value t) @ CHR ''='' # v)"
proof (cases "cut (tl t) CHR ''=''")
  case None
  with assms show ?thesis by (cases t) (auto simp: split_value_def flag_name_def cut_def split: if_split_asm)
next
  case (Some av)
  then obtain a v where av: "av = (a, v)" "cut (tl t) CHR ''='' = Some (a, v)" by (cases av) auto
  then have "tl t = a @ CHR ''='' # v" "CHR ''='' \<notin> set a" by (simp_all add: cut_Some_iff)
  with assms av show ?thesis by (cases t) (auto simp: split_value_def flag_name_def)
qed

lemma reads_one_flag:
  assumes "classify_arg a = FlagText t" "map_of fs (fst (split_value t)) = Some x"
    and "flag_value x (snd (split_value t)) args = Some (v, rest)"
  shows "\<exists>flag. reads_flag fs (fst (split_value t)) x v flag \<and> a # args = flag @ rest"
proof (rule classify_FlagText [OF assms(1)])
  fix dash
  assume d: "dash \<in> {''-'', ''--''}" "a = dash @ t" and t: "t \<noteq> []" "hd t \<noteq> CHR ''-''" "hd t \<noteq> CHR ''=''"
  let ?n = "fst (split_value t)"
  note n = split_value_cases [OF t]
  show ?thesis
  proof (cases "snd (split_value t)")
    case (Some w)
    with n have "a = dash @ ?n @ CHR ''='' # w" by (simp add: d(2))
    moreover have "v = w" "rest = args" using assms(3) by (simp_all add: Some flag_value_def)
    ultimately show ?thesis using reads_flag.attached [OF assms(2) _ d(1), of v] n by auto
  next
    case None
    with n have a: "a = dash @ ?n" by (simp add: d(2))
    show ?thesis
    proof (cases "is_bool x")
      case True
      with assms(3) have "v = ''true''" "rest = args" by (simp_all add: None flag_value_def)
      with a True reads_flag.switch [OF assms(2) _ d(1)] n show ?thesis by auto
    next
      case False
      with assms(3) have "args = v # rest" by (simp add: None flag_value_def split: list.split_asm)
      with a False reads_flag.separate [OF assms(2) _ d(1)] n show ?thesis by auto
    qed
  qed
qed

definition flags_end :: "string list \<Rightarrow> string list \<Rightarrow> bool" where
  "flags_end args rest \<longleftrightarrow> args = ''--'' # rest \<or> args = rest \<and> (rest = [] \<or> classify_arg (hd rest) = NotFlag)"

lemma classify_Terminator: "classify_arg a = Terminator \<longleftrightarrow> a = ''--''"
  by (auto simp: classify_arg_def Let_def split: list.split)

lemma parse_flags_Inr:
  "parse_flags pd fs args seen s = Inr (s', names, rest) \<Longrightarrow>
    \<exists>flags ns. reads_flags pd fs flags s ns s' \<and> names = rev ns @ seen \<and> (\<exists>more. args = flags @ more \<and> flags_end more rest)"
proof (induction pd fs args seen s rule: parse_flags.induct)
  case (1 pd fs seen s)
  with no_flags [of pd fs s] show ?case by (intro exI [of _ "[]"]) (simp add: flags_end_def)
next
  case (2 pd fs a args seen s)
  show ?case
  proof (cases "classify_arg a")
    case NotFlag
    with 2(2) no_flags [of pd fs s] show ?thesis
      by - (rule exI [of _ "[]"], rule exI [of _ "[]"], intro conjI exI [of _ "a # args"], auto simp: flags_end_def)
  next
    case Terminator
    with 2(2) no_flags [of pd fs s] show ?thesis
      by - (rule exI [of _ "[]"], rule exI [of _ "[]"], intro conjI exI [of _ "a # args"], auto simp: flags_end_def classify_Terminator)
  next
    case Malformed
    with 2(2) show ?thesis by simp
  next
    case (FlagText t)
    let ?n = "fst (split_value t)"
    from 2(2) FlagText obtain x v args' s1 where
      x: "map_of fs ?n = Some x" "flag_value x (snd (split_value t)) args = Some (v, args')" "set_flag pd x v s = Some s1"
      "parse_flags pd fs args' (?n # seen) s1 = Inr (s', names, rest)"
      by (auto simp: Let_def split: option.split_asm prod.split_asm)
    from 2(1) [OF FlagText refl x(1,2) refl x(3,4)] obtain flags ns more where
      ih: "reads_flags pd fs flags s1 ns s'" "names = rev ns @ ?n # seen" "args' = flags @ more" "flags_end more rest" by blast
    from reads_one_flag [OF FlagText x(1,2)] obtain flag where f: "reads_flag fs ?n x v flag" "a # args = flag @ args'" by blast
    have "reads_flags pd fs (flag @ flags) s (?n # ns) s'" by (rule one_flag [OF f(1) x(3) ih(1)])
    with ih f(2) show ?thesis by (intro exI [of _ "flag @ flags"] exI [of _ "?n # ns"]) auto
  qed
qed

text \<open>The loop is the grammar: flags, then the arguments, which two dashes or an argument that is no flag begin.\<close>

lemma parse_flags_iff:
  "parse_flags pd fs args [] s = Inr (s', names, rest) \<longleftrightarrow>
    (\<exists>flags more. args = flags @ more \<and> reads_flags pd fs flags s (rev names) s' \<and> flags_end more rest)"
proof
  assume "parse_flags pd fs args [] s = Inr (s', names, rest)"
  from parse_flags_Inr [OF this] obtain flags ns more where
    "reads_flags pd fs flags s ns s'" "names = rev ns" "args = flags @ more" "flags_end more rest" by auto
  then show "\<exists>flags more. args = flags @ more \<and> reads_flags pd fs flags s (rev names) s' \<and> flags_end more rest"
    by (intro exI [of _ flags] exI [of _ more]) simp
next
  assume "\<exists>flags more. args = flags @ more \<and> reads_flags pd fs flags s (rev names) s' \<and> flags_end more rest"
  then obtain flags more where f: "args = flags @ more" "reads_flags pd fs flags s (rev names) s'" "flags_end more rest" by blast
  have "parse_flags pd fs more names s' = Inr (s', names, rest)"
  proof (cases "more = ''--'' # rest")
    case True
    moreover have "classify_arg ''--'' = Terminator" by (simp add: classify_Terminator)
    ultimately show ?thesis by simp
  next
    case False
    with f(3) have "more = rest" "rest = [] \<or> classify_arg (hd rest) = NotFlag" by (auto simp: flags_end_def)
    then show ?thesis by (cases rest) auto
  qed
  with parse_reads_flags [OF f(2), of more "[]"] f(1) show "parse_flags pd fs args [] s = Inr (s', names, rest)" by simp
qed

end
