(* ===== verification/Server_Main.thy ===== *)
theory Server_Main
  imports Go_Flags Startup
begin

text \<open>
  The server as a process: the command line of \<^verbatim>\<open>cmd/webssh/main.go\<close>, its start, and its life until it
  exits, with \<^verbatim>\<open>Start\<close> and \<^verbatim>\<open>Shutdown\<close> of \<^verbatim>\<open>internal/httpserver/server.go\<close>. A life is a sequence of steps: the
  listener is opened or not, requests are handled, the session store is cleaned up, a signal arrives.
\<close>

section \<open>The command line\<close>

record server_vars =
  sf_config :: string
  sf_listen :: string
  sf_show_version :: bool

definition server_flags :: "(string \<times> server_vars flag_var) list" where
  "server_flags =
    [(''config'', StringVar (\<lambda>x v. v\<lparr>sf_config := x\<rparr>)),
     (''listen'', StringVar (\<lambda>x v. v\<lparr>sf_listen := x\<rparr>)),
     (''version'', BoolVar (\<lambda>x v. v\<lparr>sf_show_version := x\<rparr>))]"

datatype ('db, 'key) boot = BootExit int | BootRunning "('db, 'key) running"

definition server_boot ::
  "(string \<Rightarrow> duration option) \<Rightarrow> ('g, 'c, 'db, 'key) startup_env \<Rightarrow> string list \<Rightarrow> ('db, 'key) boot" where
  "server_boot pd e argv =
    (case parse_flags pd server_flags argv [] \<lparr>sf_config = [], sf_listen = [], sf_show_version = False\<rparr> of
       Inl err \<Rightarrow> BootExit (if err = HelpWanted then 0 else 2)
     | Inr (v, _, _) \<Rightarrow>
         if sf_show_version v then BootExit 0
         else (case start_server e (sf_config v) (sf_listen v) of
                 Inl _ \<Rightarrow> BootExit 1
               | Inr r \<Rightarrow> BootRunning r))"

section \<open>The life of the process\<close>

datatype phase = Running | Stopping | Exited int

text \<open>
  \<open>lf_bound\<close> tells whether \<^verbatim>\<open>Start\<close> has its listener, \<open>lf_open\<close> whether the vault is still open; the log holds
  the requests with what was read beside them and the responses, the last one first.
\<close>

record 'db life =
  lf_phase :: phase
  lf_bound :: bool
  lf_server :: "'db server"
  lf_open :: bool
  lf_log :: "(inputs \<times> api_request \<times> response) list"

definition new_life :: "('db, 'key) running \<Rightarrow> 'db life" where
  "new_life r =
    \<lparr>lf_phase = Running, lf_bound = False, lf_server = rg_server r, lf_open = (sr_vault (rg_server r) \<noteq> None), lf_log = []\<rparr>"

definition clean_store :: "int \<Rightarrow> 'db server \<Rightarrow> 'db server" where
  "clean_store now s = s\<lparr>sr_handler := sr_handler s\<lparr>hd_store := cleanup_tick (hd_store (sr_handler s)) now\<rparr>\<rparr>"

text \<open>
  A WebSocket session reads the store of sessions when it starts and never again, so that the requests handled
  during it are put before or after it; meanwhile the others only take and give back slots.
\<close>

definition same_but_counts :: "handler \<Rightarrow> handler \<Rightarrow> bool" where
  "same_but_counts h h' \<longleftrightarrow>
     hd_cfg h' = hd_cfg h \<and> hd_auth h' = hd_auth h \<and> hd_store h' = hd_store h \<and> hd_policy h' = hd_policy h"

definition counts_only :: "(handler \<Rightarrow> handler) \<Rightarrow> bool" where
  "counts_only f \<longleftrightarrow> (\<forall>h. same_but_counts h (f h))"

text \<open>
  \<^verbatim>\<open>os.Exit\<close> after a failure of the listener runs no deferred call, so the vault is not closed. After a signal \<^verbatim>\<open>Shutdown\<close>
  waits, for ten seconds at most, for the requests that were accepted; the deferred \<^verbatim>\<open>Close\<close> follows.
\<close>

inductive life_step :: "('g, 'c, 'db) server_env \<Rightarrow> 'db life \<Rightarrow> 'db life \<Rightarrow> bool" for env where
  listen_ok: "lf_phase l = Running \<Longrightarrow> \<not> lf_bound l \<Longrightarrow> life_step env l (l\<lparr>lf_bound := True\<rparr>)"
| listen_failed: "lf_phase l \<in> {Running, Stopping} \<Longrightarrow> \<not> lf_bound l \<Longrightarrow> life_step env l (l\<lparr>lf_phase := Exited 1\<rparr>)"
| accept_failed: "lf_phase l = Running \<Longrightarrow> lf_bound l \<Longrightarrow> life_step env l (l\<lparr>lf_phase := Exited 1\<rparr>)"
| request: "lf_phase l \<in> {Running, Stopping} \<Longrightarrow> lf_bound l \<Longrightarrow> counts_only (in_others i) \<Longrightarrow>
    serve env i (lf_server l) r = (resp, s) \<Longrightarrow> life_step env l (l\<lparr>lf_server := s, lf_log := (i, r, resp) # lf_log l\<rparr>)"
| clean_up: "lf_phase l \<in> {Running, Stopping} \<Longrightarrow> life_step env l (l\<lparr>lf_server := clean_store now (lf_server l)\<rparr>)"
| signal: "lf_phase l = Running \<Longrightarrow> life_step env l (l\<lparr>lf_phase := Stopping\<rparr>)"
| stopped: "lf_phase l = Stopping \<Longrightarrow> life_step env l (l\<lparr>lf_phase := Exited 0, lf_open := False\<rparr>)"

inductive_cases life_stepE: "life_step env l l'"

abbreviation life_reach :: "('g, 'c, 'db) server_env \<Rightarrow> 'db life \<Rightarrow> 'db life \<Rightarrow> bool" where
  "life_reach env \<equiv> (life_step env)\<^sup>*\<^sup>*"

lemma exited_for_good: "life_step env l l' \<Longrightarrow> lf_phase l \<noteq> Exited n"
  by (auto elim: life_stepE)

text \<open>The vault is closed exactly by the exit that follows a signal.\<close>

lemma exit_closes_vault:
  assumes "life_reach env (new_life r) l" "lf_phase l = Exited n"
  shows "lf_open l \<longleftrightarrow> n \<noteq> 0 \<and> sr_vault (rg_server r) \<noteq> None"
proof -
  from assms(1) have "(case lf_phase l of Exited n \<Rightarrow> lf_open l \<longleftrightarrow> n \<noteq> 0 \<and> sr_vault (rg_server r) \<noteq> None
      | _ \<Rightarrow> lf_open l \<longleftrightarrow> sr_vault (rg_server r) \<noteq> None)"
  proof (induction rule: rtranclp_induct)
    case base
    then show ?case by (simp add: new_life_def)
  next
    case (step y z)
    from step(2,3) show ?case by cases (auto split: phase.split_asm)
  qed
  with assms(2) show ?thesis by simp
qed

section \<open>What a request does to the sessions\<close>

lemma same_but_counts_fields:
  "same_but_counts h h' \<Longrightarrow> hd_cfg h' = hd_cfg h \<and> hd_auth h' = hd_auth h \<and> hd_store h' = hd_store h \<and> hd_policy h' = hd_policy h"
  by (simp add: same_but_counts_def)

lemma same_but_counts_intros:
  "same_but_counts h h" "same_but_counts h (h\<lparr>hd_sessions := n\<rparr>)" "same_but_counts h (h\<lparr>hd_tunnels := n\<rparr>)"
  by (simp_all add: same_but_counts_def)

lemma counts_only_same: "counts_only f \<Longrightarrow> same_but_counts h h' \<Longrightarrow> same_but_counts h (f h')"
  by (simp add: counts_only_def same_but_counts_def)

lemma release_same:
  "same_but_counts h h' \<Longrightarrow> same_but_counts h (release_session h')" "same_but_counts h h' \<Longrightarrow> same_but_counts h (release_tunnel h')"
  by (simp_all add: release_session_def release_tunnel_def same_but_counts_def)

lemma handle_connect_same:
  "handle_connect env h s raw rnd1 rnd2 sent = (go, h', rest) \<Longrightarrow> same_but_counts h h'"
  by (auto simp: handle_connect_def open_shell_def Let_def reserve_session_def
      intro: same_but_counts_intros release_same
      split: option.split_asm sum.split_asm prod.split_asm policy_error.split_asm bool.split_asm if_split_asm)

lemma await_connect_same:
  "await_connect env h s rnd1 rnd2 sent frames = ((go, h', rest), fs) \<Longrightarrow> same_but_counts h h'"
proof (induction env h s rnd1 rnd2 sent frames rule: await_connect.induct)
  case (3 env h s rnd1 rnd2 sent mt data fs0)
  then show ?case
    by (auto intro: same_but_counts_intros handle_connect_same split: if_split_asm option.split_asm)
qed (auto intro: same_but_counts_intros)

lemma run_session_same:
  assumes "counts_only others"
  shows "same_but_counts h (fst (run_session env h rnd1 rnd2 sent write_ok ended others frames))"
proof -
  obtain go h' s out acts rest where a: "await_connect env h new_session rnd1 rnd2 sent frames = ((go, h', s, out, acts), rest)"
    by (metis prod.collapse)
  from counts_only_same [OF assms await_connect_same [OF a]] show ?thesis
    by (auto simp: run_session_def a cleanup_def release_same split: bool.split prod.split)
qed

lemma lookup_store:
  "as_sessions (snd (session_from_request c a st rc now)) t = Some x \<Longrightarrow> as_sessions st t = Some x"
  "as_ttl (snd (session_from_request c a st rc now)) = as_ttl st"
  by (auto simp: session_from_request_def store_get_def store_delete_def split: option.split_asm if_split_asm option.split)

lemma serve_http_same:
  assumes "counts_only others"
  shows "same_but_counts (h\<lparr>hd_store := snd (session_from_request (we_crypto env) (hd_auth h) (hd_store h) (hr_cookie r) now)\<rparr>)
    (fst (snd (serve_http env h r now up rnd1 rnd2 sent write_ok ended others frames)))"
  using run_session_same [OF assms]
  by (auto simp: serve_http_def Let_def same_but_counts_intros split: prod.split)

lemma serve_tunnel_same:
  assumes "counts_only others"
  shows "same_but_counts (h\<lparr>hd_store := snd (session_from_request (we_crypto env) (hd_auth h) (hd_store h) (hr_cookie r) now)\<rparr>)
    (fst (snd (serve_tunnel_http env h r now up dial sent f relayed others)))"
  by (auto simp: serve_tunnel_http_def Let_def reserve_tunnel_def split: prod.split
      intro!: release_same counts_only_same [OF assms] same_but_counts_intros)

text \<open>
  Of an entry of the log: it is the login that put a session under a token, with the password of the configured
  user; it is a logout whose cookie is the signed one of a token.
\<close>

definition issued ::
  "('g, 'c, 'db) server_env \<Rightarrow> authenticator \<Rightarrow> inputs \<times> api_request \<times> response \<Rightarrow> string \<Rightarrow> session_info \<Rightarrow> bool" where
  "issued env a entry t x =
    (case entry of (i, r, resp) \<Rightarrow>
      route (ar_method r) (ar_path r) = Login \<and> rs_status resp = 200 \<and>
      (case Option.bind (read_limited 4096 r) decode_login of
         None \<Rightarrow> False
       | Some (username, password, remember) \<Rightarrow>
           \<not> remember \<and> authenticate (we_crypto (se_ws env)) a username password = Inr () \<and>
           x = \<lparr>si_username = username, si_expires = in_now i + au_ttl a\<rparr> \<and> Some t = map_option b64_encode (in_rnd i)))"

definition logged_out :: "('g, 'c, 'db) server_env \<Rightarrow> authenticator \<Rightarrow> inputs \<times> api_request \<times> response \<Rightarrow> string \<Rightarrow> bool" where
  "logged_out env a entry t =
    (case entry of (i, r, resp) \<Rightarrow>
      route (ar_method r) (ar_path r) = Logout \<and> rs_status resp = 200 \<and>
      Option.bind (hr_cookie r) (verify_token (we_crypto (se_ws env)) a) = Some t)"

lemma login_store:
  assumes "login c a st username password remember rnd now now2 = (res, st')" "0 < au_ttl a"
  shows "as_ttl st' = as_ttl st \<and> (as_sessions st' t = Some x \<longrightarrow> as_sessions st t = Some x \<or>
    (\<exists>ck. res = Inr ck) \<and> \<not> (remember \<noteq> [] \<and> hd remember) \<and> authenticate c a username password = Inr () \<and>
    x = \<lparr>si_username = username, si_expires = now + au_ttl a\<rparr> \<and> Some t = map_option b64_encode rnd)"
  using assms
  by (auto simp: login_def store_create_def store_insert_def Let_def split: sum.split_asm if_split_asm option.split_asm)

lemma handle_login_store:
  assumes "handle_login env i s r = (resp, s')" "0 < au_ttl (hd_auth (sr_handler s))" "route (ar_method r) (ar_path r) = Login"
    and "as_sessions (hd_store (sr_handler s')) t = Some x"
  shows "as_sessions (hd_store (sr_handler s)) t = Some x \<or> issued env (hd_auth (sr_handler s)) (i, r, resp) t x"
proof (cases "s' = s")
  case False
  let ?h = "sr_handler s"
  from assms(1) False obtain b username password remember where
    ct: "has_prefix (ar_content_type r) ''application/json''" and
    b: "read_limited 4096 r = Some b" "decode_login b = Some (username, password, remember)"
    by (auto simp: handle_login_def split: if_split_asm option.split_asm)
  obtain res st where
    l: "login (we_crypto (se_ws env)) (hd_auth ?h) (hd_store ?h) username password
          [remember] (in_rnd i) (in_now i) (in_now2 i) = (res, st)" by fastforce
  have "s' = s\<lparr>sr_handler := ?h\<lparr>hd_store := st\<rparr>\<rparr> \<and> (\<forall>ck. res = Inr ck \<longrightarrow> rs_status resp = 200)"
    using assms(1) by (cases res) (auto simp: handle_login_def ct b l Let_def write_json_def)
  then have s': "s' = s\<lparr>sr_handler := ?h\<lparr>hd_store := st\<rparr>\<rparr>" and resp: "\<And>ck. res = Inr ck \<Longrightarrow> rs_status resp = 200" by blast+
  from login_store [OF l assms(2), of t x] assms(4) show ?thesis
    by (auto simp: s' issued_def assms(3) b resp)
qed (use assms(4) in simp)

lemma handle_logout_store:
  assumes "handle_logout env i s r = (resp, s')" "route (ar_method r) (ar_path r) = Logout"
    and "as_sessions (hd_store (sr_handler s')) t = Some x"
  shows "as_sessions (hd_store (sr_handler s)) t = Some x \<and> \<not> logged_out env (hd_auth (sr_handler s)) (i, r, resp) t"
proof -
  obtain who s1 where q: "request_session env i s r = (who, s1)" by fastforce
  note s1 = request_session_store [OF q]
  show ?thesis
  proof (cases who)
    case None
    with assms(1,3) q have "s' = s1" "rs_status resp = 401"
      by (auto simp: handle_logout_def write_err_def write_json_def)
    with assms(3) show ?thesis by (auto simp: s1 logged_out_def dest: lookup_store(1))
  next
    case (Some info)
    with assms(1) q have "hd_store (sr_handler s') = snd (logout (we_crypto (se_ws env)) (hd_auth (sr_handler s)) (looked_up env i s r) (hr_cookie r))"
      by (auto simp: handle_logout_def Let_def s1 split: prod.split_asm)
    with assms(3) have "as_sessions (looked_up env i s r) t = Some x"
      "Option.bind (hr_cookie r) (verify_token (we_crypto (se_ws env)) (hd_auth (sr_handler s))) \<noteq> Some t"
      by (auto simp: logout_def store_delete_def split: option.split_asm if_split_asm)
    then show ?thesis by (auto simp: logged_out_def dest: lookup_store(1))
  qed
qed

lemma with_vault_handler:
  assumes "with_vault env i s r f = (resp, s')"
  shows "sr_handler s' = (sr_handler s)\<lparr>hd_store := looked_up env i s r\<rparr>"
proof -
  obtain who s1 where q: "request_session env i s r = (who, s1)" by fastforce
  from assms q show ?thesis
    by (auto simp: with_vault_def credential_session_def request_session_store [OF q]
        split: option.split_asm prod.split_asm sum.split_asm)
qed

text \<open>Every other route only looks a session up.\<close>

lemma dispatch_other_store:
  assumes "dispatch env i s r = (resp, s')" "counts_only (in_others i)"
    and "route (ar_method r) (ar_path r) \<noteq> Login" "route (ar_method r) (ar_path r) \<noteq> Logout"
  shows "s' = s \<or> same_but_counts ((sr_handler s)\<lparr>hd_store := looked_up env i s r\<rparr>) (sr_handler s')"
proof (cases "route (ar_method r) (ar_path r)")
  case SessionState
  obtain who s1 where q: "request_session env i s r = (who, s1)" by fastforce
  with assms(1) SessionState have "s' = s1"
    by (auto simp: dispatch_def handle_session_def split: option.split_asm)
  then show ?thesis by (simp add: request_session_store [OF q] same_but_counts_intros)
next
  case SshSocket
  with assms(1) have "sr_handler s' = fst (snd (serve_http (se_ws env) (sr_handler s) (http_request.truncate r) (in_now i) (in_upgrade_ok i)
      (in_rnd1 i) (in_rnd2 i) (in_sent i) (in_write_ok i) (in_ended i) (in_others i) (in_frames i)))"
    by (auto simp: dispatch_def split: prod.split_asm)
  moreover have "hr_cookie (http_request.truncate r) = hr_cookie r" by (simp add: http_request.defs)
  ultimately show ?thesis using serve_http_same [OF assms(2), where h = "sr_handler s" and env = "se_ws env" and r = "http_request.truncate r" and now = "in_now i"] by simp
next
  case TunnelSocket
  with assms(1) have "sr_handler s' = fst (snd (serve_tunnel_http (se_ws env) (sr_handler s) (http_request.truncate r) (in_now i)
      (in_upgrade_ok i) (in_dial i) (in_sent i) (case in_frames i of [] \<Rightarrow> ReadError | f # _ \<Rightarrow> f) (in_relayed i) (in_others i)))"
    by (auto simp: dispatch_def split: prod.split_asm)
  moreover have "hr_cookie (http_request.truncate r) = hr_cookie r" by (simp add: http_request.defs)
  ultimately show ?thesis using serve_tunnel_same [OF assms(2), where h = "sr_handler s" and env = "se_ws env" and r = "http_request.truncate r" and now = "in_now i"] by simp
qed (use assms in \<open>auto simp: dispatch_def with_vault_handler same_but_counts_intros\<close>)

definition session_kept ::
  "('g, 'c, 'db) server_env \<Rightarrow> authenticator \<Rightarrow> inputs \<times> api_request \<times> response \<Rightarrow> auth_store \<Rightarrow> auth_store \<Rightarrow> bool" where
  "session_kept env a entry st st' \<longleftrightarrow>
     (\<forall>t x. as_sessions st' t = Some x \<longrightarrow>
        issued env a entry t x \<or> as_sessions st t = Some x \<and> \<not> logged_out env a entry t)"

lemma handle_login_fields:
  "handle_login env i s r = (resp, s') \<Longrightarrow> hd_cfg (sr_handler s') = hd_cfg (sr_handler s) \<and> hd_auth (sr_handler s') = hd_auth (sr_handler s)"
  using login_public by fastforce

lemma serve_keeps_sessions:
  assumes "serve env i s r = (resp, s')" "counts_only (in_others i)" "0 < au_ttl (hd_auth (sr_handler s))"
  shows "hd_cfg (sr_handler s') = hd_cfg (sr_handler s) \<and> hd_auth (sr_handler s') = hd_auth (sr_handler s) \<and>
    session_kept env (hd_auth (sr_handler s)) (i, r, resp) (hd_store (sr_handler s)) (hd_store (sr_handler s'))"
proof (rule serve_dispatch [OF assms(1)])
  fix d
  assume d: "dispatch env i s r = (d, s')" "rs_status resp = rs_status d"
  have entry: "issued env a (i, r, resp) t x = issued env a (i, r, d) t x" "logged_out env a (i, r, resp) t = logged_out env a (i, r, d) t"
    for a t x by (simp_all add: issued_def logged_out_def d(2))
  consider (login) "route (ar_method r) (ar_path r) = Login" | (logout) "route (ar_method r) (ar_path r) = Logout"
    | (other) "route (ar_method r) (ar_path r) \<noteq> Login" "route (ar_method r) (ar_path r) \<noteq> Logout" by blast
  then show ?thesis
  proof cases
    case login
    with d(1) have h: "handle_login env i s r = (d, s')" by (simp add: dispatch_def)
    from handle_login_fields [OF h] handle_login_store [OF h assms(3) login] login show ?thesis
      by (auto simp: session_kept_def entry logged_out_def)
  next
    case logout
    with d(1) have h: "handle_logout env i s r = (d, s')" by (simp add: dispatch_def)
    obtain who s1 where q: "request_session env i s r = (who, s1)" by fastforce
    from h q have "hd_cfg (sr_handler s') = hd_cfg (sr_handler s)" "hd_auth (sr_handler s') = hd_auth (sr_handler s)"
      by (auto simp: handle_logout_def Let_def request_session_store [OF q] split: option.split_asm prod.split_asm)
    with handle_logout_store [OF h logout] show ?thesis by (auto simp: session_kept_def entry)
  next
    case other
    from other have n: "\<not> logged_out env a (i, r, d) t" for a t by (simp add: logged_out_def)
    from dispatch_other_store [OF d(1) assms(2) other] show ?thesis
    proof
      assume "s' = s"
      with n show ?thesis by (simp add: session_kept_def entry)
    next
      assume "same_but_counts ((sr_handler s)\<lparr>hd_store := looked_up env i s r\<rparr>) (sr_handler s')"
      from same_but_counts_fields [OF this] n show ?thesis
        by (auto simp: session_kept_def entry dest: lookup_store(1))
    qed
  qed
qed

section \<open>What may come between two requests\<close>

text \<open>What happens in a server between two requests of a client: requests of anyone, and the cleaning of the session store.\<close>

datatype meanwhile = Served inputs api_request | Cleaned int

fun after_all :: "('g, 'c, 'db) server_env \<Rightarrow> 'db server \<Rightarrow> meanwhile list \<Rightarrow> 'db server" where
  "after_all env s [] = s"
| "after_all env s (Served i r # es) = after_all env (snd (serve env i s r)) es"
| "after_all env s (Cleaned now # es) = after_all env (clean_store now s) es"

text \<open>
  An event that spares a session: it is not after the end \<open>until\<close> of the session, it is no logout with the signed
  cookie of its token and draws no token equal to it.
\<close>

fun spares :: "('g, 'c, 'db) server_env \<Rightarrow> authenticator \<Rightarrow> string \<Rightarrow> int \<Rightarrow> meanwhile \<Rightarrow> bool" where
  "spares env a token until (Served i r) \<longleftrightarrow>
     in_now i \<le> until \<and> counts_only (in_others i) \<and> map_option b64_encode (in_rnd i) \<noteq> Some token \<and>
     (route (ar_method r) (ar_path r) = Logout \<longrightarrow>
        Option.bind (hr_cookie r) (verify_token (we_crypto (se_ws env)) a) \<noteq> Some token)"
| "spares env a token until (Cleaned now) \<longleftrightarrow> now \<le> until"

lemma clean_store_fields:
  "hd_cfg (sr_handler (clean_store now s)) = hd_cfg (sr_handler s)" "hd_auth (sr_handler (clean_store now s)) = hd_auth (sr_handler s)"
  "as_sessions (hd_store (sr_handler (clean_store now s))) t = Some x \<Longrightarrow> as_sessions (hd_store (sr_handler s)) t = Some x"
  by (auto simp: clean_store_def cleanup_tick_def split: option.split_asm if_split_asm)

lemma only_expired_lost_live:
  "only_expired_lost now st st' \<Longrightarrow> as_sessions st t = Some x \<Longrightarrow> now \<le> si_expires x \<Longrightarrow> as_sessions st' t = Some x"
  unfolding only_expired_lost_def by (metis leD option.inject)

lemma looked_up_live:
  "as_sessions (hd_store (sr_handler s)) t = Some x \<Longrightarrow> in_now i \<le> si_expires x \<Longrightarrow> as_sessions (looked_up env i s r) t = Some x"
  by (rule only_expired_lost_live [OF lookup_loses_expired])

lemma login_spares:
  assumes "login c a st username password remember rnd now now2 = (res, st')" "map_option b64_encode rnd \<noteq> Some t"
  shows "as_sessions st' t = as_sessions st t"
  using assms by (auto simp: login_def store_create_def store_insert_def Let_def split: sum.split_asm if_split_asm option.split_asm)

lemma serve_spares:
  assumes "spares env (hd_auth (sr_handler s)) t until (Served i r)" "as_sessions (hd_store (sr_handler s)) t = Some x" "until \<le> si_expires x"
    and "serve env i s r = (resp, s')"
  shows "as_sessions (hd_store (sr_handler s')) t = Some x"
proof (rule serve_dispatch [OF assms(4)])
  fix d
  assume d: "dispatch env i s r = (d, s')"
  have live: "as_sessions (looked_up env i s r) t = Some x" by (rule looked_up_live [OF assms(2)]) (use assms(1,3) in simp)
  consider (login) "route (ar_method r) (ar_path r) = Login" | (logout) "route (ar_method r) (ar_path r) = Logout"
    | (other) "route (ar_method r) (ar_path r) \<noteq> Login" "route (ar_method r) (ar_path r) \<noteq> Logout" by blast
  then show ?thesis
  proof cases
    case login
    with d have "handle_login env i s r = (d, s')" by (simp add: dispatch_def)
    with assms(1,2) show ?thesis
      by (auto simp: handle_login_def Let_def split: if_split_asm option.split_asm prod.split_asm sum.split_asm dest: login_spares)
  next
    case logout
    with d have h: "handle_logout env i s r = (d, s')" by (simp add: dispatch_def)
    obtain who s1 where q: "request_session env i s r = (who, s1)" by fastforce
    note s1 = request_session_store [OF q]
    from assms(1) logout have "Option.bind (hr_cookie r) (verify_token (we_crypto (se_ws env)) (hd_auth (sr_handler s))) \<noteq> Some t" by simp
    then have "as_sessions (snd (logout (we_crypto (se_ws env)) (hd_auth (sr_handler s)) (looked_up env i s r) (hr_cookie r))) t = Some x"
      using live by (auto simp: logout_def store_delete_def split: option.split)
    with h q live show ?thesis
      by (cases who) (auto simp: handle_logout_def Let_def s1 split: prod.split_asm)
  next
    case other
    from dispatch_other_store [OF d _ other] assms(1) have
      "s' = s \<or> same_but_counts ((sr_handler s)\<lparr>hd_store := looked_up env i s r\<rparr>) (sr_handler s')" by simp
    with assms(2) live show ?thesis by (auto dest: same_but_counts_fields)
  qed
qed

lemma serve_auth:
  assumes "serve env i s r = (resp, s')" "counts_only (in_others i)"
  shows "hd_auth (sr_handler s') = hd_auth (sr_handler s)"
proof (rule serve_dispatch [OF assms(1)])
  fix d
  assume d: "dispatch env i s r = (d, s')"
  consider (login) "route (ar_method r) (ar_path r) = Login" | (logout) "route (ar_method r) (ar_path r) = Logout"
    | (other) "route (ar_method r) (ar_path r) \<noteq> Login" "route (ar_method r) (ar_path r) \<noteq> Logout" by blast
  then show ?thesis
  proof cases
    case login
    with d have "handle_login env i s r = (d, s')" by (simp add: dispatch_def)
    from handle_login_fields [OF this] show ?thesis by blast
  next
    case logout
    with d have h: "handle_logout env i s r = (d, s')" by (simp add: dispatch_def)
    obtain who s1 where q: "request_session env i s r = (who, s1)" by fastforce
    from h q show ?thesis
      by (auto simp: handle_logout_def Let_def request_session_store [OF q] split: option.split_asm prod.split_asm)
  next
    case other
    from dispatch_other_store [OF d assms(2) other] show ?thesis by (auto dest: same_but_counts_fields)
  qed
qed

lemma spared_session:
  assumes "list_all (spares env (hd_auth (sr_handler s)) t until) es" "as_sessions (hd_store (sr_handler s)) t = Some x" "until \<le> si_expires x"
  shows "as_sessions (hd_store (sr_handler (after_all env s es))) t = Some x \<and> hd_auth (sr_handler (after_all env s es)) = hd_auth (sr_handler s)"
  using assms
proof (induction es arbitrary: s)
  case (Cons e es)
  show ?case
  proof (cases e)
    case (Served i r)
    obtain resp s' where s': "serve env i s r = (resp, s')" by fastforce
    from Cons.prems Served have sp: "spares env (hd_auth (sr_handler s)) t until (Served i r)" by simp
    then have a: "hd_auth (sr_handler s') = hd_auth (sr_handler s)" using serve_auth [OF s'] by simp
    from Cons.IH [of s'] Cons.prems serve_spares [OF sp Cons.prems(2,3) s'] show ?thesis by (simp add: Served s' a)
  next
    case (Cleaned now)
    have "as_sessions (hd_store (sr_handler (clean_store now s))) t = Some x"
      using Cons.prems Cleaned by (simp add: clean_store_def cleanup_tick_def)
    with Cons.IH [of "clean_store now s"] Cons.prems show ?thesis by (simp add: Cleaned clean_store_fields(2))
  qed
qed simp

section \<open>Sessions over a life\<close>

text \<open>A session is accounted for by the log: a login gave it, and no logout since has taken it back.\<close>

definition accounted ::
  "('g, 'c, 'db) server_env \<Rightarrow> authenticator \<Rightarrow> (inputs \<times> api_request \<times> response) list \<Rightarrow> string \<Rightarrow> session_info \<Rightarrow> bool" where
  "accounted env a entries t x \<longleftrightarrow>
     (\<exists>later entry earlier. entries = later @ entry # earlier \<and> issued env a entry t x \<and>
        list_all (\<lambda>y. \<not> logged_out env a y t) later)"

lemma accounted_new: "issued env a entry t x \<Longrightarrow> accounted env a (entry # entries) t x"
  unfolding accounted_def by (intro exI [of _ "[]"] exI [of _ entry] exI [of _ entries]) simp

lemma accounted_later: "accounted env a entries t x \<Longrightarrow> \<not> logged_out env a entry t \<Longrightarrow> accounted env a (entry # entries) t x"
  unfolding accounted_def by (metis append_Cons list.pred_inject(2))

definition life_ok :: "('g, 'c, 'db) server_env \<Rightarrow> config \<Rightarrow> authenticator \<Rightarrow> 'db life \<Rightarrow> bool" where
  "life_ok env cfg a l \<longleftrightarrow>
     (let h = sr_handler (lf_server l) in
      hd_cfg h = cfg \<and> hd_auth h = a \<and> (\<forall>t x. as_sessions (hd_store h) t = Some x \<longrightarrow> accounted env a (lf_log l) t x))"

lemma life_step_ok:
  assumes "life_step env l l'" "0 < au_ttl a" "life_ok env cfg a l"
  shows "life_ok env cfg a l'"
  using assms(1)
proof cases
  case (request i r resp s)
  have h: "hd_auth (sr_handler (lf_server l)) = a" "hd_cfg (sr_handler (lf_server l)) = cfg"
    "\<And>t x. as_sessions (hd_store (sr_handler (lf_server l))) t = Some x \<Longrightarrow> accounted env a (lf_log l) t x"
    using assms(3) by (simp_all add: life_ok_def Let_def)
  from serve_keeps_sessions [OF request(5,4)] assms(2) h(1,2) have
    s: "hd_cfg (sr_handler s) = cfg" "hd_auth (sr_handler s) = a"
      "session_kept env a (i, r, resp) (hd_store (sr_handler (lf_server l))) (hd_store (sr_handler s))" by simp_all
  from s(3) h(3) have "as_sessions (hd_store (sr_handler s)) t = Some x \<Longrightarrow> accounted env a ((i, r, resp) # lf_log l) t x" for t x
    unfolding session_kept_def by (blast intro: accounted_new accounted_later)
  with s show ?thesis by (simp add: life_ok_def request(1))
next
  case (clean_up now)
  with assms(3) show ?thesis by (auto simp: life_ok_def Let_def clean_store_fields(1,2) dest: clean_store_fields(3))
qed (use assms(3) in \<open>simp_all add: life_ok_def\<close>)

lemma boot_server:
  assumes "server_boot pd e argv = BootRunning r"
  obtains path listen where "start_server e path listen = Inr r"
  using assms by (auto simp: server_boot_def split: sum.split_asm prod.split_asm if_split_asm)

lemma new_life_ok:
  assumes "start_server e path listen = Inr r"
  shows "life_ok env (hd_cfg (sr_handler (rg_server r))) (start_authenticator (hd_cfg (sr_handler (rg_server r)))) (new_life r)"
    and "0 < au_ttl (start_authenticator (hd_cfg (sr_handler (rg_server r))))"
proof (atomize (full), rule start_server_Inr [OF assms])
  fix cfg v policy
  assume "load_config e path listen = Inr cfg" "rg_server r = new_server (new_handler cfg policy) v"
  with load_config_Inr(1) show "life_ok env (hd_cfg (sr_handler (rg_server r))) (start_authenticator (hd_cfg (sr_handler (rg_server r)))) (new_life r) \<and>
      0 < au_ttl (start_authenticator (hd_cfg (sr_handler (rg_server r))))"
    by (auto simp: life_ok_def new_life_def new_server_def new_handler_def new_store_def start_authenticator_def
        config_valid_def limits_positive_def)
qed

section \<open>Properties\<close>

text \<open>
  C7: over the whole life of a server, whoever is authenticated holds one of two cookies. A remembered one opens under
  the key derived from the session secret. A signed one carries a token that a login of this life gave, for the user
  and password of the configuration and not longer ago than a session lasts, and that no logout since has taken back.
\<close>

theorem authenticated_by_login:
  assumes "server_boot pd e argv = BootRunning r" "life_reach (st_server e) (new_life r) l"
    and "who_asks (st_server e) i (lf_server l) req = Some info"
  shows "\<exists>v. hr_cookie req = Some v \<and>
    (let env = st_server e; c = we_crypto (se_ws env); a = start_authenticator (hd_cfg (sr_handler (rg_server r))) in
     if has_prefix v persistent_prefix then open_persistent_session c a v (in_now i) = Some info
     else \<exists>t. verify_token c a v = Some t \<and> in_now i \<le> si_expires info \<and> accounted env a (lf_log l) t info)"
proof (rule boot_server [OF assms(1)])
  fix path listen
  assume start: "start_server e path listen = Inr r"
  let ?cfg = "hd_cfg (sr_handler (rg_server r))"
  let ?a = "start_authenticator ?cfg"
  from assms(2) have ok: "life_ok (st_server e) ?cfg ?a l"
    by (induction rule: rtranclp_induct) (blast intro: new_life_ok [OF start] life_step_ok)+
  then have a: "hd_auth (sr_handler (lf_server l)) = ?a" and
    acc: "\<And>t x. as_sessions (hd_store (sr_handler (lf_server l))) t = Some x \<Longrightarrow> accounted (st_server e) ?a (lf_log l) t x"
    by (simp_all add: life_ok_def Let_def)
  obtain v where v: "hr_cookie req = Some v" using assms(3) by (cases "hr_cookie req") (simp_all add: session_from_request_def)
  with assms(3) acc show ?thesis
    by (auto simp: session_from_request_def a Let_def store_get_def split: if_split_asm option.split_asm)
qed

section \<open>Witnesses\<close>

definition first_life :: "memory_db life" where
  "first_life = (case server_boot (\<lambda>_. None) sample_start [''--listen'', '':9090''] of
     BootRunning r \<Rightarrow> (new_life r)\<lparr>lf_bound := True\<rparr> | BootExit n \<Rightarrow> undefined)"

definition boot_login_body :: bytes where
  "boot_login_body = object_text [(''password'', json_quote ''hunter2''), (''username'', json_quote ''admin'')]"

definition login_reply :: "response \<times> memory_db server" where
  "login_reply = serve sample_server_env sample_inputs (lf_server first_life) (sample_api None ''POST'' ''/api/login'' boot_login_body)"

definition login_value :: string where
  "login_value = (case rs_cookies (fst login_reply) of [] \<Rightarrow> [] | ck # _ \<Rightarrow> ck_value ck)"

definition signed_in :: string where
  "signed_in = ''eHh4eHh4eHh4eHh4eHh4eHh4eHh4eHh4eHh4eHh4eHg.ZUhoNGVIaDRlSGg0ZUhoNDAxMjM0NTY3ODlhYmNkZWY''"

definition later_request :: api_request where
  "later_request = sample_api (Some signed_in) ''GET'' ''/api/session'' []"

lemma login_gives_cookie: "login_value = signed_in" "\<not> has_prefix signed_in persistent_prefix"
  by code_simp+

lemma login_authenticates:
  "map_option si_username (who_asks sample_server_env sample_inputs (snd login_reply) later_request) = Some ''admin''"
  by code_simp

lemma sample_boots:
  "case server_boot (\<lambda>_. None) sample_start [''--listen'', '':9090''] of BootRunning r \<Rightarrow> True | BootExit n \<Rightarrow> False"
  by code_simp

theorem authenticated_by_login_witness:
  "\<exists>t info. verify_token sample_crypto (start_authenticator (hd_cfg (sr_handler (lf_server first_life)))) login_value = Some t \<and>
     accounted sample_server_env (start_authenticator (hd_cfg (sr_handler (lf_server first_life))))
       [(sample_inputs, sample_api None ''POST'' ''/api/login'' boot_login_body, fst login_reply)] t info \<and> si_username info = ''admin''"
proof -
  let ?r = "sample_api None ''POST'' ''/api/login'' boot_login_body"
  let ?l = "first_life\<lparr>lf_server := snd login_reply, lf_log := [(sample_inputs, ?r, fst login_reply)]\<rparr>"
  obtain r where b: "server_boot (\<lambda>_. None) sample_start [''--listen'', '':9090''] = BootRunning r"
    using sample_boots by (cases "server_boot (\<lambda>_. None) sample_start [''--listen'', '':9090'']") simp_all
  then have f: "first_life = (new_life r)\<lparr>lf_bound := True\<rparr>" by (simp add: first_life_def)
  then have srv: "lf_server first_life = rg_server r" "lf_phase first_life = Running" "lf_bound first_life" "lf_log first_life = []"
    by (simp_all only: f new_life_def life.simps)
  have e: "st_server sample_start = sample_server_env" by (simp add: sample_start_def)
  have "life_step (st_server sample_start) (new_life r) first_life"
    unfolding f by (rule listen_ok) (simp_all add: new_life_def)
  moreover have "life_step (st_server sample_start) first_life ?l"
    using request [of first_life sample_inputs "st_server sample_start" ?r "fst login_reply" "snd login_reply"] srv
    by (simp add: e counts_only_def same_but_counts_def sample_inputs_def login_reply_def)
  ultimately have reach: "life_reach (st_server sample_start) (new_life r) ?l" by simp
  obtain info where i: "who_asks sample_server_env sample_inputs (snd login_reply) later_request = Some info" "si_username info = ''admin''"
    using login_authenticates by blast
  from i(1) have "who_asks (st_server sample_start) sample_inputs (lf_server ?l) later_request = Some info" by (simp add: e)
  from authenticated_by_login [OF b reach this] i(2) login_gives_cookie show ?thesis
    by (auto simp: later_request_def sample_api_def e srv Let_def sample_server_env_def sample_ws_def)
qed

end
