(* ===== verification/Cli_Tunnel.thy ===== *)
theory Cli_Tunnel
  imports Ws_Tunnel Cli_Options
begin

text \<open>
  \<^verbatim>\<open>internal/cli/tunnel.go\<close>: the client's end of the tunnel, between standard input and output and the
  WebSocket, and its composition with the server's relay. The reads of standard input are a list of what each gave.
\<close>

section \<open>Data\<close>

datatype read_end = More | Eof | ReadFailed

datatype relay_error = RelayEof | RelayCanceled | RelayCloseError int | RelayMessage string string | RelayFailed

section \<open>Options\<close>

text \<open>What \<^verbatim>\<open>RunTunnel\<close> requires and fills in before it connects.\<close>

definition check_tunnel_options :: "cli_options \<Rightarrow> cli_error + cli_options" where
  "check_tunnel_options opt0 =
    (let opt = opt0\<lparr>co_timeout := (if co_timeout opt0 \<le> 0 then 45 * second else co_timeout opt0),
                    co_user_agent := (if co_user_agent opt0 = [] then ''go-webssh-cli'' else co_user_agent opt0)\<rparr> in
     if trim_space (co_server_url opt) = [] then Inl (CliError ''WebSSH URL is required (--url or GOWEBSSH_URL)'')
     else if trim_space (co_web_user opt) = [] then Inl (CliError ''WebSSH username is required (--web-user or GOWEBSSH_USERNAME)'')
     else if co_web_password opt = []
     then Inl (CliError ''WebSSH password is required in --stdio mode (set GOWEBSSH_PASSWORD or --web-password)'')
     else
       let opt = opt\<lparr>co_host := trim_space (co_host opt)\<rparr> in
       if co_host opt = [] then Inl (CliError ''tunnel destination host is required'')
       else
         let opt = (if co_port opt = 0 then opt\<lparr>co_port := 22\<rparr> else opt) in
         if co_port opt < 1 \<or> co_port opt > 65535
         then Inl (CliError ''tunnel destination port must be between 1 and 65535'')
         else Inr opt)"

section \<open>Waiting for the server\<close>

definition coded_message :: "string \<times> string \<Rightarrow> string \<Rightarrow> string" where
  "coded_message e fallback =
    (case e of (code, msg0) \<Rightarrow>
       let msg = (if msg0 = [] then fallback else msg0) in
       if code \<noteq> [] then code @ '': '' @ msg else msg)"

fun wait_tunnel_connected :: "frame list \<Rightarrow> string + frame list" where
  "wait_tunnel_connected [] = Inl ''waiting for tunnel''"
| "wait_tunnel_connected (ReadError # fs) = Inl ''waiting for tunnel''"
| "wait_tunnel_connected (Frame mt payload # fs) =
     (if mt \<noteq> TextFrame then wait_tunnel_connected fs
      else (case decode_message payload of
        None \<Rightarrow> wait_tunnel_connected fs
      | Some (ty, raw) \<Rightarrow>
          if ty = ''tunnel-connected'' then Inr fs
          else if ty = ''error'' then Inl (coded_message (decode_error raw) ''tunnel connection failed'')
          else wait_tunnel_connected fs))"

section \<open>The two directions\<close>

definition tunnel_connect_message :: "string \<Rightarrow> int \<Rightarrow> bytes" where
  "tunnel_connect_message host port = encode_message ''tunnel-connect'' (tunnel_text host port)"

definition tunnel_eof_message :: bytes where
  "tunnel_eof_message = encode_message ''tunnel-eof'' []"

text \<open>
  \<open>sent\<close> tells which messages can be written. The result is the messages written and the error the
  loop returned, if any; end of input is announced to the server and is no error.
\<close>

fun copy_tunnel_input ::
  "(frame \<Rightarrow> bool) \<Rightarrow> (bytes \<times> read_end) list \<Rightarrow> frame list \<times> relay_error option" where
  "copy_tunnel_input sent [] = ([], Some RelayFailed)"
| "copy_tunnel_input sent ((data, e) # reads) =
     (let chunk = take (32 * 1024) data; m = Frame BinaryFrame chunk in
      if chunk \<noteq> [] \<and> \<not> sent m then ([], Some RelayFailed)
      else
        let out = (if chunk \<noteq> [] then [m] else []) in
        (case e of
           More \<Rightarrow> (case copy_tunnel_input sent reads of (out', r) \<Rightarrow> (out @ out', r))
         | ReadFailed \<Rightarrow> (out, Some RelayFailed)
         | Eof \<Rightarrow>
             let eof = Frame TextFrame (tunnel_eof_message) in
             if sent eof then (out @ [eof], None) else (out, Some RelayFailed)))"

definition write_full :: "(bytes \<Rightarrow> 's \<Rightarrow> nat \<times> bool \<times> 's) \<Rightarrow> bytes \<Rightarrow> 's \<Rightarrow> write_result \<times> 's" where
  "write_full wr payload s = write_all wr payload s"

text \<open>\<open>err\<close> is the error of the \<^verbatim>\<open>ReadMessage\<close> that fails in the end.\<close>

fun copy_tunnel_output :: "relay_error \<Rightarrow> frame list \<Rightarrow> connection \<Rightarrow> relay_error \<times> connection" where
  "copy_tunnel_output err [] out = (err, out)"
| "copy_tunnel_output err (ReadError # fs) out = (err, out)"
| "copy_tunnel_output err (Frame mt payload # fs) out =
     (case mt of
        BinaryFrame \<Rightarrow>
          (case write_full conn_write payload out of
             (WriteOk, out') \<Rightarrow> copy_tunnel_output err fs out'
           | (_, out') \<Rightarrow> (RelayFailed, out'))
      | TextFrame \<Rightarrow>
          (case decode_message payload of
             None \<Rightarrow> (RelayFailed, out)
           | Some (ty, raw) \<Rightarrow>
               if ty = ''error'' then (case decode_error raw of (code, msg) \<Rightarrow> (RelayMessage code msg, out))
               else copy_tunnel_output err fs out)
      | OtherFrame \<Rightarrow> copy_tunnel_output err fs out)"

text \<open>How \<^verbatim>\<open>relayTunnel\<close> reports the first error of the two loops.\<close>

fun relay_tunnel_result :: "relay_error option \<Rightarrow> relay_error option" where
  "relay_tunnel_result None = None"
| "relay_tunnel_result (Some RelayEof) = None"
| "relay_tunnel_result (Some RelayCanceled) = None"
| "relay_tunnel_result (Some (RelayCloseError code)) = (if code = 1000 \<or> code = 1001 then None else Some (RelayCloseError code))"
| "relay_tunnel_result (Some e) = Some e"

section \<open>Client and server together\<close>

text \<open>The server reads what the client writes.\<close>

lemma eof_read: "decode_message tunnel_eof_message = Some (''tunnel-eof'', [])" "length tunnel_eof_message \<le> 256 * 1024"
  using decode_encode_message [of "''tunnel-eof''" "[]" "[]"] by (simp_all add: tunnel_eof_message_def) code_simp

lemma request_read:
  assumes "int64 port" "utf8_valid host"
  shows "decode_message (tunnel_connect_message host port) = Some (''tunnel-connect'', tunnel_text host port)"
    "decode_tunnel (tunnel_text host port) = Some (host, port)"
proof -
  have "value_text (max_nesting - 1) (tunnel_text host port)"
    by (simp add: tunnel_text_def) (rule value_text_object, simp_all add: max_nesting_def)
  then show "decode_message (tunnel_connect_message host port) = Some (''tunnel-connect'', tunnel_text host port)"
    using decode_encode_message [of "''tunnel-connect''" "tunnel_text host port" "[]"] by (simp add: tunnel_connect_message_def)
  show "decode_tunnel (tunnel_text host port) = Some (host, port)"
    using assms decode_tunnel_text [of port host] by (simp add: int64_def utf8_valid_replace)
qed

lemma relay_reach_frames:
  assumes "relay_reach x (True, r)" "kn_plan (rl_target r) = []"
    and "list_all (\<lambda>f. (\<exists>p. f = Frame BinaryFrame p \<and> length p \<le> 256 * 1024) \<or>
        (\<exists>p raw. f = Frame TextFrame p \<and> length p \<le> 256 * 1024 \<and> decode_message p = Some (''tunnel-eof'', raw))) (rl_frames r)"
  shows "\<exists>r'. relay_reach x (True, r') \<and> rl_frames r' = []"
  using assms
proof (induction "rl_frames r" arbitrary: r)
  case Nil
  then show ?case by auto
next
  case (Cons f fs)
  note fr = Cons.hyps(2) [symmetric]
  have step: "relay_reach x (copy_client_step True f (r\<lparr>rl_frames := fs\<rparr>))"
    by (rule relay_next [OF Cons.prems(1) from_client [OF fr]])
  from Cons.prems(3) fr consider (binary) p where "f = Frame BinaryFrame p" "length p \<le> 256 * 1024"
    | (eof) p raw where "f = Frame TextFrame p" "length p \<le> 256 * 1024" "decode_message p = Some (''tunnel-eof'', raw)"
    by auto
  then obtain r1 where r1: "copy_client_step True f (r\<lparr>rl_frames := fs\<rparr>) = (True, r1)" "rl_frames r1 = fs"
    "kn_plan (rl_target r1) = []"
  proof cases
    case binary
    from write_all_unplanned [OF Cons.prems(2), of p] obtain t where
      "write_all conn_write p (rl_target r) = (WriteOk, t)" "kn_plan t = []" by blast
    with binary that show ?thesis by (auto simp: copy_client_step_def tunnel_max_message_bytes_def)
  next
    case eof
    with Cons.prems(2) that show ?thesis by (auto simp: copy_client_step_def tunnel_max_message_bytes_def)
  qed
  from Cons.prems(3) fr have "list_all (\<lambda>f. (\<exists>p. f = Frame BinaryFrame p \<and> length p \<le> 256 * 1024) \<or>
        (\<exists>p raw. f = Frame TextFrame p \<and> length p \<le> 256 * 1024 \<and> decode_message p = Some (''tunnel-eof'', raw))) (rl_frames r1)"
    by (simp add: r1(2))
  from Cons.hyps(1) [OF r1(2) [symmetric] step [unfolded r1(1)] r1(3) this] show ?case .
qed

text \<open>The server closes its side of the target exactly when it has read the announcement of the end.\<close>

lemma relay_half_closed:
  assumes "relay_reach (True, start_relay frames source plan) (True, r)" "frames = used @ rl_frames r"
  shows "rl_half_closed r \<longleftrightarrow> (\<exists>p. Frame TextFrame p \<in> set used)"
proof -
  have "\<exists>us. frames = us @ rl_frames s \<and> (rl_half_closed s \<longleftrightarrow> (\<exists>p. Frame TextFrame p \<in> set us))"
    if "relay_reach (True, start_relay frames source plan) y" "y = (True, s)" for y s
    using that
  proof (induction "(True, start_relay frames source plan)" y arbitrary: s rule: relay_reach.induct)
    case relay_start
    then show ?case by (intro exI [of _ "[]"]) (auto simp: start_relay_def)
  next
    case (relay_next y z)
    from relay_next(3) show ?case
    proof (cases rule: relay_step.cases)
      case (from_target s0 k err sent)
      with relay_next(2) [OF from_target(1)] relay_next(4) show ?thesis
        by (auto simp: copy_target_step_def Let_def split: if_split_asm)
    next
      case (from_client s0 f fs closed)
      from relay_next(2) [OF from_client(1)] obtain us where us: "frames = us @ f # fs"
        "rl_half_closed s0 \<longleftrightarrow> (\<exists>p. Frame TextFrame p \<in> set us)" by (auto simp: from_client(3))
      from from_client(2) relay_next(4) have step: "copy_client_step closed f (s0\<lparr>rl_frames := fs\<rparr>) = (True, s)" by simp
      then have "rl_frames s = fs \<and> (rl_half_closed s \<longleftrightarrow> rl_half_closed s0 \<or> (\<exists>p. f = Frame TextFrame p))"
      proof (cases "limit_frame f")
        case ReadError
        with step show ?thesis by (simp add: copy_client_step_def)
      next
        case (Frame mt p)
        then have f: "f = Frame mt p" by (cases f) (auto split: if_split_asm)
        from step Frame show ?thesis
          by (cases mt) (auto simp: copy_client_step_def f split: option.split_asm if_split_asm prod.split_asm write_result.split_asm)
      qed
      with us show ?thesis by (intro exI [of _ "us @ [f]"]) auto
    qed
  qed
  from this [OF assms(1) refl] assms(2) show ?thesis by auto
qed

text \<open>What standard input delivers before its end.\<close>

fun stdin_bytes :: "(bytes \<times> read_end) list \<Rightarrow> bytes" where
  "stdin_bytes [] = []"
| "stdin_bytes ((d, e) # reads) = d @ (if e = More then stdin_bytes reads else [])"

lemma copy_tunnel_input_frames:
  assumes "copy_tunnel_input sent reads = (frames, None)" "list_all (\<lambda>(d, e). length d \<le> 32 * 1024) reads"
  shows "\<exists>bins. frames = bins @ [Frame TextFrame (tunnel_eof_message)] \<and>
    list_all (\<lambda>f. \<exists>p. f = Frame BinaryFrame p \<and> length p \<le> 32 * 1024) bins \<and>
    concat (payloads bins) = stdin_bytes reads"
  using assms
proof (induction reads arbitrary: frames)
  case Nil
  then show ?case by simp
next
  case (Cons de reads)
  obtain d e where de: "de = (d, e)" by fastforce
  have d: "take 32768 d = d" using Cons.prems(2) de by simp
  let ?out = "if d \<noteq> [] then [Frame BinaryFrame d] else []"
  have out: "list_all (\<lambda>f. \<exists>p. f = Frame BinaryFrame p \<and> length p \<le> 32 * 1024) ?out" "concat (payloads ?out) = d"
    using Cons.prems(2) de by auto
  show ?case
  proof (cases e)
    case ReadFailed
    with Cons.prems(1) show ?thesis by (simp add: de d Let_def split: if_split_asm)
  next
    case Eof
    with Cons.prems(1) have "frames = ?out @ [Frame TextFrame (tunnel_eof_message)]"
      by (simp add: de d Let_def split: if_split_asm)
    with out Eof show ?thesis by (intro exI [of _ ?out]) (simp add: de)
  next
    case More
    obtain f' where f': "copy_tunnel_input sent reads = (f', None)" "frames = ?out @ f'"
      using Cons.prems(1) More by (auto simp: de d Let_def split: if_split_asm prod.split_asm)
    from Cons.IH [OF f'(1)] Cons.prems(2) obtain bins where
      b: "f' = bins @ [Frame TextFrame (tunnel_eof_message)]" "list_all (\<lambda>f. \<exists>p. f = Frame BinaryFrame p \<and> length p \<le> 32 * 1024) bins"
      "concat (payloads bins) = stdin_bytes reads"
      by auto
    with f'(2) out More show ?thesis by (intro exI [of _ "?out @ bins"]) (auto simp: de)
  qed
qed

section \<open>Properties\<close>

text \<open>
  C36: what goes into the client comes out at the target. When standard input was read to its end
  and sent, then in whatever order the server's two loops run the target gets no other bytes than
  those, in order; when the server, still relaying, has read everything the client sent, the target
  has all of them and its input is closed; and if the target takes what is written, that state is
  reached.
\<close>

theorem tunnel_carries_stdin:
  assumes "copy_tunnel_input sent reads = (frames, None)"
    and "list_all (\<lambda>(d, e). length d \<le> 32 * 1024) reads"
  shows "(\<forall>plan going r. relay_reach (True, start_relay frames source plan) (going, r) \<longrightarrow>
      prefix (kn_taken (rl_target r)) (stdin_bytes reads) \<and>
      (going \<and> rl_frames r = [] \<longrightarrow> kn_taken (rl_target r) = stdin_bytes reads \<and> rl_half_closed r)) \<and>
    (\<exists>r. relay_reach (True, start_relay frames source []) (True, r) \<and> rl_frames r = [])"
proof (intro conjI allI impI)
  from copy_tunnel_input_frames [OF assms] obtain bins where
    f: "frames = bins @ [Frame TextFrame (tunnel_eof_message)]" and
    b: "list_all (\<lambda>f. \<exists>p. f = Frame BinaryFrame p \<and> length p \<le> 32 * 1024) bins" and
    s: "concat (payloads bins) = stdin_bytes reads" by blast
  have all: "concat (payloads frames) = stdin_bytes reads" using s by (simp add: f)
  fix plan going r assume reach: "relay_reach (True, start_relay frames source plan) (going, r)"
  from relay_reach_ok [OF this] obtain used where u: "frames = used @ rl_frames r"
    "if going then kn_taken (rl_target r) = concat (payloads used)
     else prefix (kn_taken (rl_target r)) (concat (payloads used))"
    by (auto simp: relay_ok_def split: if_split_asm)
  have "prefix (concat (payloads used)) (concat (payloads frames))" by (simp add: u(1))
  with u(2) all show "prefix (kn_taken (rl_target r)) (stdin_bytes reads)"
    by (auto split: if_split_asm intro: prefix_order.trans)
  assume fin: "going \<and> rl_frames r = []"
  with fin u have whole: "used = frames" "kn_taken (rl_target r) = concat (payloads frames)" by auto
  with all show "kn_taken (rl_target r) = stdin_bytes reads" by simp
  from relay_half_closed [of frames source plan r frames] reach fin f show "rl_half_closed r" by auto
next
  from copy_tunnel_input_frames [OF assms] obtain bins where
    f: "frames = bins @ [Frame TextFrame (tunnel_eof_message)]" and
    b: "list_all (\<lambda>f. \<exists>p. f = Frame BinaryFrame p \<and> length p \<le> 32 * 1024) bins" by blast
  have "list_all (\<lambda>f. (\<exists>p. f = Frame BinaryFrame p \<and> length p \<le> 256 * 1024) \<or>
        (\<exists>p raw. f = Frame TextFrame p \<and> length p \<le> 256 * 1024 \<and> decode_message p = Some (''tunnel-eof'', raw))) frames"
    using b eof_read unfolding f list_all_append by (fastforce elim: list.pred_mono_strong)
  with relay_reach_frames [OF relay_start, of "start_relay frames source []"]
  show "\<exists>r. relay_reach (True, start_relay frames source []) (True, r) \<and> rl_frames r = []"
    by (simp add: start_relay_def fresh_connection_def)
qed

text \<open>
  The request the client sends is the one the server acts on: with options it accepted, the
  server's check of the message gives the destination host and port of the options, unless they
  exceed what the server allows, in which case it answers with that error.
\<close>

theorem tunnel_request_agrees:
  assumes "check_tunnel_options opt0 = Inr opt" "utf8_valid (co_host opt)"
  shows "tunnel_request h TextFrame (tunnel_connect_message (co_host opt) (co_port opt)) =
    (if length (co_host opt) > 253 then Inl (''INVALID_HOST'', ''host is required and must not exceed 253 characters'')
     else if co_port opt \<notin> set (tn_allowed_ports (c_tunnel (hd_cfg h)))
     then Inl (''TUNNEL_PORT_DENIED'', ''target port is not allowed for TCP tunnels'')
     else Inr (co_host opt, co_port opt))"
proof -
  have o: "trim_space (co_host opt) = co_host opt" "co_host opt \<noteq> []" "co_port opt \<noteq> 0" "0 \<le> co_port opt" "co_port opt \<le> 65535"
    using assms(1) by (auto simp: check_tunnel_options_def Let_def split: if_split_asm)
  from o(4,5) have "int64 (co_port opt)" by (simp add: int64_def)
  note read = request_read [OF this assms(2)]
  show ?thesis
    by (simp add: tunnel_request_def read Let_def o tunnel_port_allowed_def list_ex_iff)
qed

section \<open>Witnesses\<close>

theorem tunnel_carries_stdin_witness:
  "\<exists>r. relay_reach (True, start_relay
      (fst (copy_tunnel_input (\<lambda>_. True) [(''ab'', More), ([], More), (''c'', Eof)])) ''out'' []) (True, r) \<and>
    kn_taken (rl_target r) = ''abc'' \<and> rl_half_closed r"
proof -
  let ?reads = "[(''ab'', More), ([], More), (''c'', Eof)]"
  have i: "copy_tunnel_input (\<lambda>_. True) ?reads =
      (fst (copy_tunnel_input (\<lambda>_. True) ?reads), None)" by code_simp
  have l: "list_all (\<lambda>(d, e). length d \<le> 32 * 1024) ?reads" by simp
  note t = tunnel_carries_stdin [OF i l, of "''out''"]
  then obtain r where r: "relay_reach (True, start_relay
      (fst (copy_tunnel_input (\<lambda>_. True) ?reads)) ''out'' []) (True, r)" "rl_frames r = []" by blast
  with t have "kn_taken (rl_target r) = stdin_bytes ?reads \<and> rl_half_closed r" by blast
  with r(1) show ?thesis by (intro exI [of _ r]) simp
qed

theorem tunnel_request_agrees_witness:
  "tunnel_request tunnel_handler TextFrame (tunnel_connect_message ''db'' 22) = Inr (''db'', 22)"
proof -
  let ?o = "sample_options\<lparr>co_host := '' db ''\<rparr>"
  have "case check_tunnel_options ?o of Inl _ \<Rightarrow> False | Inr opt \<Rightarrow> co_host opt = ''db'' \<and> co_port opt = 22" by code_simp
  then obtain opt where o: "check_tunnel_options ?o = Inr opt" "co_host opt = ''db''" "co_port opt = 22"
    by (auto split: sum.split_asm)
  have v: "utf8_valid (co_host opt)" unfolding o(2) by code_simp
  have "tn_allowed_ports (c_tunnel (hd_cfg tunnel_handler)) = [22]"
    by (simp add: tunnel_handler_def sample_handler_def default_config_def)
  with tunnel_request_agrees [OF o(1) v, of tunnel_handler] o(2,3) show ?thesis by simp
qed

end
