(* ===== verification/Cli_Session.thy ===== *)
theory Cli_Session
  imports Cli_Tunnel
begin

text \<open>
  \<^verbatim>\<open>internal/cli/session.go\<close>, with \<^verbatim>\<open>waitConnected\<close> and \<^verbatim>\<open>clampSize\<close> of \<^verbatim>\<open>cli.go\<close>: the interactive session of the client.
  What the server sent is a list of frames, \<open>ReadError\<close> being the failed read that ends them; the
  bytes written to standard output are returned in order. What is typed is sent as the JSON text of
  \<^verbatim>\<open>Go_Json\<close>.
\<close>

section \<open>Data\<close>

datatype disconnect = WsClosed int string | ReadTimeout | PeerEof | Canceled | OtherDisconnect string

datatype session_stop = RemoteExit int string | SessionError string | StdoutFailed | ReadStopped disconnect

section \<open>Connecting\<close>

fun wait_connected :: "frame list \<Rightarrow> string + frame list" where
  "wait_connected [] = Inl ''waiting for connected''"
| "wait_connected (ReadError # fs) = Inl ''waiting for connected''"
| "wait_connected (Frame mt data # fs) =
     (if mt \<noteq> TextFrame \<and> mt \<noteq> BinaryFrame then wait_connected fs
      else if mt = BinaryFrame then wait_connected fs
      else (case decode_message data of
        None \<Rightarrow> wait_connected fs
      | Some (ty, raw) \<Rightarrow>
          if ty = ''connected'' then Inr fs
          else if ty = ''error'' then Inl (coded_message (decode_error raw) ''connect failed'')
          else if ty = ''closed'' then
            (let reason = fst (decode_closed raw) in Inl (if reason = [] then ''connection closed before connected'' else reason))
          else wait_connected fs))"

section \<open>What the server sends\<close>

text \<open>\<open>stdout_ok\<close> is the outcome of writing to standard output. The result is what was written and how the loop stops.\<close>

definition handle_text :: "(bytes \<Rightarrow> bool) \<Rightarrow> bytes \<Rightarrow> bytes list \<times> session_stop option" where
  "handle_text stdout_ok data =
    (case decode_message data of
       None \<Rightarrow> ([], None)
     | Some (ty, raw) \<Rightarrow>
         if ty = ''output'' then
           (case decode_string raw of
              None \<Rightarrow> ([], None)
            | Some t \<Rightarrow> if t = [] then ([], None) else if stdout_ok t then ([t], None) else ([], Some StdoutFailed))
         else if ty = ''error'' then ([], Some (SessionError (coded_message (decode_error raw) ''session error'')))
         else if ty = ''closed'' then
           (case decode_closed raw of (reason, status) \<Rightarrow>
              ([], Some (RemoteExit (case status of None \<Rightarrow> 0 | Some n \<Rightarrow> n) reason)))
         else ([], None))"

fun cli_read_loop :: "(bytes \<Rightarrow> bool) \<Rightarrow> disconnect \<Rightarrow> frame list \<Rightarrow> bytes list \<times> session_stop" where
  "cli_read_loop ok d [] = ([], ReadStopped d)"
| "cli_read_loop ok d (ReadError # fs) = ([], ReadStopped d)"
| "cli_read_loop ok d (Frame mt data # fs) =
     (case mt of
        BinaryFrame \<Rightarrow>
          if ok data then (case cli_read_loop ok d fs of (out, stop) \<Rightarrow> (data # out, stop)) else ([], StdoutFailed)
      | TextFrame \<Rightarrow>
          (case handle_text ok data of
             (out, Some stop) \<Rightarrow> (out, stop)
           | (out, None) \<Rightarrow> (case cli_read_loop ok d fs of (out', stop) \<Rightarrow> (out @ out', stop)))
      | OtherFrame \<Rightarrow> cli_read_loop ok d fs)"

section \<open>How it ends\<close>

fun describe_disconnect :: "disconnect option \<Rightarrow> string" where
  "describe_disconnect None = ''connection closed''"
| "describe_disconnect (Some (WsClosed code text)) =
     (if text \<noteq> [] then ''WebSocket closed (code '' @ itoa code @ ''): '' @ text
      else ''WebSocket closed (code '' @ itoa code @ '')'')"
| "describe_disconnect (Some ReadTimeout) = ''WebSocket read timeout''"
| "describe_disconnect (Some PeerEof) = ''peer closed the connection''"
| "describe_disconnect (Some Canceled) = ''connection canceled''"
| "describe_disconnect (Some (OtherDisconnect text)) = text"

fun describe_remote_exit :: "(int \<times> string) option \<Rightarrow> string" where
  "describe_remote_exit None = ''remote session closed''"
| "describe_remote_exit (Some (code, message)) =
     (if message = [] then ''remote session exited with status '' @ itoa code
      else if code \<noteq> 0 then message @ '' (exit status '' @ itoa code @ '')''
      else message)"

definition disconnect_notice :: "string \<Rightarrow> string" where
  "disconnect_notice reason =
    ''go-webssh-cli: disconnected: '' @ (if reason = [] then ''connection closed'' else reason) @ [CHR 0x0A]"

datatype relay_result = RelayDone string | RelayExit int string | RelayError string

text \<open>The end of \<^verbatim>\<open>relay\<close>: the notice printed, or the error returned. The read loop always returns an error; the
  text of a failed write to standard output is left out of it.\<close>

fun relay_end :: "session_stop \<Rightarrow> relay_result" where
  "relay_end (RemoteExit code message) =
     (if code = 0 then RelayDone (disconnect_notice (describe_remote_exit (Some (code, message)))) else RelayExit code message)"
| "relay_end (ReadStopped d) =
     (if (case d of WsClosed code _ \<Rightarrow> code = 1000 \<or> code = 1001 | PeerEof \<Rightarrow> True | Canceled \<Rightarrow> True | _ \<Rightarrow> False)
      then RelayDone (disconnect_notice (describe_disconnect (Some d)))
      else RelayError (''disconnected: '' @ describe_disconnect (Some d)))"
| "relay_end (SessionError text) = RelayError (''disconnected: '' @ text)"
| "relay_end StdoutFailed = RelayError ''disconnected: stdout''"

text \<open>The exit status of the program, of \<^verbatim>\<open>main\<close>.\<close>

fun exit_status :: "relay_result \<Rightarrow> int" where
  "exit_status (RelayDone _) = 0"
| "exit_status (RelayExit code _) = code"
| "exit_status (RelayError _) = 1"

section \<open>The input message\<close>

text \<open>\<^verbatim>\<open>EncodeMessage\<close> for the input message.\<close>

definition encode_input :: "bytes \<Rightarrow> bytes" where
  "encode_input s = encode_message ''input'' (json_quote s)"

lemma encode_input_text:
  "encode_input s =
    ''{'' @ json_quote ''type'' @ '':'' @ json_quote ''input'' @ '','' @ json_quote ''data'' @ '':'' @ json_quote s @ ''}''"
  by (simp add: encode_input_def encode_message_def object_text_def) (simp add: json_quote_def)

text \<open>The other messages of the session, of \<^verbatim>\<open>relay\<close> and \<^verbatim>\<open>keepAlive\<close>.\<close>

definition resize_message :: "int \<Rightarrow> int \<Rightarrow> bytes" where
  "resize_message cols rows = encode_message ''resize'' (resize_text cols rows)"

definition ping_message :: "int \<Rightarrow> bytes" where
  "ping_message millis = encode_message ''ping'' (itoa millis)"

section \<open>Standard input\<close>

definition max_input_bytes :: nat where
  "max_input_bytes = 32 * 1024"

text \<open>The messages sent, and whether the loop ended at the end of input.\<close>

fun copy_stdin :: "(bytes \<Rightarrow> bool) \<Rightarrow> (bytes \<times> read_end) list \<Rightarrow> bytes list \<times> bool" where
  "copy_stdin sent [] = ([], False)"
| "copy_stdin sent ((data, e) # reads) =
     (let chunk = take max_input_bytes data; m = encode_input chunk in
      if chunk \<noteq> [] \<and> \<not> sent m then ([], False)
      else
        let out = (if chunk \<noteq> [] then [m] else []) in
        (case e of
           More \<Rightarrow> (case copy_stdin sent reads of (out', r) \<Rightarrow> (out @ out', r))
         | Eof \<Rightarrow> (out, True)
         | ReadFailed \<Rightarrow> (out, False)))"

section \<open>Lemmas\<close>

lemma dec_string_length: "0 \<le> i \<Longrightarrow> i < 10 ^ Suc n \<Longrightarrow> length (dec_string i) \<le> Suc n"
proof (induction i arbitrary: n rule: dec_string.induct)
  case (1 i)
  show ?case
  proof (cases "i < 10")
    case True
    then show ?thesis by (subst dec_string.simps) simp
  next
    case False
    with 1(3) obtain m where m: "n = Suc m" by (cases n) auto
    from False 1(2,3) have "i div 10 < 10 ^ Suc m" "0 \<le> i div 10" by (simp_all add: m)
    with 1(1) [OF False, of m] have "length (dec_string (i div 10)) \<le> Suc m" by blast
    with False show ?thesis by (subst dec_string.simps) (simp add: m)
  qed
qed

lemma itoa_length: "0 \<le> i \<Longrightarrow> i < 10 ^ Suc n \<Longrightarrow> length (itoa i) \<le> Suc n"
  by (simp add: itoa_def dec_string_length del: power_Suc)

lemma encode_message_length:
  "length (encode_message typ raw) \<le> length (json_quote typ) + length raw + 19"
proof -
  have "length (json_quote ''type'') = 6" "length (json_quote ''data'') = 6" by code_simp+
  then show ?thesis by (simp add: encode_message_def object_text_def)
qed

lemma object_quote_length: "length (json_quote s) \<le> 6 * length s + 2"
  using json_escape_length [of s] by (simp add: json_quote_def)

text \<open>What the server makes of a resize and a ping.\<close>

lemma resize_read:
  assumes "20 \<le> cols" "cols \<le> 500" "5 \<le> rows" "rows \<le> 200"
  shows "decode_message (resize_message cols rows) = Some (''resize'', resize_text cols rows)"
    "decode_resize (resize_text cols rows) = Some (cols, rows)" "length (resize_message cols rows) \<le> 64 * 1024"
proof -
  have "value_text (max_nesting - 1) (resize_text cols rows)"
    by (simp add: resize_text_def) (rule value_text_object, simp_all add: max_nesting_def)
  then show "decode_message (resize_message cols rows) = Some (''resize'', resize_text cols rows)"
    using decode_encode_message [of "''resize''" "resize_text cols rows" "[]"] by (simp add: resize_message_def)
  show "decode_resize (resize_text cols rows) = Some (cols, rows)" using assms decode_resize_text [of cols rows] by simp
  have "length (itoa cols) \<le> 3" "length (itoa rows) \<le> 3" using assms itoa_length [of cols 2] itoa_length [of rows 2] by simp_all
  then have "length (resize_text cols rows) \<le> 100"
    using object_quote_length [of "''cols''"] object_quote_length [of "''rows''"] by (simp add: resize_text_def object_text_def)
  then show "length (resize_message cols rows) \<le> 64 * 1024"
    using encode_message_length [of "''resize''" "resize_text cols rows"] object_quote_length [of "''resize''"]
    by (simp add: resize_message_def)
qed

lemma ping_read:
  assumes "0 \<le> t" "t < 2 ^ 53"
  shows "decode_message (ping_message t) = Some (''ping'', itoa t)" "length (ping_message t) \<le> 64 * 1024"
proof -
  show "decode_message (ping_message t) = Some (''ping'', itoa t)"
    using decode_encode_message [of "''ping''" "itoa t" "[]"] by (simp add: ping_message_def)
  have "length (itoa t) \<le> 16" using assms itoa_length [of t 15] by simp
  then show "length (ping_message t) \<le> 64 * 1024"
    using encode_message_length [of "''ping''" "itoa t"] object_quote_length [of "''ping''"] by (simp add: ping_message_def)
qed

text \<open>What the client makes of a closing message.\<close>

lemma closing_text_read:
  assumes "utf8_valid reason" "case status of None \<Rightarrow> True | Some n \<Rightarrow> int64 n"
  shows "handle_text ok (session_text (ClosedMsg reason status)) = ([], Some (RemoteExit (case status of None \<Rightarrow> 0 | Some n \<Rightarrow> n) reason))"
proof -
  have "decode_message (session_text (ClosedMsg reason status)) = Some (reply_parts (ClosedMsg reason status))"
    by (rule decode_session_text(1)) simp
  moreover obtain d where d: "reply_parts (ClosedMsg reason status) = (''closed'', d)" by simp
  moreover have "decode_closed d = (reason, status)"
    using decode_closed_data [OF assms(2), of reason] assms(1) by (simp only: d snd_conv utf8_valid_replace)
  ultimately show ?thesis by (simp add: handle_text_def del: reply_parts.simps)
qed

lemma closing_read:
  assumes "case ended of ShellStatus n \<Rightarrow> int64 n | _ \<Rightarrow> True"
  shows "\<exists>reason. reason \<noteq> [] \<and> handle_text ok (session_text (closed_message ended)) =
    ([], Some (RemoteExit (case ended of ShellStatus n \<Rightarrow> n | _ \<Rightarrow> 0) reason))"
proof -
  obtain reason status where c: "closed_message ended = ClosedMsg reason status" "reason \<noteq> []" "utf8_valid reason"
    "case status of None \<Rightarrow> True | Some n \<Rightarrow> int64 n" "(case status of None \<Rightarrow> 0 | Some n \<Rightarrow> n) = (case ended of ShellStatus n \<Rightarrow> n | _ \<Rightarrow> 0)"
    using assms by (cases ended) (auto simp: int64_def)
  from closing_text_read [OF c(3,4), of ok] c show ?thesis by auto
qed

lemma encode_input_length: "length (encode_input s) \<le> 6 * length s + 26"
proof -
  have "length (encode_input s) = length (json_escape s) + 26"
  proof -
    have "length (json_escape ''type'') = 4" "length (json_escape ''input'') = 5" "length (json_escape ''data'') = 4"
      by code_simp+
    then show ?thesis by (simp add: encode_input_text json_quote_def)
  qed
  with json_escape_length [of s] show ?thesis by simp
qed

section \<open>Properties\<close>

text \<open>
  C37: what is typed or piped in reaches the server only in moderate pieces: a piece of up to 11259
  bytes always fits the server's limit for a message, but the client reads pieces of up to 32768
  bytes, JSON may write a byte in six, and a full piece of such bytes makes the server refuse the
  message and end the session.
\<close>

theorem input_may_overflow_message:
  "(\<forall>s. length s \<le> 11259 \<longrightarrow> length (encode_input s) \<le> 64 * 1024 + 2048) \<and>
   (let piece = replicate max_input_bytes CHR ''<''; m = encode_input piece in
      copy_stdin (\<lambda>_. True) [(piece, Eof)] = ([m], True) \<and>
      read_frame env write_ok (Frame TextFrame m) = (False, [ErrorMsg ''BAD_REQUEST'' ''message too large''], []))"
proof -
  let ?p = "replicate max_input_bytes CHR ''<''"
  have big: "64 * 1024 + 2048 < length (encode_input ?p)"
  proof -
    have "length (json_ascii CHR ''<'') = 6" by code_simp
    then have "length (json_escape ?p) = 6 * max_input_bytes"
      by (simp add: json_escape_repeat length_concat sum_list_replicate)
    then show ?thesis by (simp add: encode_input_text json_quote_def max_input_bytes_def)
  qed
  have "read_frame env write_ok (Frame TextFrame (encode_input ?p)) = (False, [ErrorMsg ''BAD_REQUEST'' ''message too large''], [])"
    unfolding read_frame_def frame.case using big by simp
  moreover have "copy_stdin (\<lambda>_. True) [(?p, Eof)] = ([encode_input ?p], True)"
    by (simp add: Let_def max_input_bytes_def)
  moreover have "length (encode_input s) \<le> 64 * 1024 + 2048" if "length s \<le> 11259" for s
    using encode_input_length [of s] that by simp
  ultimately show ?thesis by (simp add: Let_def max_input_bytes_def)
qed

text \<open>
  A piece of input that ends within a character loses it: the first byte of a two-byte
  character and its second byte are sent as the same message, the replacement character, so
  the server cannot tell what was typed, though the two bytes in one piece arrive intact.
\<close>

theorem split_character_lost:
  assumes "rune_len [a, b] = 2"
  shows "copy_stdin (\<lambda>_. True) [([a], More), ([b], Eof)] = ([encode_input [a], encode_input [b]], True) \<and>
    encode_input [a] = encode_input [b] \<and> json_quote [b] = CHR 0x22 # CHR 0x5C # ''ufffd'' @ [CHR 0x22] \<and>
    copy_stdin (\<lambda>_. True) [([a, b], Eof)] = ([encode_input [a, b]], True) \<and>
    json_quote [a, b] = [CHR 0x22, a, b, CHR 0x22]"
proof -
  have ab: "0xC2 \<le> byte a" "byte a \<le> 0xDF" "0x80 \<le> byte b" "byte b \<le> 0xBF"
    using assms by (auto simp: Let_def cont_byte_def split: if_split_asm)
  have "json_escape [a] = CHR 0x5C # ''ufffd''" "json_escape [b] = CHR 0x5C # ''ufffd''"
    using ab by (simp_all add: Let_def)
  moreover have "json_escape [a, b] = [a, b]"
    using ab assms by (simp del: rune_len.simps)
  ultimately show ?thesis by (simp add: Let_def max_input_bytes_def json_quote_def encode_input_text)
qed

text \<open>
  The sizes the client sends are sizes the server uses: a resize is applied as it is sent, and the
  size of a connect message that passes the server's checks is not replaced by a default.
\<close>

theorem client_sizes_accepted:
  assumes "clamp_size c r = (cols, rows)"
    and "ct_cols cd0 = cols" "ct_rows cd0 = rows" "prepare_connect cd0 rnd = Inr cd"
  shows "read_frame env write_ok (Frame TextFrame (resize_message cols rows)) = (True, [], [ChangeWindow rows cols]) \<and>
    ct_cols cd = cols \<and> ct_rows cd = rows \<and> 20 \<le> cols \<and> cols \<le> 500 \<and> 5 \<le> rows \<and> rows \<le> 200 \<and>
    (20 \<le> c \<and> c \<le> 500 \<longrightarrow> cols = c) \<and> (5 \<le> r \<and> r \<le> 200 \<longrightarrow> rows = r)"
proof -
  have b: "20 \<le> cols" "cols \<le> 500" "5 \<le> rows" "rows \<le> 200" and
    same: "20 \<le> c \<and> c \<le> 500 \<longrightarrow> cols = c" "5 \<le> r \<and> r \<le> 200 \<longrightarrow> rows = r"
    using assms(1) by (auto simp: clamp_size_def Let_def split: if_split_asm)
  note read = resize_read [OF b]
  have d: "\<not> 64 * 1024 + 2048 < length (resize_message cols rows)" "\<not> (rows < 5 \<or> rows > 200 \<or> cols < 20 \<or> cols > 500)"
    using read(3) b by simp_all
  have "read_frame env write_ok (Frame TextFrame (resize_message cols rows)) = (True, [], [ChangeWindow rows cols])"
    unfolding read_frame_def frame.case read(1,2) option.case prod.case if_not_P [OF d(1)] if_not_P [OF d(2)] by simp
  moreover have "ct_cols cd = cols \<and> ct_rows cd = rows"
    using assms(2-4) b unfolding prepare_connect_def Let_def
    by (auto simp: bind_result_Inr_iff split: if_split_asm)
  ultimately show ?thesis using b same by blast
qed

text \<open>
  The exit status: when the server reports how the shell ended and the client decodes it, the
  client exits with the shell's status, and with 0 when the server had none to report, as after a
  failure of the connection to the host.
\<close>

theorem exit_status_of_shell:
  assumes "case ended of ShellStatus n \<Rightarrow> int64 n | _ \<Rightarrow> True" "list_all (\<lambda>f. \<exists>b. f = Frame BinaryFrame b \<and> ok b) before"
  shows "exit_status (relay_end (snd (cli_read_loop ok d (before @ Frame TextFrame (session_text (closed_message ended)) # rest)))) =
      (case ended of ShellStatus n \<Rightarrow> n | _ \<Rightarrow> 0) \<and>
    fst (cli_read_loop ok d (before @ Frame TextFrame (session_text (closed_message ended)) # rest)) = payloads before"
proof -
  let ?n = "case ended of ShellStatus n \<Rightarrow> n | _ \<Rightarrow> 0" and ?m = "session_text (closed_message ended)"
  obtain reason where r: "reason \<noteq> []" "handle_text ok ?m = ([], Some (RemoteExit ?n reason))"
    using closing_read [OF assms(1), of ok] by blast
  have "cli_read_loop ok d (before @ Frame TextFrame ?m # rest) = (payloads before, RemoteExit ?n reason)"
    using assms(2)
  proof (induction before)
    case Nil
    with r(2) show ?case by simp
  next
    case (Cons f fs)
    then show ?case by auto
  qed
  with r(1) show ?thesis by simp
qed

section \<open>Witnesses\<close>

theorem input_may_overflow_message_witness:
  "length (encode_input ''ls'') \<le> 64 * 1024 + 2048"
  using input_may_overflow_message [THEN conjunct1] by simp

theorem split_character_lost_witness:
  "encode_input [CHR 0xC3] = encode_input [CHR 0xA9]"
proof -
  have "rune_len [CHR 0xC3, CHR 0xA9] = 2" by code_simp
  from split_character_lost [OF this] show ?thesis by blast
qed

theorem client_sizes_accepted_witness:
  "read_frame sample_ws (\<lambda>_. True) (Frame TextFrame (resize_message 500 5)) = (True, [], [ChangeWindow 5 500])"
proof -
  let ?cd = "(sample_connect ''h'')\<lparr>ct_cols := 500, ct_rows := 5\<rparr>"
  have p: "case prepare_connect ?cd [] of Inl _ \<Rightarrow> False | Inr _ \<Rightarrow> True" by code_simp
  then obtain cd where cd: "prepare_connect ?cd [] = Inr cd" by (auto split: sum.split_asm)
  have m: "clamp_size 1000 0 = (500, 5)" "ct_cols ?cd = 500" "ct_rows ?cd = 5" by (simp_all add: clamp_size_def)
  from client_sizes_accepted [OF m cd] show ?thesis by blast
qed

theorem exit_status_of_shell_witness:
  "exit_status (relay_end (snd (cli_read_loop (\<lambda>_. True) PeerEof
     ([Frame BinaryFrame ''out''] @ Frame TextFrame (session_text (closed_message (ShellStatus 3))) # [])))) = 3"
proof -
  have i: "case ShellStatus 3 of ShellStatus n \<Rightarrow> int64 n | _ \<Rightarrow> True" by (simp add: int64_def)
  have b: "list_all (\<lambda>f. \<exists>b. f = Frame BinaryFrame b \<and> (\<lambda>_. True) b) [Frame BinaryFrame ''out'']" by simp
  from exit_status_of_shell [OF i b, of PeerEof "[]"] show ?thesis by simp
qed

end
