(* ===== verification/Cli_Terminal.thy ===== *)
theory Cli_Terminal
  imports Cli_Session "HOL-Library.Word"
begin

unbundle bit_operations_syntax

text \<open>
  The terminal of the client: \<^verbatim>\<open>internal/cli/term.go\<close> and \<^verbatim>\<open>term_windows.go\<close>, the part of \<^verbatim>\<open>relay\<close> (\<^verbatim>\<open>session.go\<close>) that
  switches it to raw mode and back, and \<^verbatim>\<open>promptSecret\<close> of \<^verbatim>\<open>cli.go\<close>. The values of the flags are constants of the platform and
  come as a record; a terminal is its mode with the outcomes of the coming calls that set it.
\<close>

section \<open>Unix terminals\<close>

record termios =
  tm_iflag :: "32 word"
  tm_oflag :: "32 word"
  tm_cflag :: "32 word"
  tm_lflag :: "32 word"
  tm_cc :: "8 word list"

record termios_flags =
  tf_ignbrk :: "32 word"
  tf_brkint :: "32 word"
  tf_parmrk :: "32 word"
  tf_istrip :: "32 word"
  tf_inlcr :: "32 word"
  tf_igncr :: "32 word"
  tf_icrnl :: "32 word"
  tf_ixon :: "32 word"
  tf_opost :: "32 word"
  tf_echo :: "32 word"
  tf_echonl :: "32 word"
  tf_icanon :: "32 word"
  tf_isig :: "32 word"
  tf_iexten :: "32 word"
  tf_csize :: "32 word"
  tf_parenb :: "32 word"
  tf_cs8 :: "32 word"
  tf_vmin :: nat
  tf_vtime :: nat

text \<open>\<open>ty_mode\<close> is \<open>None\<close> when the file is not a terminal; a call beyond the listed outcomes succeeds.\<close>

record tty =
  ty_mode :: "termios option"
  ty_sets :: "bool list"

definition is_terminal :: "tty \<Rightarrow> bool" where
  "is_terminal t \<longleftrightarrow> ty_mode t \<noteq> None"

definition set_termios :: "termios \<Rightarrow> tty \<Rightarrow> bool \<times> tty" where
  "set_termios m t =
    (case ty_sets t of
       [] \<Rightarrow> (True, t\<lparr>ty_mode := Some m\<rparr>)
     | True # os \<Rightarrow> (True, t\<lparr>ty_mode := Some m, ty_sets := os\<rparr>)
     | False # os \<Rightarrow> (False, t\<lparr>ty_sets := os\<rparr>))"

definition raw_mode :: "termios_flags \<Rightarrow> termios \<Rightarrow> termios" where
  "raw_mode f old =
    \<lparr>tm_iflag = tm_iflag old AND NOT (tf_ignbrk f OR tf_brkint f OR tf_parmrk f OR tf_istrip f OR tf_inlcr f OR tf_igncr f OR
       tf_icrnl f OR tf_ixon f),
     tm_oflag = tm_oflag old AND NOT (tf_opost f),
     tm_cflag = (tm_cflag old AND NOT (tf_csize f OR tf_parenb f)) OR tf_cs8 f,
     tm_lflag = tm_lflag old AND NOT (tf_echo f OR tf_echonl f OR tf_icanon f OR tf_isig f OR tf_iexten f),
     tm_cc = (tm_cc old)[tf_vmin f := 1, tf_vtime f := 0]\<rparr>"

datatype term_error = TermGet | TermSet | KeyRead string

text \<open>\<^verbatim>\<open>makeRaw\<close> returns a closure over the old mode; here it returns that mode, for \<open>restore\<close>.\<close>

definition make_raw :: "termios_flags \<Rightarrow> tty \<Rightarrow> (term_error + termios) \<times> tty" where
  "make_raw f t =
    (case ty_mode t of
       None \<Rightarrow> (Inl TermGet, t)
     | Some old \<Rightarrow>
         (case set_termios (raw_mode f old) t of
            (False, t') \<Rightarrow> (Inl TermSet, t')
          | (True, t') \<Rightarrow> (Inr old, t')))"

definition restore :: "termios \<Rightarrow> tty \<Rightarrow> tty" where
  "restore old t = snd (set_termios old t)"

section \<open>Reading a secret\<close>

text \<open>
  One \<^verbatim>\<open>read\<close> of a byte: the byte, if there is one, and the error. \<open>None\<close> is a loop that has not
  returned when the reads given are used up; what follows the line stays to be read.
\<close>

type_synonym key_read = "char option \<times> string option"

fun read_line :: "bytes \<Rightarrow> key_read list \<Rightarrow> (bytes \<times> string option \<times> key_read list) option" where
  "read_line buf [] = None"
| "read_line buf ((Some k, e) # reads) =
     (if k = CHR 0x0A \<or> k = CHR 0x0D then Some (buf, None, reads)
      else
        let buf' = (if k = CHR 0x7F \<or> k = CHR 0x08 then if buf \<noteq> [] then butlast buf else buf else buf @ [k])
        in (case e of None \<Rightarrow> read_line buf' reads | Some err \<Rightarrow> Some (buf', Some err, reads)))"
| "read_line buf ((None, e) # reads) = (case e of None \<Rightarrow> read_line buf reads | Some err \<Rightarrow> Some (buf, Some err, reads))"

definition hidden_mode :: "termios_flags \<Rightarrow> termios \<Rightarrow> termios" where
  "hidden_mode f old = old\<lparr>tm_lflag := tm_lflag old AND NOT (tf_echo f)\<rparr>"

definition read_password ::
  "termios_flags \<Rightarrow> tty \<Rightarrow> key_read list \<Rightarrow> ((term_error + bytes) \<times> key_read list) option \<times> tty" where
  "read_password f t reads =
    (case ty_mode t of
       None \<Rightarrow> (Some (Inl TermGet, reads), t)
     | Some old \<Rightarrow>
         (case set_termios (hidden_mode f old) t of
            (False, t') \<Rightarrow> (Some (Inl TermSet, reads), t')
          | (True, t') \<Rightarrow>
              (case read_line [] reads of
                 None \<Rightarrow> (None, t')
               | Some (buf, None, rest) \<Rightarrow> (Some (Inr buf, rest), restore old t')
               | Some (buf, Some err, rest) \<Rightarrow> (Some (Inl (KeyRead err), rest), restore old t'))))"

text \<open>
  Without a terminal the first line of standard input is taken, with \<^verbatim>\<open>bufio.Scanner\<close>: what it has read beyond the line is gone
  with it. A line is at most 64 KiB; \<open>None\<close> is a scanner that still waits.
\<close>

datatype scanned = ScannedLine bytes | NoLine | ScanFailed

definition drop_cr :: "bytes \<Rightarrow> bytes" where
  "drop_cr s = (if s \<noteq> [] \<and> last s = CHR 0x0D then butlast s else s)"

fun scan_line :: "bytes \<Rightarrow> (bytes \<times> read_end) list \<Rightarrow> (scanned \<times> (bytes \<times> read_end) list) option" where
  "scan_line acc [] = None"
| "scan_line acc ((data, e) # reads) =
     (let acc' = acc @ data in
      if CHR 0x0A \<in> set acc' then Some (ScannedLine (drop_cr (takeWhile (\<lambda>c. c \<noteq> CHR 0x0A) acc')), reads)
      else (case e of
        More \<Rightarrow> if length acc' \<ge> 64 * 1024 then Some (ScanFailed, reads) else scan_line acc' reads
      | Eof \<Rightarrow> Some (if acc' = [] then NoLine else ScannedLine (drop_cr acc'), reads)
      | ReadFailed \<Rightarrow> Some (if acc' = [] then ScanFailed else ScannedLine (drop_cr acc'), reads)))"

text \<open>The terminal of standard input, if it is a file; the keys typed at it, or what else is read from it.\<close>

record stdin_source =
  in_tty :: "tty option"
  in_keys :: "key_read list"
  in_reads :: "(bytes \<times> read_end) list"

definition stdin_terminal :: "stdin_source \<Rightarrow> tty option" where
  "stdin_terminal s = (case in_tty s of None \<Rightarrow> None | Some t \<Rightarrow> if is_terminal t then Some t else None)"

definition prompt_secret :: "termios_flags \<Rightarrow> stdin_source \<Rightarrow> (cli_error + string) option \<times> stdin_source" where
  "prompt_secret f s =
    (case stdin_terminal s of
       Some t \<Rightarrow>
         (case read_password f t (in_keys s) of
            (None, t') \<Rightarrow> (None, s\<lparr>in_tty := Some t', in_keys := []\<rparr>)
          | (Some (Inl e, rest), t') \<Rightarrow> (Some (Inl (CliError ''read password'')), s\<lparr>in_tty := Some t', in_keys := rest\<rparr>)
          | (Some (Inr pw, rest), t') \<Rightarrow> (Some (Inr pw), s\<lparr>in_tty := Some t', in_keys := rest\<rparr>))
     | None \<Rightarrow>
         (case scan_line [] (in_reads s) of
            None \<Rightarrow> (None, s\<lparr>in_reads := []\<rparr>)
          | Some (ScannedLine l, rest) \<Rightarrow> (Some (Inr l), s\<lparr>in_reads := rest\<rparr>)
          | Some (ScanFailed, rest) \<Rightarrow> (Some (Inl (CliError ''read input'')), s\<lparr>in_reads := rest\<rparr>)
          | Some (NoLine, rest) \<Rightarrow> (Some (Inl (CliError ''password is required'')), s\<lparr>in_reads := rest\<rparr>)))"

section \<open>The terminal during a session\<close>

definition mouse_reset :: bytes where
  "mouse_reset = concat (map (\<lambda>n. CHR 0x1B # ''[?'' @ n @ ''l'') [''9'', ''1000'', ''1002'', ''1003'', ''1005'', ''1006'', ''1015'', ''1016''])"

definition reset_mouse_modes :: "bool \<Rightarrow> bytes list" where
  "reset_mouse_modes out_terminal = (if out_terminal then [mouse_reset] else [])"

text \<open>
  \<^verbatim>\<open>relay\<close> around its loops: \<open>body\<close> takes the terminal they run on and gives what they write and return.
\<close>

definition relay_terminal ::
  "termios_flags \<Rightarrow> tty option \<Rightarrow> bool \<Rightarrow> (tty option \<Rightarrow> bytes list \<times> relay_result) \<Rightarrow> bytes list \<times> relay_result \<times> tty option" where
  "relay_terminal f tin out_terminal body =
    (let reset = reset_mouse_modes out_terminal in
     (case tin of
        None \<Rightarrow> (case body None of (out, r) \<Rightarrow> (reset @ out @ reset, r, None))
      | Some t \<Rightarrow>
          if is_terminal t then
            (case make_raw f t of
               (Inl e, t') \<Rightarrow> (reset, RelayError ''set raw terminal'', Some t')
             | (Inr old, t') \<Rightarrow> (case body (Some t') of (out, r) \<Rightarrow> (reset @ out @ reset, r, Some (restore old t'))))
          else (case body (Some t) of (out, r) \<Rightarrow> (reset @ out @ reset, r, Some t))))"

text \<open>The size of the window, from the answer to \<^verbatim>\<open>TIOCGWINSZ\<close>, and the message of a resize.\<close>

definition term_window_size :: "(nat \<times> nat) option \<Rightarrow> (int \<times> int) option" where
  "term_window_size ws =
    (case ws of
       None \<Rightarrow> None
     | Some (col, row) \<Rightarrow> if col = 0 \<or> row = 0 then None else Some (int col, int row))"

definition resize_data :: "(int \<times> int) option \<Rightarrow> (int \<times> int) option" where
  "resize_data ws = map_option (\<lambda>(c, r). clamp_size c r) ws"

section \<open>Windows consoles\<close>

record console_flags =
  wf_echo :: "32 word"
  wf_line :: "32 word"
  wf_processed_input :: "32 word"
  wf_mouse :: "32 word"
  wf_extended :: "32 word"
  wf_vt_input :: "32 word"
  wf_processed_output :: "32 word"
  wf_wrap :: "32 word"
  wf_vt_output :: "32 word"

text \<open>
  A console has a mode for input and one for output (\<open>None\<close> when the handle is not a console) and two code
  pages; \<open>cn_in_ok\<close> and \<open>cn_out_ok\<close> tell which modes it takes.
\<close>

record console =
  cn_in :: "32 word option"
  cn_out :: "32 word option"
  cn_in_cp :: "32 word"
  cn_out_cp :: "32 word"
  cn_in_ok :: "32 word \<Rightarrow> bool"
  cn_out_ok :: "32 word \<Rightarrow> bool"

definition set_console_in :: "32 word \<Rightarrow> console \<Rightarrow> bool \<times> console" where
  "set_console_in m c = (if cn_in_ok c m then (True, c\<lparr>cn_in := Some m\<rparr>) else (False, c))"

definition set_console_out :: "32 word \<Rightarrow> console \<Rightarrow> bool \<times> console" where
  "set_console_out m c = (if cn_out_ok c m then (True, c\<lparr>cn_out := Some m\<rparr>) else (False, c))"

definition raw_input :: "console_flags \<Rightarrow> 32 word \<Rightarrow> 32 word" where
  "raw_input f m =
    (m AND NOT (wf_echo f OR wf_line f OR wf_processed_input f OR wf_mouse f)) OR (wf_extended f OR wf_vt_input f)"

text \<open>What the closure of \<^verbatim>\<open>makeRaw\<close> captures.\<close>

record saved_console =
  sc_in :: "32 word"
  sc_out :: "32 word option"
  sc_in_cp :: "32 word"
  sc_out_cp :: "32 word"

definition raw_output :: "console_flags \<Rightarrow> console \<Rightarrow> console" where
  "raw_output f c =
    (case cn_out c of
       None \<Rightarrow> c
     | Some m \<Rightarrow>
         (case set_console_out (m OR wf_processed_output f OR wf_wrap f OR wf_vt_output f) c of
            (True, c') \<Rightarrow> c'
          | (False, c') \<Rightarrow> snd (set_console_out (m OR wf_processed_output f OR wf_wrap f) c')))"

definition console_raw :: "console_flags \<Rightarrow> console \<Rightarrow> saved_console option \<times> console" where
  "console_raw f c =
    (case cn_in c of
       None \<Rightarrow> (None, c)
     | Some in_mode \<Rightarrow>
         let raw = raw_input f in_mode;
             (ok, c1) = (case set_console_in raw c of
                 (True, c') \<Rightarrow> (True, c')
               | (False, c') \<Rightarrow> set_console_in (raw AND NOT (wf_vt_input f)) c')
         in if \<not> ok then (None, c1)
            else let c2 = raw_output f c1 in
              (Some \<lparr>sc_in = in_mode, sc_out = cn_out c1, sc_in_cp = cn_in_cp c2, sc_out_cp = cn_out_cp c2\<rparr>,
               c2\<lparr>cn_in_cp := 65001, cn_out_cp := 65001\<rparr>))"

definition console_restore :: "saved_console \<Rightarrow> console \<Rightarrow> console" where
  "console_restore s c =
    (let c1 = snd (set_console_in (sc_in s) c);
         c2 = (case sc_out s of None \<Rightarrow> c1 | Some m \<Rightarrow> snd (set_console_out m c1));
         c3 = (if sc_out_cp s \<noteq> 0 then c2\<lparr>cn_out_cp := sc_out_cp s\<rparr> else c2)
     in if sc_in_cp s \<noteq> 0 then c3\<lparr>cn_in_cp := sc_in_cp s\<rparr> else c3)"

text \<open>A secret is one read of at most 512 bytes without echo, less its line end. \<open>line\<close> is \<open>None\<close> when it fails.\<close>

fun strip_line_end :: "bytes \<Rightarrow> bytes" where
  "strip_line_end s = rev (dropWhile (\<lambda>c. c = CHR 0x0A \<or> c = CHR 0x0D) (rev s))"

definition console_password :: "console_flags \<Rightarrow> console \<Rightarrow> bytes option \<Rightarrow> bytes option \<times> console" where
  "console_password f c line =
    (case cn_in c of
       None \<Rightarrow> (None, c)
     | Some m \<Rightarrow>
         (case set_console_in (m AND NOT (wf_echo f)) c of
            (False, c') \<Rightarrow> (None, c')
          | (True, c') \<Rightarrow> (map_option (\<lambda>s. strip_line_end (take 512 s)) line, snd (set_console_in m c'))))"

text \<open>The window, from the corners of the console or of its output; the poll of a size, which tells when the size has changed.\<close>

definition console_size :: "(int \<times> int \<times> int \<times> int) option \<Rightarrow> (int \<times> int \<times> int \<times> int) option \<Rightarrow> (int \<times> int) option" where
  "console_size info out_info =
    (case (case info of None \<Rightarrow> out_info | Some w \<Rightarrow> Some w) of
       None \<Rightarrow> None
     | Some (x0, y0, x1, y1) \<Rightarrow>
         let cols = x1 - x0 + 1; rows = y1 - y0 + 1 in
         if cols \<le> 0 \<or> rows \<le> 0 then None else Some (cols, rows))"

fun resize_polls :: "int \<times> int \<Rightarrow> (int \<times> int) option list \<Rightarrow> bool list" where
  "resize_polls last_size [] = []"
| "resize_polls last_size (None # polls) = False # resize_polls last_size polls"
| "resize_polls last_size (Some ws # polls) =
     (if ws = last_size then False # resize_polls last_size polls else True # resize_polls ws polls)"

definition watch_size :: "(int \<times> int) option \<Rightarrow> (int \<times> int) option list \<Rightarrow> bool list" where
  "watch_size start polls = resize_polls (case start of None \<Rightarrow> (0, 0) | Some ws \<Rightarrow> ws) polls"

section \<open>Lemmas\<close>

lemma set_termios_ok: "list_all id (ty_sets t) \<Longrightarrow>
    fst (set_termios m t) \<and> ty_mode (snd (set_termios m t)) = Some m \<and> list_all id (ty_sets (snd (set_termios m t)))"
  by (auto simp: set_termios_def split: list.split bool.split)

lemma set_termios_okE:
  assumes "list_all id (ty_sets t)"
  obtains t' where "set_termios m t = (True, t')" "ty_mode t' = Some m" "list_all id (ty_sets t')"
  using set_termios_ok [OF assms, of m] by (cases "set_termios m t") auto

lemma restore_mode: "list_all id (ty_sets t) \<Longrightarrow> ty_mode (restore old t) = Some old"
  by (simp add: restore_def set_termios_ok)

section \<open>Properties\<close>

text \<open>What must be off, and what must stay, in raw mode.\<close>

definition is_raw :: "termios_flags \<Rightarrow> termios \<Rightarrow> termios \<Rightarrow> bool" where
  "is_raw f old m \<longleftrightarrow>
    (\<forall>x \<in> {tf_echo f, tf_echonl f, tf_icanon f, tf_isig f, tf_iexten f}. tm_lflag m AND x = 0) \<and>
    (\<forall>x \<in> {tf_ignbrk f, tf_brkint f, tf_parmrk f, tf_istrip f, tf_inlcr f, tf_igncr f, tf_icrnl f, tf_ixon f}. tm_iflag m AND x = 0) \<and>
    tm_oflag m AND tf_opost f = 0 \<and>
    tm_lflag m OR (tf_echo f OR tf_echonl f OR tf_icanon f OR tf_isig f OR tf_iexten f) =
      tm_lflag old OR (tf_echo f OR tf_echonl f OR tf_icanon f OR tf_isig f OR tf_iexten f)"

lemma and_absorb_or: "x AND y = x \<or> x AND z = x \<Longrightarrow> x AND (y OR z) = (x :: 32 word)"
  by (auto simp: bit_eq_iff bit_simps)

lemma cleared: "x AND b = x \<Longrightarrow> (a AND NOT b) AND x = (0 :: 32 word)"
  by (auto simp: bit_eq_iff bit_simps)

lemma cleared_keeps: "(a AND NOT b) OR b = a OR (b :: 32 word)"
  by (auto simp: bit_eq_iff bit_simps)

lemma raw_mode_is_raw: "is_raw f old (raw_mode f old)"
  by (simp add: is_raw_def raw_mode_def cleared and_absorb_or cleared_keeps del: bit.de_Morgan_disj)

text \<open>
  A session runs with its terminal in raw mode and gives it back as it was, however it ends; when raw mode
  cannot be set nothing is relayed. The mouse modes are reset before and after.
\<close>

theorem relay_restores_terminal:
  assumes "ty_mode t = Some old" "relay_terminal f (Some t) out_terminal body = (out, r, t')"
  shows "(list_all id (ty_sets t) \<longrightarrow> (\<exists>u written. t' \<noteq> None \<and> ty_mode (the t') = Some old \<and>
      body (Some u) = (written, r) \<and> ty_mode u = Some (raw_mode f old) \<and> is_raw f old (raw_mode f old) \<and>
      out = reset_mouse_modes out_terminal @ written @ reset_mouse_modes out_terminal)) \<and>
    (ty_sets t \<noteq> [] \<and> \<not> hd (ty_sets t) \<longrightarrow>
      t' = Some (t\<lparr>ty_sets := tl (ty_sets t)\<rparr>) \<and> out = reset_mouse_modes out_terminal \<and> r = RelayError ''set raw terminal'')"
proof (intro conjI impI)
  assume ok: "list_all id (ty_sets t)"
  obtain u where u: "set_termios (raw_mode f old) t = (True, u)" "ty_mode u = Some (raw_mode f old)" "list_all id (ty_sets u)"
    by (rule set_termios_okE [OF ok])
  obtain written r' where b: "body (Some u) = (written, r')" by fastforce
  have "(out, r, t') = (reset_mouse_modes out_terminal @ written @ reset_mouse_modes out_terminal, r', Some (restore old u))"
    using assms u(1) b by (simp add: relay_terminal_def is_terminal_def make_raw_def Let_def)
  then show "\<exists>u written. t' \<noteq> None \<and> ty_mode (the t') = Some old \<and> body (Some u) = (written, r) \<and>
      ty_mode u = Some (raw_mode f old) \<and> is_raw f old (raw_mode f old) \<and>
      out = reset_mouse_modes out_terminal @ written @ reset_mouse_modes out_terminal"
    using b u restore_mode [OF u(3), of old] raw_mode_is_raw [of f old] by auto
next
  assume "ty_sets t \<noteq> [] \<and> \<not> hd (ty_sets t)"
  then obtain os where "ty_sets t = False # os" by (cases "ty_sets t") auto
  with assms show "t' = Some (t\<lparr>ty_sets := tl (ty_sets t)\<rparr>)" "out = reset_mouse_modes out_terminal" "r = RelayError ''set raw terminal''"
    by (simp_all add: relay_terminal_def is_terminal_def make_raw_def set_termios_def Let_def)
qed

text \<open>What is typed, character by character, and the reference: a line editor that erases whole characters.\<close>

datatype key = TypeKey bytes | EraseKey

fun edit :: "bytes list \<Rightarrow> key list \<Rightarrow> bytes list" where
  "edit cs [] = cs"
| "edit cs (TypeKey c # ks) = edit (cs @ [c]) ks"
| "edit cs (EraseKey # ks) = edit (butlast cs) ks"

fun key_reads :: "key \<Rightarrow> key_read list" where
  "key_reads (TypeKey c) = map (\<lambda>b. (Some b, None)) c"
| "key_reads EraseKey = [(Some CHR 0x7F, None)]"

definition plain_key :: "key \<Rightarrow> bool" where
  "plain_key k \<longleftrightarrow> k = EraseKey \<or> (\<exists>b. k = TypeKey [b] \<and> b \<notin> {CHR 0x0A, CHR 0x0D, CHR 0x7F, CHR 0x08})"

lemma read_line_edit:
  assumes "list_all plain_key ks" "list_all (\<lambda>c. length c = 1) cs"
  shows "read_line (concat cs) (concat (map key_reads ks) @ (Some CHR 0x0A, None) # rest) = Some (concat (edit cs ks), None, rest)"
  using assms
proof (induction cs ks rule: edit.induct)
  case (2 cs c ks)
  then obtain b where "c = [b]" "b \<notin> {CHR 0x0A, CHR 0x0D, CHR 0x7F, CHR 0x08}" by (auto simp: plain_key_def)
  with 2 show ?case by (simp add: Let_def)
next
  case (3 cs ks)
  show ?case
  proof (cases cs rule: rev_cases)
    case (snoc ds d)
    then obtain b where "d = [b]" using 3(3) by (auto simp: length_Suc_conv)
    with 3 snoc show ?thesis by (simp add: Let_def butlast_append)
  qed (use 3 in simp)
qed simp

lemma read_line_returns_iff:
  "read_line buf reads \<noteq> None \<longleftrightarrow> (\<exists>x\<in>set reads. fst x \<in> {Some CHR 0x0A, Some CHR 0x0D} \<or> snd x \<noteq> None)"
proof (induction buf reads rule: read_line.induct)
  case (2 buf k e reads)
  show ?case
  proof (cases "k = CHR 0x0A \<or> k = CHR 0x0D")
    case False
    then show ?thesis using 2 by (cases e) (simp_all add: Let_def)
  qed auto
next
  case (3 buf e reads)
  then show ?case by (cases e) simp_all
qed simp

text \<open>
  C40: the prompt for a secret returns what was typed, with the erased characters taken out, for characters of one
  byte; it returns as soon as a line ends or a read fails, and never while reads yield nothing, as at the
  end of the input; the echo is off exactly meanwhile.
\<close>

theorem password_is_edited_line:
  assumes "ty_mode t = Some old" "list_all id (ty_sets t)"
  shows "(fst (read_password f t reads) \<noteq> None \<longleftrightarrow>
      (\<exists>x\<in>set reads. fst x \<in> {Some CHR 0x0A, Some CHR 0x0D} \<or> snd x \<noteq> None)) \<and>
    ty_mode (snd (read_password f t reads)) = Some (if fst (read_password f t reads) = None then hidden_mode f old else old) \<and>
    tm_lflag (hidden_mode f old) AND tf_echo f = 0 \<and>
    (list_all plain_key keys \<longrightarrow>
      fst (read_password f t (concat (map key_reads keys) @ (Some CHR 0x0A, None) # rest)) = Some (Inr (concat (edit [] keys)), rest))"
proof -
  obtain u where u: "set_termios (hidden_mode f old) t = (True, u)" "ty_mode u = Some (hidden_mode f old)" "list_all id (ty_sets u)"
    by (rule set_termios_okE [OF assms(2)])
  have p: "read_password f t rs = (case read_line [] rs of None \<Rightarrow> (None, u)
      | Some (buf, None, rest) \<Rightarrow> (Some (Inr buf, rest), restore old u)
      | Some (buf, Some err, rest) \<Rightarrow> (Some (Inl (KeyRead err), rest), restore old u))" for rs
    by (simp add: read_password_def assms(1) u(1))
  have "fst (read_password f t reads) \<noteq> None \<longleftrightarrow> read_line [] reads \<noteq> None"
    by (simp add: p split: option.split)
  moreover have "ty_mode (snd (read_password f t reads)) = Some (if fst (read_password f t reads) = None then hidden_mode f old else old)"
    by (simp add: p u(2) restore_mode [OF u(3)] split: option.split)
  moreover have "tm_lflag (hidden_mode f old) AND tf_echo f = 0"
    by (simp add: hidden_mode_def bit_eq_iff bit_simps)
  moreover have "fst (read_password f t (concat (map key_reads keys) @ (Some CHR 0x0A, None) # rest)) = Some (Inr (concat (edit [] keys)), rest)"
    if "list_all plain_key keys"
    using read_line_edit [OF that, of "[]" rest] by (simp add: p)
  ultimately show ?thesis unfolding read_line_returns_iff by blast
qed

text \<open>A character of two bytes that is erased leaves its first byte in the secret.\<close>

lemma erase_splits_character:
  "read_line [] (concat (map key_reads [TypeKey [CHR 0xC3, CHR 0xA9], EraseKey]) @ [(Some CHR 0x0A, None)]) = Some ([CHR 0xC3], None, []) \<and>
   concat (edit [] [TypeKey [CHR 0xC3, CHR 0xA9], EraseKey]) = []"
  by (simp add: Let_def)

text \<open>
  Two secrets piped in arrive when each line comes with a read of its own; when one read holds both, the second
  prompt finds the end of the input.
\<close>

lemma prompts_share_input:
  assumes "CHR 0x0A \<notin> set a" "CHR 0x0A \<notin> set b" "last (CHR ''x'' # a) \<noteq> CHR 0x0D" "last (CHR ''x'' # b) \<noteq> CHR 0x0D"
    and "in_tty s = None"
  shows "fst (prompt_secret f (snd (prompt_secret f (s\<lparr>in_reads := [(a @ [CHR 0x0A], More), (b @ [CHR 0x0A], More)]\<rparr>)))) = Some (Inr b) \<and>
    fst (prompt_secret f (s\<lparr>in_reads := [(a @ [CHR 0x0A] @ b @ [CHR 0x0A], More), ([], Eof)]\<rparr>)) = Some (Inr a) \<and>
    fst (prompt_secret f (snd (prompt_secret f (s\<lparr>in_reads := [(a @ [CHR 0x0A] @ b @ [CHR 0x0A], More), ([], Eof)]\<rparr>))))
      = Some (Inl (CliError ''password is required''))"
proof -
  have tk: "takeWhile (\<lambda>c. c \<noteq> CHR 0x0A) (x @ CHR 0x0A # y) = x" if "CHR 0x0A \<notin> set x" for x y :: bytes
    using that by (induction x) auto
  have cr: "drop_cr a = a" "drop_cr b = b"
    using assms(3,4) by (auto simp: drop_cr_def)
  show ?thesis
    by (simp add: prompt_secret_def stdin_terminal_def assms(5) Let_def tk assms(1,2) cr)
qed

text \<open>
  A console is given back with the modes and code pages it had, when it takes its own modes and has code
  pages; where raw mode is refused nothing has changed.
\<close>

lemma console_restored:
  assumes "console_raw f c = (r, c')" "cn_in c = Some m" "cn_in_ok c m" "\<forall>n. cn_out c = Some n \<longrightarrow> cn_out_ok c n"
    and "cn_in_cp c \<noteq> 0" "cn_out_cp c \<noteq> 0"
  shows "case r of None \<Rightarrow> c' = c | Some s \<Rightarrow> console_restore s c' = c \<and> cn_in_cp c' = 65001 \<and>
    (\<exists>raw. cn_in c' = Some raw \<and> (raw = raw_input f m \<or> raw = raw_input f m AND NOT (wf_vt_input f)))"
  using assms
  by (auto simp: console_raw_def console_restore_def raw_output_def set_console_in_def set_console_out_def Let_def
      split: option.split_asm if_split_asm)

text \<open>A watcher calls back for each poll that finds another size than the last one it saw.\<close>

lemma resize_polls_steady: "list_all (\<lambda>p. p = None \<or> p = Some ws) polls \<Longrightarrow> \<not> list_ex id (resize_polls ws polls)"
  by (induction ws polls rule: resize_polls.induct) auto

lemma resize_data_range:
  "resize_data (term_window_size ws) = Some (c, r) \<Longrightarrow> 20 \<le> c \<and> c \<le> 500 \<and> 5 \<le> r \<and> r \<le> 200"
  by (auto simp: resize_data_def term_window_size_def clamp_size_def Let_def split: option.split_asm if_split_asm)

section \<open>Witnesses\<close>

definition linux_flags :: termios_flags where
  "linux_flags =
    \<lparr>tf_ignbrk = 1, tf_brkint = 2, tf_parmrk = 8, tf_istrip = 0x20, tf_inlcr = 0x40, tf_igncr = 0x80, tf_icrnl = 0x100, tf_ixon = 0x400,
     tf_opost = 1, tf_echo = 8, tf_echonl = 0x40, tf_icanon = 2, tf_isig = 1, tf_iexten = 0x8000, tf_csize = 0x30, tf_parenb = 0x100,
     tf_cs8 = 0x30, tf_vmin = 6, tf_vtime = 5\<rparr>"

definition cooked :: termios where
  "cooked = \<lparr>tm_iflag = 0x4500, tm_oflag = 5, tm_cflag = 0xBF, tm_lflag = 0x8A3B, tm_cc = replicate 19 0\<rparr>"

definition cooked_tty :: tty where
  "cooked_tty = \<lparr>ty_mode = Some cooked, ty_sets = []\<rparr>"

theorem relay_restores_terminal_witness:
  "\<exists>u :: tty. ty_mode u = Some (raw_mode linux_flags cooked) \<and>
     ty_mode (the (snd (snd (relay_terminal linux_flags (Some cooked_tty) True (\<lambda>_. ([''hi''], RelayExit 1 []))))))
       = Some cooked"
proof -
  let ?r = "relay_terminal linux_flags (Some cooked_tty) True (\<lambda>_. ([''hi''], RelayExit 1 []))"
  obtain out r t' where r: "?r = (out, r, t')" by (metis prod.collapse)
  have m: "ty_mode cooked_tty = Some cooked" "list_all id (ty_sets cooked_tty)" by (simp_all add: cooked_tty_def)
  from relay_restores_terminal [OF m(1) r, THEN conjunct1] m(2) show ?thesis unfolding r snd_conv by blast
qed

theorem password_is_edited_line_witness:
  "fst (read_password linux_flags cooked_tty (concat (map key_reads [TypeKey ''a'', TypeKey ''x'', EraseKey, TypeKey ''b'']) @ [(Some CHR 0x0A, None)]))
     = Some (Inr ''ab'', [])"
proof -
  have m: "ty_mode cooked_tty = Some cooked" "list_all id (ty_sets cooked_tty)" by (simp_all add: cooked_tty_def)
  have k: "list_all plain_key [TypeKey ''a'', TypeKey ''x'', EraseKey, TypeKey ''b'']" by (simp add: plain_key_def)
  from password_is_edited_line [OF m] k have
    "fst (read_password linux_flags cooked_tty (concat (map key_reads [TypeKey ''a'', TypeKey ''x'', EraseKey, TypeKey ''b'']) @ (Some CHR 0x0A, None) # []))
      = Some (Inr (concat (edit [] [TypeKey ''a'', TypeKey ''x'', EraseKey, TypeKey ''b''])), [])" by blast
  then show ?thesis by simp
qed

end
