(* ===== verification/Cli_Relay.thy ===== *)
theory Cli_Relay
  imports Cli_Terminal Ws_Stream Item_Stream
begin

text \<open>
  The goroutines of \<^verbatim>\<open>relay\<close> (\<^verbatim>\<open>internal/cli/session.go\<close>) that write to the connection: the input loop, the keep-alive and
  the resize callback. Each message is written under \<^verbatim>\<open>writeMu\<close>, so they interleave message by message; the
  context is cancelled when the read loop has ended, which may be at any time.
\<close>

section \<open>The state\<close>

datatype client_message = InputText bytes | ResizeTo int int | PingAt int

text \<open>\<open>cy_reads\<close> is what standard input still gives; nothing follows its end.\<close>

record client_relay =
  cy_reads :: "(bytes \<times> read_end) list"
  cy_phase :: copy_phase
  cy_pinging :: bool
  cy_watching :: bool
  cy_sent :: "client_message list"
  cy_cancelled :: bool

definition client_start :: "(bytes \<times> read_end) list \<Rightarrow> client_relay" where
  "client_start reads =
    \<lparr>cy_reads = reads, cy_phase = Checking, cy_pinging = True, cy_watching = True, cy_sent = [], cy_cancelled = False\<rparr>"

text \<open>What is sent for them.\<close>

fun client_text :: "client_message \<Rightarrow> bytes" where
  "client_text (InputText b) = encode_input b"
| "client_text (ResizeTo c r) = resize_message c r"
| "client_text (PingAt t) = ping_message t"

section \<open>The steps\<close>

text \<open>One read of \<^verbatim>\<open>copyStdin\<close> with its message; \<open>ok\<close> tells whether the message could be written. What could not stays unread.\<close>

definition copy_stdin_step :: "bool \<Rightarrow> client_relay \<Rightarrow> client_relay" where
  "copy_stdin_step ok r =
    (case cy_reads r of
       [] \<Rightarrow> r
     | (data, e) # reads \<Rightarrow>
         let chunk = take max_input_bytes data in
         if chunk \<noteq> [] \<and> \<not> ok then r\<lparr>cy_phase := Stopped\<rparr>
         else r\<lparr>cy_sent := cy_sent r @ (if chunk = [] then [] else [InputText chunk]),
                cy_reads := (if e = More then reads else []), cy_phase := (if e = More then Checking else Stopped)\<rparr>)"

definition keep_alive_tick :: "bool \<Rightarrow> int \<Rightarrow> client_relay \<Rightarrow> client_relay" where
  "keep_alive_tick ok now r = (if ok then r\<lparr>cy_sent := cy_sent r @ [PingAt now]\<rparr> else r\<lparr>cy_pinging := False\<rparr>)"

definition resize_callback :: "bool \<Rightarrow> (int \<times> int) option \<Rightarrow> client_relay \<Rightarrow> client_relay" where
  "resize_callback ok ws r =
    (case resize_data ws of
       None \<Rightarrow> r
     | Some (c, rows) \<Rightarrow> if ok then r\<lparr>cy_sent := cy_sent r @ [ResizeTo c rows]\<rparr> else r)"

text \<open>The time of a ping is in milliseconds, which a \<^verbatim>\<open>float64\<close> holds exactly and writes without an exponent below this bound.\<close>

inductive client_step :: "client_relay \<Rightarrow> client_relay \<Rightarrow> bool" where
  check_input: "cy_phase r = Checking \<Longrightarrow> client_step r (r\<lparr>cy_phase := (if cy_cancelled r then Stopped else Reading)\<rparr>)"
| read_input: "cy_phase r = Reading \<Longrightarrow> client_step r (copy_stdin_step ok r)"
| ping: "cy_pinging r \<Longrightarrow> 0 \<le> now \<Longrightarrow> now < 2 ^ 53 \<Longrightarrow> client_step r (keep_alive_tick ok now r)"
| ping_done: "cy_pinging r \<Longrightarrow> cy_cancelled r \<Longrightarrow> client_step r (r\<lparr>cy_pinging := False\<rparr>)"
| resize: "cy_watching r \<Longrightarrow> client_step r (resize_callback ok ws r)"
| watch_done: "cy_watching r \<Longrightarrow> cy_cancelled r \<Longrightarrow> client_step r (r\<lparr>cy_watching := False\<rparr>)"
| cancel: "client_step r (r\<lparr>cy_cancelled := True\<rparr>)"

inductive_cases client_stepE: "client_step r r'"

section \<open>The input\<close>

text \<open>The pieces standard input is sent in.\<close>

fun pieces :: "(bytes \<times> read_end) list \<Rightarrow> bytes list" where
  "pieces [] = []"
| "pieces ((data, e) # reads) =
     (let chunk = take max_input_bytes data in
      (if chunk = [] then [] else [chunk]) @ (if e = More then pieces reads else []))"

fun typed :: "client_message \<Rightarrow> bytes list" where
  "typed (InputText b) = [b]"
| "typed _ = []"

lemma copy_stdin_pieces: "fst (copy_stdin (\<lambda>_. True) reads) = map encode_input (pieces reads)"
  by (induction reads rule: pieces.induct) (auto simp: Let_def split: read_end.split prod.split)

lemma copy_stdin_step_conserves:
  "concat (map typed (cy_sent (copy_stdin_step ok r))) @ pieces (cy_reads (copy_stdin_step ok r)) =
     concat (map typed (cy_sent r)) @ pieces (cy_reads r)"
  by (auto simp: copy_stdin_step_def Let_def split: list.split prod.split)

lemma resize_callback_conserves:
  "concat (map typed (cy_sent (resize_callback ok ws r))) @ pieces (cy_reads (resize_callback ok ws r)) =
     concat (map typed (cy_sent r)) @ pieces (cy_reads r)"
  by (auto simp: resize_callback_def split: option.split)

lemma client_step_conserves:
  "client_step r r' \<Longrightarrow> concat (map typed (cy_sent r')) @ pieces (cy_reads r') = concat (map typed (cy_sent r)) @ pieces (cy_reads r)"
  by (erule client_stepE) (simp_all only: copy_stdin_step_conserves resize_callback_conserves, simp_all add: keep_alive_tick_def)

interpretation client_input: item_stream client_step cy_sent typed "\<lambda>r. pieces (cy_reads r)"
  by unfold_locales (rule client_step_conserves)

lemma pieces_bounded: "list_all (\<lambda>(d, _). length d \<le> n) reads \<Longrightarrow> list_all (\<lambda>b. length b \<le> n) (pieces reads)"
  by (induction reads rule: pieces.induct) (auto simp: Let_def)

text \<open>The input loop left alone sends everything.\<close>

lemma input_completes:
  "cy_phase r = Checking \<Longrightarrow> \<not> cy_cancelled r \<Longrightarrow> \<exists>t. client_step\<^sup>*\<^sup>* r t \<and> cy_reads t = []"
proof (induction "cy_reads r" arbitrary: r rule: pieces.induct)
  case (2 data e reads)
  let ?a = "r\<lparr>cy_phase := (if cy_cancelled r then Stopped else Reading)\<rparr>"
  let ?b = "copy_stdin_step True ?a"
  have ab: "client_step r ?a" "client_step ?a ?b"
    by (rule check_input [OF 2(3)], rule read_input) (simp add: 2(4))
  have b: "cy_reads ?b = (if e = More then reads else [])" "cy_phase ?b = (if e = More then Checking else Stopped)" "\<not> cy_cancelled ?b"
    using 2(4) by (simp_all add: copy_stdin_step_def 2(2) [symmetric] Let_def)
  have "\<exists>t. client_step\<^sup>*\<^sup>* ?b t \<and> cy_reads t = []"
  proof (cases "e = More")
    case True
    with 2(1) [of "take max_input_bytes data" ?b] b show ?thesis by simp
  next
    case False
    with b(1) show ?thesis by auto
  qed
  then obtain t where "client_step\<^sup>*\<^sup>* ?b t" "cy_reads t = []" by blast
  with ab show ?case by (meson converse_rtranclp_into_rtranclp)
qed auto

fun sendable :: "client_message \<Rightarrow> bool" where
  "sendable (InputText b) \<longleftrightarrow> length b \<le> 11259"
| "sendable (ResizeTo c r) \<longleftrightarrow> 20 \<le> c \<and> c \<le> 500 \<and> 5 \<le> r \<and> r \<le> 200"
| "sendable (PingAt t) \<longleftrightarrow> 0 \<le> t \<and> t < 2 ^ 53"

lemma messages_in_range:
  assumes "client_step\<^sup>*\<^sup>* (client_start reads) s" "m \<in> set (cy_sent s)" "typed m = []"
  shows "sendable m"
  using assms
proof (induction arbitrary: m rule: rtranclp_induct)
  case (step s t)
  have r: "20 \<le> c \<and> c \<le> 500 \<and> 5 \<le> rows \<and> rows \<le> 200" if "resize_data ws = Some (c, rows)" for ws c rows
    using that by (auto simp: resize_data_def clamp_size_def Let_def split: if_split_asm)
  from step(2) show ?case
    by (cases rule: client_stepE)
      (use step(3-5) r in \<open>auto simp: copy_stdin_step_def keep_alive_tick_def resize_callback_def Let_def
         split: list.split_asm option.split_asm if_split_asm prod.split_asm\<close>)
qed (simp add: client_start_def)

section \<open>The other end\<close>

text \<open>What the handler does for a message, and the agreement of the two ends on the text of messages.\<close>

fun served :: "client_message \<Rightarrow> ssh_action list" where
  "served (InputText b) = [WriteStdin (replace_invalid b)]"
| "served (ResizeTo c r) = [ChangeWindow r c]"
| "served (PingAt t) = []"

text \<open>The library's \<^verbatim>\<open>float64\<close> is read from a whole number it holds exactly.\<close>

definition reads_milliseconds :: "('g, 'c) ws_env \<Rightarrow> bool" where
  "reads_milliseconds env \<longleftrightarrow> (\<forall>t. 0 \<le> t \<and> t < 2 ^ 53 \<longrightarrow> we_number env (itoa t) \<noteq> None)"

text \<open>A replacement character takes six bytes of JSON for a byte of input and three of text.\<close>

lemma escape_replace_length: "5 * length (replace_invalid s) \<le> 3 * length s + 2 * length (json_escape s)"
proof (induction s rule: json_escape.induct)
  case (2 c cs)
  have a: "1 \<le> length (json_ascii c)" by (simp add: json_ascii_def)
  consider (ascii) "byte c < 0x80" | (bad) "\<not> byte c < 0x80" "rune_len (c # cs) = 0" | (rune) "\<not> byte c < 0x80" "rune_len (c # cs) \<noteq> 0" by blast
  then show ?case
  proof cases
    case ascii
    with 2(1) a show ?thesis by simp
  next
    case bad
    with 2(2) show ?thesis by (simp add: Let_def replacement_def del: rune_len.simps)
  next
    case rune
    let ?n = "rune_len (c # cs)" let ?r = "drop (?n - 1) cs"
    have n: "?n \<le> Suc (length cs)" using rune_len_le [of "c # cs"] by simp
    have ih: "5 * length (replace_invalid ?r) \<le> 3 * length ?r + 2 * length (json_escape ?r)"
      using 2(3-5) rune by (cases "take ?n (c # cs) = [CHR 0xE2, CHR 0x80, CHR 0xA8]"; cases "take ?n (c # cs) = [CHR 0xE2, CHR 0x80, CHR 0xA9]") (simp_all del: rune_len.simps)
    have r: "length (replace_invalid (c # cs)) = ?n + length (replace_invalid ?r)" using rune n by (simp add: Let_def del: rune_len.simps)
    have e: "?n + length (json_escape ?r) \<le> length (json_escape (c # cs))"
    proof -
      have three: "take ?n (c # cs) = [x, y, z] \<Longrightarrow> ?n \<le> 3 \<or> length (c # cs) \<le> 3" for x y z
        by (drule arg_cong [where f = length]) (auto simp: min_def split: if_split_asm)
      then show ?thesis using rune n by (auto simp: Let_def simp del: rune_len.simps)
    qed
    have l: "length (c # cs) = ?n + length ?r" using n rune by simp
    have "5 * x \<le> 3 * y + 2 * z \<Longrightarrow> k + z \<le> w \<Longrightarrow> 5 * (k + x) \<le> 3 * (k + y) + 2 * w" for k w x y z :: nat by simp
    from this [OF ih e] show ?thesis unfolding r l .
  qed
qed simp

text \<open>The limit of the handler for a message, and which messages are served: up to one that is too large or whose write fails.\<close>

definition too_large :: "client_message \<Rightarrow> bool" where
  "too_large m \<longleftrightarrow> 64 * 1024 + 2048 < length (client_text m)"

fun taken_by :: "(bytes \<Rightarrow> bool) \<Rightarrow> client_message \<Rightarrow> bool" where
  "taken_by ok (InputText b) \<longleftrightarrow> ok (replace_invalid b)"
| "taken_by ok _ \<longleftrightarrow> True"

fun reached :: "(bytes \<Rightarrow> bool) \<Rightarrow> client_message list \<Rightarrow> client_message list" where
  "reached ok [] = []"
| "reached ok (m # ms) = (if too_large m then [] else m # (if taken_by ok m then reached ok ms else []))"

fun refusal :: "(bytes \<Rightarrow> bool) \<Rightarrow> client_message list \<Rightarrow> ws_message list" where
  "refusal ok [] = []"
| "refusal ok (m # ms) =
     (if too_large m then [ErrorMsg ''BAD_REQUEST'' ''message too large''] else if taken_by ok m then refusal ok ms else [])"

lemma reached_prefix: "prefix (reached ok ms) ms"
  by (induction ms) auto

fun deliverable :: "client_message \<Rightarrow> bool" where
  "deliverable (InputText b) \<longleftrightarrow> length b \<le> max_input_bytes"
| "deliverable m \<longleftrightarrow> sendable m"

lemma sendable_small: "sendable m \<Longrightarrow> \<not> too_large m"
proof (cases m)
  case (InputText b)
  assume "sendable m"
  with encode_input_length [of b] show ?thesis by (simp add: InputText too_large_def)
next
  case (ResizeTo c r)
  assume "sendable m"
  then have "length (resize_message c r) \<le> 64 * 1024" using resize_read(3) by (simp add: ResizeTo)
  then show ?thesis by (simp add: ResizeTo too_large_def)
next
  case (PingAt t)
  assume "sendable m"
  then have "length (ping_message t) \<le> 64 * 1024" using ping_read(2) by (simp add: PingAt)
  then show ?thesis by (simp add: PingAt too_large_def)
qed

lemma reached_all: "list_all sendable ms \<Longrightarrow> (\<And>b. ok b) \<Longrightarrow> reached ok ms = ms \<and> refusal ok ms = []"
  by (induction ms) (auto simp: sendable_small elim: taken_by.elims)

lemma read_frame_served:
  assumes "deliverable m" "reads_milliseconds env"
  obtains (large) "too_large m" "read_frame env ok (Frame TextFrame (client_text m)) = (False, [ErrorMsg ''BAD_REQUEST'' ''message too large''], [])"
  | (taken) out where "\<not> too_large m" "read_frame env ok (Frame TextFrame (client_text m)) = (taken_by ok m, out, served m)"
      "list_all (\<lambda>x. \<exists>n. x = PongMsg n) out"
proof (cases m)
  case (InputText b)
  show ?thesis
  proof (cases "too_large m")
    case True
    then show ?thesis by (intro large) (simp_all add: InputText too_large_def read_frame_def)
  next
    case False
    then have l: "\<not> 64 * 1024 + 2048 < length (encode_input b)" by (simp add: InputText too_large_def)
    have "length (json_escape b) \<le> length (encode_input b)" by (simp add: encode_input_text json_quote_def)
    with l assms(1) escape_replace_length [of b] have s: "\<not> 64 * 1024 < length (replace_invalid b)"
      by (simp add: InputText max_input_bytes_def)
    have "read_frame env ok (Frame TextFrame (encode_input b)) = (ok (replace_invalid b), [], [WriteStdin (replace_invalid b)])"
      unfolding read_frame_def frame.case if_not_P [OF l] unfolding encode_input_def decode_input_message option.case prod.case decode_quoted_string
      using s by simp
    with False show ?thesis by (intro taken [of "[]"]) (simp_all add: InputText)
  qed
next
  case (ResizeTo c r)
  then have b: "20 \<le> c" "c \<le> 500" "5 \<le> r" "r \<le> 200" using assms(1) by simp_all
  then have l: "\<not> 64 * 1024 + 2048 < length (resize_message c r)" using resize_read(3) [OF b] by simp
  have "read_frame env ok (Frame TextFrame (resize_message c r)) = (True, [], [ChangeWindow r c])"
    using b unfolding read_frame_def frame.case resize_read(1) [OF b] if_not_P [OF l] option.case prod.case by (simp add: resize_read(2))
  with l show ?thesis by (intro taken [of "[]"]) (simp_all add: ResizeTo too_large_def)
next
  case (PingAt t)
  then have t: "0 \<le> t" "t < 2 ^ 53" using assms(1) by simp_all
  obtain n where n: "we_number env (itoa t) = Some n" using assms(2) t by (auto simp: reads_milliseconds_def)
  have l: "\<not> 64 * 1024 + 2048 < length (ping_message t)" using ping_read(2) [OF t] by simp
  have "read_frame env ok (Frame TextFrame (ping_message t)) = (True, [PongMsg n], [])"
    unfolding read_frame_def frame.case ping_read(1) [OF t] if_not_P [OF l] option.case prod.case by (simp add: n)
  with l show ?thesis by (intro taken [of "[PongMsg n]"]) (simp_all add: PingAt too_large_def)
qed

lemma read_loop_served:
  assumes "reads_milliseconds env" "list_all deliverable ms"
  shows "\<exists>pongs. list_all (\<lambda>x. \<exists>n. x = PongMsg n) pongs \<and>
    read_loop env ok (map (\<lambda>m. Frame TextFrame (client_text m)) ms) =
      (pongs @ refusal ok ms,
       concat (map served (reached ok ms)))"
  using assms(2)
proof (induction ms)
  case (Cons m ms)
  have d: "deliverable m" using Cons(2) by simp
  show ?case
  proof (cases rule: read_frame_served [OF d assms(1), of ok])
    case 1
    then show ?thesis by (intro exI [of _ "[]"]) simp
  next
    case (2 out)
    show ?thesis
    proof (cases "taken_by ok m")
      case True
      from Cons obtain pongs where "list_all (\<lambda>x. \<exists>n. x = PongMsg n) pongs"
        "read_loop env ok (map (\<lambda>m. Frame TextFrame (client_text m)) ms) =
          (pongs @ refusal ok ms,
           concat (map served (reached ok ms)))" by auto
      with 2 True show ?thesis by (intro exI [of _ "out @ pongs"]) simp
    next
      case False
      with 2 show ?thesis by (intro exI [of _ out]) simp
    qed
  qed
qed (simp add: exI [of _ "[]"])


fun shell_bytes :: "ssh_action \<Rightarrow> bytes" where
  "shell_bytes (WriteStdin b) = b"
| "shell_bytes _ = []"

lemma served_bytes: "concat (map shell_bytes (concat (map served ms))) = concat (map replace_invalid (concat (map typed ms)))"
proof (induction ms)
  case (Cons m ms)
  then show ?case by (cases m) simp_all
qed simp

section \<open>Properties\<close>


section \<open>Witnesses\<close>

end
