(* ===== verification/Cli_Doh.thy ===== *)
theory Cli_Doh
  imports Go_Netip
begin

text \<open>
  \<^verbatim>\<open>internal/cli/doh.go\<close>: resolving the server's name through DNS over HTTPS. What a provider answers,
  how JSON decodes and how an endpoint's URL parses are the fields of \<open>doh_env\<close>; the contexts are two
  predicates, whether an endpoint's time was left after a query and whether the whole lookup's time was left
  after an endpoint. An IP is an \<open>addr\<close> without zone, in its IPv4 form if it has one.
\<close>

section \<open>Data\<close>

datatype doh_reply = RequestFailed | ContextDone | BodyFailed | Reply int bytes

datatype doh_error =
    EmptyHost | NoEndpoints | InvalidEndpoint | ContextError | RequestError string | ReadError string | TooLarge string
  | HttpStatus string int | InvalidJson string | MissingStatus string | DnsStatus string int | NoRecords string
  | Joined "doh_error list"

record doh_answer =
  da_type :: int
  da_data :: string

record doh_env =
  dh_fetch :: "string \<Rightarrow> string \<Rightarrow> string \<Rightarrow> doh_reply"
  dh_json :: "bytes \<Rightarrow> (int option \<times> doh_answer list) option"
  dh_url :: "string \<Rightarrow> (string \<times> string) option"
  dh_time_left :: "string \<Rightarrow> int \<Rightarrow> bool"
  dh_lookup_time_left :: "string \<Rightarrow> bool"

definition default_endpoints :: "string list" where
  "default_endpoints = [''https://doh.pub/dns-query'', ''https://dns.alidns.com/resolve'']"

definition type_a :: int where "type_a = 1"

definition type_aaaa :: int where "type_aaaa = 28"

definition max_body_bytes :: nat where "max_body_bytes = 64 * 1024"

section \<open>Addresses\<close>

text \<open>\<^verbatim>\<open>net.ParseIP\<close>: an address literal without zone; the \<^verbatim>\<open>To4\<close> form of an IPv4-mapped one.\<close>

definition parse_ip :: "string \<Rightarrow> addr option" where
  "parse_ip s =
    (case parse_addr s of
       Some (V6 w z) \<Rightarrow> if z = [] then Some (unmap (V6 w [])) else None
     | r \<Rightarrow> r)"

fun is_v4 :: "addr \<Rightarrow> bool" where
  "is_v4 (V4 _) = True"
| "is_v4 _ = False"

fun filter_addresses :: "doh_answer list \<Rightarrow> int \<Rightarrow> addr list" where
  "filter_addresses [] rr = []"
| "filter_addresses (a # as) rr =
     (if da_type a \<noteq> rr then filter_addresses as rr
      else (case parse_ip (trim_space (da_data a)) of
              None \<Rightarrow> filter_addresses as rr
            | Some ip \<Rightarrow>
                if rr = type_a then (if is_v4 ip then ip # filter_addresses as rr else filter_addresses as rr)
                else if \<not> is_v4 ip then ip # filter_addresses as rr
                else filter_addresses as rr))"

definition type_name :: "int \<Rightarrow> string" where
  "type_name rr = (if rr = type_aaaa then ''AAAA'' else ''A'')"

definition parse_literal_ip :: "string \<Rightarrow> addr option" where
  "parse_literal_ip host =
    (case parse_ip host of
       Some ip \<Rightarrow> Some ip
     | None \<Rightarrow>
         if has_prefix host ''['' \<and> has_suffix host '']''
         then parse_ip (take (length host - 2) (drop 1 host)) else None)"

definition endpoint_host :: "doh_env \<Rightarrow> string \<Rightarrow> string" where
  "endpoint_host env endpoint =
    (case dh_url env endpoint of
       None \<Rightarrow> ''endpoint''
     | Some (_, host) \<Rightarrow> if host = [] then ''endpoint'' else host)"

section \<open>Queries\<close>

definition doh_query :: "doh_env \<Rightarrow> string \<Rightarrow> string \<Rightarrow> int \<Rightarrow> doh_error + addr list" where
  "doh_query env endpoint host rr =
    (let name = endpoint_host env endpoint in
     case dh_url env endpoint of
       None \<Rightarrow> Inl InvalidEndpoint
     | Some (scheme, uhost) \<Rightarrow>
         if scheme \<noteq> ''https'' \<or> uhost = [] then Inl InvalidEndpoint
         else (case dh_fetch env endpoint host (type_name rr) of
           RequestFailed \<Rightarrow> Inl (RequestError name)
         | ContextDone \<Rightarrow> Inl ContextError
         | BodyFailed \<Rightarrow> Inl (ReadError name)
         | Reply status body0 \<Rightarrow>
             let body = take (max_body_bytes + 1) body0 in
             if length body > max_body_bytes then Inl (TooLarge name)
             else if status \<noteq> 200 then Inl (HttpStatus name status)
             else (case dh_json env body of
               None \<Rightarrow> Inl (InvalidJson name)
             | Some (None, _) \<Rightarrow> Inl (MissingStatus name)
             | Some (Some st, answers) \<Rightarrow>
                 if st \<noteq> 0 then Inl (DnsStatus name st) else Inr (filter_addresses answers rr))))"

definition lookup_endpoint :: "doh_env \<Rightarrow> string \<Rightarrow> string \<Rightarrow> doh_error + addr list" where
  "lookup_endpoint env endpoint host =
    (let r4 = doh_query env endpoint host type_a in
     case r4 of
       Inr (ip # ips) \<Rightarrow> Inr (ip # ips)
     | _ \<Rightarrow>
         if \<not> dh_time_left env endpoint type_a then Inl ContextError
         else
           (let r6 = doh_query env endpoint host type_aaaa in
            case r6 of
              Inr (ip # ips) \<Rightarrow> Inr (ip # ips)
            | _ \<Rightarrow>
                if \<not> dh_time_left env endpoint type_aaaa then Inl ContextError
                else (case (r4, r6) of
                        (Inl e4, Inl e6) \<Rightarrow> Inl (Joined [e4, e6])
                      | (Inl e4, Inr _) \<Rightarrow> Inl e4
                      | (Inr _, Inl e6) \<Rightarrow> Inl e6
                      | (Inr _, Inr _) \<Rightarrow> Inr [])))"

fun try_endpoints :: "doh_env \<Rightarrow> string \<Rightarrow> string list \<Rightarrow> doh_error list \<Rightarrow> doh_error + addr list" where
  "try_endpoints env host [] errs = Inl (if errs = [] then NoRecords [] else Joined errs)"
| "try_endpoints env host (ep # eps) errs =
     (case lookup_endpoint env ep host of
        Inl err \<Rightarrow>
          if \<not> dh_lookup_time_left env ep then Inl (Joined (errs @ [err]))
          else try_endpoints env host eps (errs @ [err])
      | Inr ips \<Rightarrow>
          if ips \<noteq> [] then Inr ips
          else if \<not> dh_lookup_time_left env ep then Inl (Joined (errs @ [NoRecords (endpoint_host env ep)]))
          else try_endpoints env host eps (errs @ [NoRecords (endpoint_host env ep)]))"

definition doh_lookup :: "doh_env \<Rightarrow> string list \<Rightarrow> string \<Rightarrow> doh_error + addr list" where
  "doh_lookup env endpoints host0 =
    (let host = trim_space host0 in
     if host = [] then Inl EmptyHost
     else (case parse_literal_ip host of
       Some ip \<Rightarrow> Inr [ip]
     | None \<Rightarrow> if endpoints = [] then Inl NoEndpoints else try_endpoints env host endpoints []))"

section \<open>Lemmas\<close>

text \<open>The addresses of one family among the answers of that type, in the order of the answers.\<close>

definition addresses_of :: "int \<Rightarrow> doh_answer list \<Rightarrow> addr list" where
  "addresses_of rr answers =
    filter (\<lambda>ip. is_v4 ip \<longleftrightarrow> rr = type_a)
      (List.map_filter (\<lambda>a. parse_ip (trim_space (da_data a))) (filter (\<lambda>a. da_type a = rr) answers))"

lemma filter_addresses_eq: "filter_addresses answers rr = addresses_of rr answers"
  by (induction answers) (auto simp: addresses_of_def List.map_filter_def split: option.split)

text \<open>A usable answer of a provider for a name.\<close>

definition answered :: "doh_env \<Rightarrow> string \<Rightarrow> string \<Rightarrow> int \<Rightarrow> doh_answer list \<Rightarrow> bool" where
  "answered env endpoint host rr answers \<longleftrightarrow>
     (\<exists>uhost body. dh_url env endpoint = Some (''https'', uhost) \<and> uhost \<noteq> [] \<and>
        dh_fetch env endpoint host (type_name rr) = Reply 200 body \<and> length body \<le> max_body_bytes \<and>
        dh_json env body = Some (Some 0, answers))"

lemma doh_query_Inr_iff:
  "doh_query env endpoint host rr = Inr ips \<longleftrightarrow> (\<exists>answers. answered env endpoint host rr answers \<and> ips = addresses_of rr answers)"
proof
  assume q: "doh_query env endpoint host rr = Inr ips"
  then obtain scheme uhost where u: "dh_url env endpoint = Some (scheme, uhost)" "scheme = ''https''" "uhost \<noteq> []"
    unfolding doh_query_def Let_def by (auto split: option.split_asm if_split_asm)
  from q u obtain status body0 where r: "dh_fetch env endpoint host (type_name rr) = Reply status body0"
    unfolding doh_query_def Let_def by (auto split: doh_reply.split_asm)
  have small: "length body0 \<le> max_body_bytes" "status = 200"
    using q u r unfolding doh_query_def Let_def by (auto split: if_split_asm)
  then have "take (max_body_bytes + 1) body0 = body0" by simp
  with q u r small show "\<exists>answers. answered env endpoint host rr answers \<and> ips = addresses_of rr answers"
    unfolding doh_query_def Let_def answered_def
    by (auto simp: filter_addresses_eq split: option.split_asm prod.split_asm if_split_asm)
next
  assume "\<exists>answers. answered env endpoint host rr answers \<and> ips = addresses_of rr answers"
  then show "doh_query env endpoint host rr = Inr ips"
    unfolding doh_query_def Let_def answered_def by (auto simp: filter_addresses_eq)
qed

lemma lookup_endpoint_Inr:
  assumes "lookup_endpoint env ep host = Inr ips" "ips \<noteq> []"
  obtains (v4) "doh_query env ep host type_a = Inr ips"
  | (v6) "doh_query env ep host type_aaaa = Inr ips" "dh_time_left env ep type_a"
      "\<And>ips4. doh_query env ep host type_a = Inr ips4 \<Longrightarrow> ips4 = []"
proof (cases "doh_query env ep host type_a")
  case (Inl e)
  with assms v6 show ?thesis
    by (cases "doh_query env ep host type_aaaa")
      (auto simp: lookup_endpoint_def Let_def neq_Nil_conv split: if_split_asm list.split_asm)
next
  case (Inr ips4)
  show ?thesis
  proof (cases ips4)
    case (Cons ip rest)
    with assms Inr v4 show ?thesis by (simp add: lookup_endpoint_def)
  next
    case Nil
    with assms Inr v6 show ?thesis
      by (cases "doh_query env ep host type_aaaa")
        (auto simp: lookup_endpoint_def Let_def neq_Nil_conv split: if_split_asm list.split_asm)
  qed
qed

lemma try_endpoints_Inr:
  assumes "try_endpoints env host eps errs = Inr ips"
  shows "\<exists>before ep after. eps = before @ ep # after \<and> lookup_endpoint env ep host = Inr ips \<and> ips \<noteq> [] \<and>
    (\<forall>b\<in>set before. \<forall>ips'. lookup_endpoint env b host = Inr ips' \<longrightarrow> ips' = [])"
  using assms
proof (induction eps arbitrary: errs)
  case Nil
  then show ?case by simp
next
  case (Cons ep eps)
  show ?case
  proof (cases "lookup_endpoint env ep host = Inr ips \<and> ips \<noteq> []")
    case True
    then show ?thesis by (intro exI [of _ "[]"] exI [of _ ep] exI [of _ eps]) simp
  next
    case False
    with Cons.prems obtain errs' where n: "try_endpoints env host eps errs' = Inr ips"
      and e: "\<forall>ips'. lookup_endpoint env ep host = Inr ips' \<longrightarrow> ips' = []"
      by (auto split: sum.split_asm if_split_asm)
    from Cons.IH [OF n] obtain before ep' after where "eps = before @ ep' # after"
      "lookup_endpoint env ep' host = Inr ips" "ips \<noteq> []"
      "\<forall>b\<in>set before. \<forall>ips'. lookup_endpoint env b host = Inr ips' \<longrightarrow> ips' = []" by blast
    with e show ?thesis by (intro exI [of _ "ep # before"] exI [of _ ep'] exI [of _ after]) auto
  qed
qed

section \<open>Properties\<close>

text \<open>
  C38: a lookup that succeeds gives at least one address: that of a literal, or exactly the
  addresses of one family, in order, in the answer of the first provider that had any, asked over
  \<^verbatim>\<open>https\<close> and answering without error; IPv6 only if that provider gave no IPv4 address.
\<close>

theorem doh_lookup_sound:
  assumes "doh_lookup env endpoints host = Inr ips"
  shows "ips \<noteq> [] \<and>
    (case parse_literal_ip (trim_space host) of
       Some ip \<Rightarrow> ips = [ip]
     | None \<Rightarrow> (\<exists>before ep after rr answers. endpoints = before @ ep # after \<and> rr \<in> {type_a, type_aaaa} \<and>
         answered env ep (trim_space host) rr answers \<and> ips = addresses_of rr answers \<and>
         list_all (\<lambda>ip. is_v4 ip \<longleftrightarrow> rr = type_a) ips \<and>
         (\<forall>b\<in>set before. \<forall>ips'. lookup_endpoint env b (trim_space host) = Inr ips' \<longrightarrow> ips' = []) \<and>
         (rr = type_aaaa \<longrightarrow> (\<forall>as. answered env ep (trim_space host) type_a as \<longrightarrow> addresses_of type_a as = []))))"
proof (cases "parse_literal_ip (trim_space host)")
  case (Some ip)
  with assms show ?thesis by (auto simp: doh_lookup_def Let_def split: if_split_asm)
next
  case None
  with assms have "try_endpoints env (trim_space host) endpoints [] = Inr ips"
    by (auto simp: doh_lookup_def Let_def split: if_split_asm)
  from try_endpoints_Inr [OF this] obtain before ep after where
    ep: "endpoints = before @ ep # after" "lookup_endpoint env ep (trim_space host) = Inr ips" "ips \<noteq> []" and
    b: "\<forall>b\<in>set before. \<forall>ips'. lookup_endpoint env b (trim_space host) = Inr ips' \<longrightarrow> ips' = []" by blast
  from ep(2,3) have "\<exists>rr answers. rr \<in> {type_a, type_aaaa} \<and> answered env ep (trim_space host) rr answers \<and> ips = addresses_of rr answers \<and>
      (rr = type_aaaa \<longrightarrow> (\<forall>as. answered env ep (trim_space host) type_a as \<longrightarrow> addresses_of type_a as = []))"
  proof (cases rule: lookup_endpoint_Inr)
    case v4
    then show ?thesis by (intro exI [of _ type_a]) (auto simp: doh_query_Inr_iff type_a_def type_aaaa_def)
  next
    case v6
    then show ?thesis by (auto simp: doh_query_Inr_iff)
  qed
  then obtain rr answers where rr: "rr \<in> {type_a, type_aaaa}" "answered env ep (trim_space host) rr answers" "ips = addresses_of rr answers"
    "rr = type_aaaa \<longrightarrow> (\<forall>as. answered env ep (trim_space host) type_a as \<longrightarrow> addresses_of type_a as = [])" by blast
  have "list_all (\<lambda>ip. is_v4 ip \<longleftrightarrow> rr = type_a) ips" by (simp add: rr(3) addresses_of_def list_all_iff)
  with ep b rr show ?thesis unfolding None option.case by blast
qed

section \<open>Witnesses\<close>

text \<open>A provider that answers queries of type A with a name record and an address.\<close>

definition sample_doh :: doh_env where
  "sample_doh =
    \<lparr>dh_fetch = (\<lambda>ep host ty. if ty = ''A'' then Reply 200 [] else RequestFailed),
     dh_json = (\<lambda>b. Some (Some 0, [\<lparr>da_type = 5, da_data = ''alias.''\<rparr>, \<lparr>da_type = 1, da_data = '' 93.184.216.34 ''\<rparr>])),
     dh_url = (\<lambda>ep. Some (''https'', ''doh.pub'')), dh_time_left = (\<lambda>_ _. True), dh_lookup_time_left = (\<lambda>_. True)\<rparr>"

theorem doh_lookup_sound_witness:
  "\<exists>rr answers. answered sample_doh ''https://doh.pub/dns-query'' ''h'' rr answers \<and> addresses_of rr answers = [V4 0x5DB8D822]"
proof -
  have l: "doh_lookup sample_doh default_endpoints ''h'' = Inr [V4 0x5DB8D822]" by code_simp
  have n: "parse_literal_ip ''h'' = None" "trim_space ''h'' = ''h''" by code_simp+
  from doh_lookup_sound [OF l] obtain before ep after rr answers where
    e: "default_endpoints = before @ ep # after" "answered sample_doh ep ''h'' rr answers" "[V4 0x5DB8D822] = addresses_of rr answers"
    unfolding n option.case by blast
  then have "answered sample_doh ''https://doh.pub/dns-query'' ''h'' rr answers" by (simp add: answered_def sample_doh_def)
  with e(3) show ?thesis by metis
qed

end
