(* ===== verification/Cli_Client.thy ===== *)
theory Cli_Client
  imports Ws_Handler Cli_Options Cli_Doh Go_Json_Array
begin

text \<open>
  The client of \<^verbatim>\<open>internal/cli\<close> up to its sessions: \<^verbatim>\<open>cli.go\<close> (the URLs, the proxy, saved credentials, keys
  and what \<^verbatim>\<open>Run\<close> sends), \<^verbatim>\<open>private.go\<close> and \<^verbatim>\<open>private_dial.go\<close> (connecting to a resolved address without
  naming the server). A URL is the record that \<^verbatim>\<open>url.Parse\<close> gives; parsing is a parameter. What the network
  does is given as the outcome of each step, and what the client does is returned in order.
\<close>

section \<open>URLs\<close>

record url =
  ur_scheme :: string
  ur_user :: "(string \<times> string) option"
  ur_host :: string
  ur_path :: string

text \<open>\<^verbatim>\<open>Hostname\<close> and \<^verbatim>\<open>Port\<close> of a URL's host: a final colon with digits only is the port, brackets go.\<close>

definition split_url_host :: "string \<Rightarrow> string \<times> string" where
  "split_url_host h =
    (let (host, port) = (case last_cut h CHR '':'' of
           Some (a, p) \<Rightarrow> if list_all is_digit p then (a, p) else (h, [])
         | None \<Rightarrow> (h, []))
     in (if has_prefix host ''['' \<and> has_suffix host '']'' then take (length host - 2) (drop 1 host) else host, port))"

definition url_hostname :: "url \<Rightarrow> string" where
  "url_hostname u = fst (split_url_host (ur_host u))"

definition url_port :: "url \<Rightarrow> string" where
  "url_port u = snd (split_url_host (ur_host u))"

text \<open>\<^verbatim>\<open>String\<close> of a URL without user, query and fragment, with a host that needs no escaping.\<close>

definition url_string :: "url \<Rightarrow> string" where
  "url_string u = ur_scheme u @ ''://'' @ ur_host u @ ur_path u"

definition origin_from_url :: "url \<Rightarrow> string" where
  "origin_from_url u =
    (let scheme = (if ur_scheme u = ''wss'' then ''https'' else if ur_scheme u = ''ws'' then ''http'' else ur_scheme u);
         host = (if (scheme = ''https'' \<and> url_port u = ''443'') \<or> (scheme = ''http'' \<and> url_port u = ''80'')
                 then url_hostname u else ur_host u)
     in url_string \<lparr>ur_scheme = scheme, ur_user = None, ur_host = host, ur_path = []\<rparr>)"

definition api_url :: "url \<Rightarrow> string \<Rightarrow> url" where
  "api_url base path = base\<lparr>ur_path := trim_suffix (ur_path base) ''/'' @ path\<rparr>"

definition websocket_url :: "url \<Rightarrow> string \<Rightarrow> url" where
  "websocket_url base path =
    base\<lparr>ur_scheme := (if ur_scheme base = ''https'' then ''wss'' else if ur_scheme base = ''http'' then ''ws'' else ur_scheme base),
         ur_path := trim_suffix (ur_path base) ''/'' @ path\<rparr>"

definition ws_url :: "url \<Rightarrow> url" where
  "ws_url base = websocket_url base ''/api/ws/ssh''"

definition tunnel_ws_url :: "url \<Rightarrow> url" where
  "tunnel_ws_url base = websocket_url base ''/api/ws/tunnel''"

definition origin_from_server_url :: "(string \<Rightarrow> url option) \<Rightarrow> string \<Rightarrow> cli_error + string" where
  "origin_from_server_url parse raw =
    (case parse raw of
       None \<Rightarrow> Inl (CliError ''invalid url'')
     | Some u \<Rightarrow> if ur_host u = [] then Inl (CliError ''invalid url'') else Inr (origin_from_url u))"

section \<open>The client\<close>

datatype proxy_choice = NoProxy | EnvironmentProxy | FixedProxy url

record tls_config =
  tc_min_version :: int
  tc_server_name :: string
  tc_insecure :: bool
  tc_verify :: "string option"

definition tls12 :: int where "tls12 = 0x0303"

definition tls13 :: int where "tls13 = 0x0304"

text \<open>\<open>cl_private\<close> is the address of a private connection, empty before it is resolved; \<open>cl_dial\<close> its destination and proxy.\<close>

record client =
  cl_opt :: cli_options
  cl_base :: url
  cl_origin :: string
  cl_proxy :: proxy_choice
  cl_tls :: tls_config
  cl_private :: "string option"
  cl_dial :: "(string \<times> url option) option"

definition proxy_func :: "(string \<Rightarrow> url option) \<Rightarrow> cli_options \<Rightarrow> (string \<Rightarrow> string) \<Rightarrow> cli_error + proxy_choice" where
  "proxy_func parse opt getenv =
    (if co_no_proxy opt then Inr NoProxy
     else
       let raw0 = trim_space (co_proxy_url opt);
           raw = (if raw0 = [] then trim_space (getenv ''GOWEBSSH_PROXY'') else raw0)
       in if raw = [] then Inr EnvironmentProxy
          else (case parse raw of
            None \<Rightarrow> Inl (InvalidUrl raw)
          | Some u \<Rightarrow>
              if ur_scheme u = [] \<or> ur_host u = [] then Inl (InvalidUrl raw)
              else if to_lower (ur_scheme u) \<noteq> ''http'' \<and> to_lower (ur_scheme u) \<noteq> ''https''
              then Inl (CliError ''unsupported proxy scheme (want http or https)'')
              else Inr (FixedProxy u)))"

definition base_url :: "(string \<Rightarrow> url option) \<Rightarrow> cli_options \<Rightarrow> cli_error + url" where
  "base_url parse opt =
    (case parse (trim_space (co_server_url opt)) of
       None \<Rightarrow> Inl (InvalidUrl (co_server_url opt))
     | Some base \<Rightarrow>
         if ur_host base = [] then Inl (InvalidUrl (co_server_url opt))
         else if ur_scheme base = ''http'' \<or> ur_scheme base = ''https'' then Inr base
         else if ur_scheme base = ''ws'' then Inr (base\<lparr>ur_scheme := ''http''\<rparr>)
         else if ur_scheme base = ''wss'' then Inr (base\<lparr>ur_scheme := ''https''\<rparr>)
         else Inl (CliError ''unsupported WebSSH URL scheme''))"

definition new_client :: "(string \<Rightarrow> url option) \<Rightarrow> cli_options \<Rightarrow> (string \<Rightarrow> string) \<Rightarrow> cli_error + client" where
  "new_client parse opt getenv =
    bind_result (base_url parse opt) (\<lambda>base.
    bind_result
      (if \<not> co_private_connect opt then Inr ()
       else if ur_scheme base \<noteq> ''https'' then Inl (CliError ''private connection mode requires an HTTPS/WSS URL'')
       else if co_insecure_tls opt
       then Inl (CliError ''private connection mode requires certificate verification; remove --insecure'')
       else if ur_user base \<noteq> None then Inl (CliError ''private connection URL must not contain user information'')
       else Inr ()) (\<lambda>_.
    bind_result (proxy_func parse opt getenv) (\<lambda>proxy.
      Inr \<lparr>cl_opt = opt, cl_base = base, cl_origin = origin_from_url base, cl_proxy = proxy,
           cl_tls = \<lparr>tc_min_version = tls12, tc_server_name = [], tc_insecure = co_insecure_tls opt, tc_verify = None\<rparr>,
           cl_private = (if co_private_connect opt then Some [] else None), cl_dial = None\<rparr>)))"

section \<open>Private connections\<close>

text \<open>The configuration verifies the certificate for the host name itself; \<open>tc_verify\<close> is that name.\<close>

definition private_tls_config :: "tls_config \<Rightarrow> string \<Rightarrow> string \<Rightarrow> tls_config" where
  "private_tls_config base hostname address =
    base\<lparr>tc_min_version := tls13, tc_server_name := address, tc_insecure := True, tc_verify := Some hostname\<rparr>"

definition verify_connection :: "(string \<Rightarrow> 'cert list \<Rightarrow> bool) \<Rightarrow> tls_config \<Rightarrow> int \<Rightarrow> 'cert list \<Rightarrow> bool" where
  "verify_connection chain_ok cfg version certs =
    (case tc_verify cfg of
       None \<Rightarrow> True
     | Some hostname \<Rightarrow> \<not> (version < tls13 \<or> certs = []) \<and> chain_ok hostname certs)"

text \<open>The proxy of a request: \<^verbatim>\<open>http.ProxyFromEnvironment\<close>, which may fail, is the parameter \<open>from_env\<close>.\<close>

fun select_proxy :: "(url \<Rightarrow> url option option) \<Rightarrow> proxy_choice \<Rightarrow> url \<Rightarrow> url option option" where
  "select_proxy from_env NoProxy u = Some None"
| "select_proxy from_env (FixedProxy p) u = Some (Some p)"
| "select_proxy from_env EnvironmentProxy u = from_env u"

definition prepare_private_connection ::
  "(string \<Rightarrow> doh_error + addr list) \<Rightarrow> (url \<Rightarrow> url option option) \<Rightarrow> client \<Rightarrow> cli_error + client" where
  "prepare_private_connection lookup from_env c =
    (case cl_private c of
       None \<Rightarrow> Inr c
     | Some known \<Rightarrow>
         if known \<noteq> [] then Inr c
         else (case lookup (url_hostname (cl_base c)) of
           Inl _ \<Rightarrow> Inl (CliError ''resolve WebSSH server using DoH'')
         | Inr [] \<Rightarrow> Inl (CliError ''DoH returned no WebSSH server addresses'')
         | Inr (ip # _) \<Rightarrow>
             let address = addr_string ip in
             (case select_proxy from_env (cl_proxy c) (cl_base c) of
                None \<Rightarrow> Inl (CliError ''cannot select HTTP proxy for private connection'')
              | Some proxy \<Rightarrow>
                  if (case proxy of None \<Rightarrow> False | Some p \<Rightarrow> ur_scheme p \<noteq> ''http'' \<and> ur_scheme p \<noteq> ''https'')
                  then Inl (CliError ''private connection supports HTTP and HTTPS proxies'')
                  else
                    let port = (if url_port (cl_base c) = [] then ''443'' else url_port (cl_base c)) in
                    Inr (c\<lparr>cl_proxy := NoProxy, cl_tls := private_tls_config (cl_tls c) (url_hostname (cl_base c)) address,
                           cl_private := Some address, cl_dial := Some (join_host_port address port, proxy)\<rparr>))))"

definition host_with_ip :: "url \<Rightarrow> string \<Rightarrow> string" where
  "host_with_ip u address =
    (if url_port u \<noteq> [] then join_host_port address (url_port u)
     else (case parse_ip address of Some (V4 _) \<Rightarrow> address | _ \<Rightarrow> ''['' @ address @ '']''))"

text \<open>A request as it leaves: the URL it goes to and the \<^verbatim>\<open>Host\<close> it names.\<close>

definition private_round_trip :: "string \<Rightarrow> string \<Rightarrow> url \<Rightarrow> cli_error + url \<times> string" where
  "private_round_trip host address u =
    (if ur_scheme u \<noteq> ''https'' \<or> ur_host u \<noteq> host
     then Inl (CliError ''private connection only permits the configured HTTPS origin'')
     else Inr (u\<lparr>ur_host := host_with_ip u address\<rparr>, host))"

definition private_websocket_url :: "client \<Rightarrow> url \<Rightarrow> cli_error + url" where
  "private_websocket_url c u =
    (case cl_private c of
       Some address \<Rightarrow>
         if ur_scheme u \<noteq> ''wss'' \<or> ur_host u \<noteq> ur_host (cl_base c) \<or> address = []
         then Inl (CliError ''private WebSocket requires the configured WSS origin and a resolved address'')
         else Inr (u\<lparr>ur_host := host_with_ip u address\<rparr>)
     | None \<Rightarrow> Inr u)"

text \<open>What \<^verbatim>\<open>dialWSURL\<close> dials, and the \<^verbatim>\<open>Origin\<close> and \<^verbatim>\<open>Host\<close> it sends.\<close>

definition dial_ws_url :: "client \<Rightarrow> url \<Rightarrow> cli_error + url \<times> string \<times> string" where
  "dial_ws_url c u =
    bind_result (private_websocket_url c u) (\<lambda>endpoint.
      Inr (endpoint, cl_origin c, if cl_private c \<noteq> None then ur_host (cl_base c) else ur_host endpoint))"

section \<open>Dialling a private connection\<close>

datatype connect_outcome = ConnectWriteFails | ConnectReadFails | ConnectStatus int

record dial_env =
  de_dial :: "string \<Rightarrow> bool"
  de_proxy_tls :: bool
  de_connect :: connect_outcome
  de_target_tls :: "tls_config \<Rightarrow> bool"
  de_in_time :: bool
  de_clear_deadline :: bool

datatype dial_action =
    DialTcp string
  | ProxyTls string
  | SendConnect string "(string \<times> string) option"
  | TargetTls tls_config
  | CloseTcp

definition first_hop :: "string \<Rightarrow> url option \<Rightarrow> string" where
  "first_hop destination proxy =
    (case proxy of
       None \<Rightarrow> destination
     | Some p \<Rightarrow> join_host_port (url_hostname p)
         (if url_port p \<noteq> [] then url_port p else if ur_scheme p = ''https'' then ''443'' else ''80''))"

text \<open>Through the proxy, if there is one: the actions, and whether the tunnel is open.\<close>

definition through_proxy :: "dial_env \<Rightarrow> string \<Rightarrow> url option \<Rightarrow> dial_action list \<times> bool" where
  "through_proxy env destination proxy =
    (case proxy of
       None \<Rightarrow> ([], True)
     | Some p \<Rightarrow>
         let tls = (if ur_scheme p = ''https'' then [ProxyTls (url_hostname p)] else []) in
         if ur_scheme p = ''https'' \<and> \<not> de_proxy_tls env then (tls, False)
         else (tls @ [SendConnect destination (ur_user p)], de_connect env = ConnectStatus 200))"

definition private_tls_dialer ::
  "dial_env \<Rightarrow> string \<Rightarrow> url option \<Rightarrow> tls_config \<Rightarrow> string \<Rightarrow> string \<Rightarrow> dial_action list \<times> bool" where
  "private_tls_dialer env destination proxy cfg network address =
    (if network \<noteq> ''tcp'' \<or> address \<noteq> destination then ([], False)
     else if \<not> de_dial env (first_hop destination proxy) then ([DialTcp (first_hop destination proxy)], False)
     else
       let opened = DialTcp (first_hop destination proxy) in
       (case through_proxy env destination proxy of
          (acts, False) \<Rightarrow> (opened # acts @ [CloseTcp], False)
        | (acts, True) \<Rightarrow>
            if \<not> de_target_tls env cfg then (opened # acts @ [TargetTls cfg, CloseTcp], False)
            else if \<not> de_in_time env \<or> \<not> de_clear_deadline env then (opened # acts @ [TargetTls cfg, CloseTcp], False)
            else (opened # acts @ [TargetTls cfg], True)))"

section \<open>The web interface\<close>

datatype api_reply = Unreachable | ApiReply int bytes string

record saved_credential =
  sc_id :: string
  sc_name :: string
  sc_host :: string
  sc_port :: int
  sc_username :: string
  sc_private_key :: string
  sc_passphrase :: string
  sc_term :: string
  sc_use_tmux :: bool
  sc_use_herdr :: bool

text \<open>What the client takes of the answers: the message of an error, the list of credentials, and a credential.\<close>

definition api_error_fields :: "(bool \<times> string \<times> string) json_fields" where
  "api_error_fields =
    [(''ok'', field store_bool fst (\<lambda>k (_, e). (k, e))), (''error'', field (store_struct error_fields) snd (\<lambda>e (k, _). (k, e)))]"

definition decode_api_error :: "bytes \<Rightarrow> (string \<times> string) option" where
  "decode_api_error b = map_option snd (if_fits (json_unmarshal (store_struct api_error_fields) b (False, [], [])))"

definition cli_summary_fields :: "cli_summary json_fields" where
  "cli_summary_fields =
    [(''id'', field store_string cs_id (\<lambda>v. cs_id_update (\<lambda>_. v))),
     (''name'', field store_string cs_name (\<lambda>v. cs_name_update (\<lambda>_. v))),
     (''host'', field store_string cs_host (\<lambda>v. cs_host_update (\<lambda>_. v))),
     (''port'', field store_int cs_port (\<lambda>v. cs_port_update (\<lambda>_. v))),
     (''username'', field store_string cs_username (\<lambda>v. cs_username_update (\<lambda>_. v))),
     (''term'', field store_string cs_term (\<lambda>v. cs_term_update (\<lambda>_. v))),
     (''useTmux'', field store_bool cs_use_tmux (\<lambda>v. cs_use_tmux_update (\<lambda>_. v)))]"

definition new_cli_summary :: cli_summary where
  "new_cli_summary = \<lparr>cs_id = [], cs_name = [], cs_host = [], cs_port = 0, cs_username = [], cs_term = [], cs_use_tmux = False\<rparr>"

definition decode_list :: "bytes \<Rightarrow> cli_summary list option" where
  "decode_list b = if_fits (json_decode
    (store_struct [(''credentials'', store_list (store_struct cli_summary_fields) new_cli_summary)]) b [])"

definition saved_fields :: "saved_credential json_fields" where
  "saved_fields =
    [(''id'', field store_string sc_id (\<lambda>v. sc_id_update (\<lambda>_. v))),
     (''name'', field store_string sc_name (\<lambda>v. sc_name_update (\<lambda>_. v))),
     (''host'', field store_string sc_host (\<lambda>v. sc_host_update (\<lambda>_. v))),
     (''port'', field store_int sc_port (\<lambda>v. sc_port_update (\<lambda>_. v))),
     (''username'', field store_string sc_username (\<lambda>v. sc_username_update (\<lambda>_. v))),
     (''privateKey'', field store_string sc_private_key (\<lambda>v. sc_private_key_update (\<lambda>_. v))),
     (''passphrase'', field store_string sc_passphrase (\<lambda>v. sc_passphrase_update (\<lambda>_. v))),
     (''term'', field store_string sc_term (\<lambda>v. sc_term_update (\<lambda>_. v))),
     (''useTmux'', field store_bool sc_use_tmux (\<lambda>v. sc_use_tmux_update (\<lambda>_. v))),
     (''useHerdr'', field store_bool sc_use_herdr (\<lambda>v. sc_use_herdr_update (\<lambda>_. v)))]"

definition new_saved :: saved_credential where
  "new_saved = \<lparr>sc_id = [], sc_name = [], sc_host = [], sc_port = 0, sc_username = [], sc_private_key = [], sc_passphrase = [],
     sc_term = [], sc_use_tmux = False, sc_use_herdr = False\<rparr>"

definition decode_saved :: "bytes \<Rightarrow> saved_credential option" where
  "decode_saved b = if_fits (json_decode (store_struct saved_fields) b new_saved)"

text \<open>What the server answers to the login and to a request for a path.\<close>

record api_env =
  ae_get :: "string \<Rightarrow> api_reply"
  ae_login :: api_reply

definition read_api_error :: "bytes \<Rightarrow> string \<Rightarrow> string" where
  "read_api_error body0 status =
    (let body = take 4096 body0 in
     case decode_api_error body of
       Some (code, msg) \<Rightarrow>
         if msg \<noteq> [] then (if code \<noteq> [] then code @ '': '' @ msg else msg)
         else if trim_space body \<noteq> [] \<and> CHR ''<'' \<notin> set body then trim_space body else status
     | None \<Rightarrow> if trim_space body \<noteq> [] \<and> CHR ''<'' \<notin> set body then trim_space body else status)"

definition cli_login :: "api_env \<Rightarrow> cli_error + unit" where
  "cli_login env =
    (case ae_login env of
       Unreachable \<Rightarrow> Inl (CliError ''login'')
     | ApiReply status body text \<Rightarrow>
         if status \<noteq> 200 then Inl (CliError (''login: '' @ read_api_error body text)) else Inr ())"

definition list_credentials :: "api_env \<Rightarrow> cli_error + cli_summary list" where
  "list_credentials env =
    (case ae_get env ''/api/credentials'' of
       Unreachable \<Rightarrow> Inl (CliError ''list credentials'')
     | ApiReply status body text \<Rightarrow>
         if status \<noteq> 200 then Inl (CliError (''list credentials: '' @ read_api_error body text))
         else of_option (CliError ''list credentials: invalid response'') (decode_list body))"

text \<open>\<^verbatim>\<open>url.PathEscape\<close>.\<close>

definition upper_hex :: "nat \<Rightarrow> char" where
  "upper_hex n = char_of (if n < 10 then 48 + n else 55 + n)"

definition path_plain :: "char \<Rightarrow> bool" where
  "path_plain c \<longleftrightarrow> is_digit c \<or> (65 \<le> byte c \<and> byte c \<le> 90) \<or> (97 \<le> byte c \<and> byte c \<le> 122) \<or> c \<in> set ''-_.~$&+=:@''"

fun path_escape :: "string \<Rightarrow> string" where
  "path_escape [] = []"
| "path_escape (c # cs) =
     (if path_plain c then [c] else [CHR ''%'', upper_hex (byte c div 16), upper_hex (byte c mod 16)]) @ path_escape cs"

definition fetch_saved :: "api_env \<Rightarrow> string \<Rightarrow> cli_error + saved_credential" where
  "fetch_saved env name_or_id =
    bind_result (list_credentials env) (\<lambda>items.
    bind_result (match_saved items name_or_id) (\<lambda>i.
    case ae_get env (''/api/credentials/'' @ path_escape i) of
      Unreachable \<Rightarrow> Inl (CliError ''saved credential'')
    | ApiReply status body text \<Rightarrow>
        if status \<noteq> 200 then Inl (CliError (''saved credential: '' @ read_api_error body text))
        else bind_result (of_option (CliError ''saved credential: invalid response'') (decode_saved body)) (\<lambda>item.
          if trim_space (sc_private_key item) = [] then Inl (CliError ''saved credential has no private key'') else Inr item)))"

text \<open>The lines of \<^verbatim>\<open>--list\<close>: identifier, name, user, host and port of each credential.\<close>

definition list_saved :: "api_env \<Rightarrow> cli_error + (string \<times> string \<times> string \<times> string \<times> int) list" where
  "list_saved env =
    bind_result (list_credentials env) (\<lambda>items.
      Inr (map (\<lambda>it. (cs_id it, cs_name it, cs_username it, cs_host it, if cs_port it = 0 then 22 else cs_port it)) items))"

section \<open>Keys\<close>

definition max_key_bytes :: nat where
  "max_key_bytes = 128 * 1024"

text \<open>\<open>home\<close> is the home directory, if known; joining with it is \<^verbatim>\<open>filepath.Join\<close>, a parameter.\<close>

definition expand_path :: "string option \<Rightarrow> (string \<Rightarrow> string \<Rightarrow> string) \<Rightarrow> string \<Rightarrow> string" where
  "expand_path home pjoin path =
    (if path = ''~'' \<or> has_prefix path ''~/'' \<or> has_prefix path (CHR ''~'' # [CHR 0x5C]) then
       (case home of
          None \<Rightarrow> path
        | Some h \<Rightarrow> if path = ''~'' then h else pjoin h (drop 2 path))
     else path)"

definition read_identity_file ::
  "string option \<Rightarrow> (string \<Rightarrow> string \<Rightarrow> string) \<Rightarrow> (string \<Rightarrow> bytes option) \<Rightarrow> string \<Rightarrow> cli_error + string" where
  "read_identity_file home pjoin files path =
    (case files (expand_path home pjoin path) of
       None \<Rightarrow> Inl (CliError ''identity file'')
     | Some data \<Rightarrow>
         if length data > max_key_bytes then Inl (CliError ''identity file is too large'')
         else if trim_space data = [] then Inl (CliError ''identity file is empty'')
         else Inr data)"

definition read_default_identity ::
  "string option \<Rightarrow> (string \<Rightarrow> string \<Rightarrow> string) \<Rightarrow> (string \<Rightarrow> bytes option) \<Rightarrow> cli_error + string" where
  "read_default_identity home pjoin files =
    (case home of
       None \<Rightarrow> Inl (CliError ''private key is required (-i or --saved)'')
     | Some h \<Rightarrow>
         (case List.map_filter (\<lambda>name. case files (pjoin (pjoin h ''.ssh'') name) of
                 None \<Rightarrow> None
               | Some data \<Rightarrow> if data = [] \<or> length data > max_key_bytes then None else Some data)
               [''id_ed25519'', ''id_ecdsa'', ''id_rsa''] of
            [] \<Rightarrow> Inl (CliError ''private key is required (-i or --saved)'')
          | data # _ \<Rightarrow> Inr data))"

section \<open>What is connected to\<close>

text \<open>
  \<^verbatim>\<open>Run\<close> from the saved credential on: the options win over it, an identity file over its key, and a
  default identity comes last. \<open>needs_passphrase\<close> tells whether a key is encrypted, \<open>size\<close> the window size.
\<close>

record run_env =
  re_home :: "string option"
  re_join :: "string \<Rightarrow> string \<Rightarrow> string"
  re_files :: "string \<Rightarrow> bytes option"
  re_term :: string
  re_needs_passphrase :: "string \<Rightarrow> bool"
  re_prompt :: "cli_error + string"
  re_size :: "(int \<times> int) option"

definition choose_key :: "run_env \<Rightarrow> cli_options \<Rightarrow> string \<Rightarrow> cli_error + string" where
  "choose_key env opt saved_key =
    bind_result
      (if co_identity_file opt \<noteq> [] then read_identity_file (re_home env) (re_join env) (re_files env) (co_identity_file opt)
       else Inr saved_key) (\<lambda>key.
      if key = [] then read_default_identity (re_home env) (re_join env) (re_files env) else Inr key)"

definition or_else :: "string \<Rightarrow> string \<Rightarrow> string" where
  "or_else s t = (if s = [] then t else s)"

definition window_size :: "run_env \<Rightarrow> int \<times> int" where
  "window_size env = (case re_size env of Some (c, r) \<Rightarrow> clamp_size c r | None \<Rightarrow> clamp_size 80 24)"

definition chosen_port :: "cli_options \<Rightarrow> saved_credential option \<Rightarrow> int" where
  "chosen_port opt saved = (if co_port opt = 0 then (case saved of Some c \<Rightarrow> sc_port c | None \<Rightarrow> 0) else co_port opt)"

definition chosen_passphrase :: "run_env \<Rightarrow> string \<Rightarrow> string \<Rightarrow> cli_error + string" where
  "chosen_passphrase env key passphrase =
    (if passphrase = [] \<and> re_needs_passphrase env key then re_prompt env else Inr passphrase)"

text \<open>The body of the login: a map, whose keys are sorted.\<close>

definition login_body :: "string \<Rightarrow> string \<Rightarrow> bytes" where
  "login_body user password = object_text [(''password'', json_quote password), (''username'', json_quote user)]"

definition connect_message ::
  "run_env \<Rightarrow> cli_options \<Rightarrow> string \<Rightarrow> int \<Rightarrow> string \<Rightarrow> string \<Rightarrow> bool \<Rightarrow> string \<Rightarrow> string \<Rightarrow> connect_data" where
  "connect_message env opt host port user trm use_tmux key passphrase =
    (let (cols, rows) = window_size env in
     \<lparr>ct_host = host, ct_port = (if port = 0 then 22 else port), ct_username = user, ct_private_key = key,
      ct_passphrase = passphrase, ct_term = or_else (or_else trm (trim_space (re_term env))) ''xterm-256color'',
      ct_cols = cols, ct_rows = rows, ct_use_herdr = use_tmux, ct_use_tmux = use_tmux,
      ct_herdr_session = co_tmux_session opt, ct_tmux_session = co_tmux_session opt\<rparr>)"

definition connect_parameters :: "run_env \<Rightarrow> cli_options \<Rightarrow> saved_credential option \<Rightarrow> cli_error + connect_data" where
  "connect_parameters env opt saved =
    (let host = or_else (trim_space (co_host opt)) (case saved of Some c \<Rightarrow> sc_host c | None \<Rightarrow> []);
         user = or_else (trim_space (co_ssh_user opt)) (case saved of Some c \<Rightarrow> sc_username c | None \<Rightarrow> []);
         port = chosen_port opt saved;
         trm = or_else (trim_space (co_term opt)) (case saved of Some c \<Rightarrow> sc_term c | None \<Rightarrow> []);
         passphrase0 = or_else (co_passphrase opt) (case saved of Some c \<Rightarrow> sc_passphrase c | None \<Rightarrow> []);
         use_tmux = (co_use_tmux opt \<or> (case saved of Some c \<Rightarrow> sc_use_tmux c \<or> sc_use_herdr c | None \<Rightarrow> False)) in
     bind_result (choose_key env opt (case saved of Some c \<Rightarrow> sc_private_key c | None \<Rightarrow> [])) (\<lambda>key.
     if host = [] \<or> user = [] then Inl (CliError ''destination [user@]host[:port] is required (or --saved)'')
     else bind_result (chosen_passphrase env key passphrase0) (\<lambda>passphrase.
       Inr (connect_message env opt host port user trm use_tmux key passphrase))))"

section \<open>Lemmas\<close>

text \<open>The keys of the server's answers that the client knows, and those it passes over.\<close>

lemma cli_summary_fields_found:
  "field_of cli_summary_fields (json_quote ''id'') = Some (field store_string cs_id (\<lambda>v. cs_id_update (\<lambda>_. v)))"
  "field_of cli_summary_fields (json_quote ''name'') = Some (field store_string cs_name (\<lambda>v. cs_name_update (\<lambda>_. v)))"
  "field_of cli_summary_fields (json_quote ''host'') = Some (field store_string cs_host (\<lambda>v. cs_host_update (\<lambda>_. v)))"
  "field_of cli_summary_fields (json_quote ''port'') = Some (field store_int cs_port (\<lambda>v. cs_port_update (\<lambda>_. v)))"
  "field_of cli_summary_fields (json_quote ''username'') = Some (field store_string cs_username (\<lambda>v. cs_username_update (\<lambda>_. v)))"
  "field_of cli_summary_fields (json_quote ''term'') = Some (field store_string cs_term (\<lambda>v. cs_term_update (\<lambda>_. v)))"
  "field_of cli_summary_fields (json_quote ''useTmux'') = Some (field store_bool cs_use_tmux (\<lambda>v. cs_use_tmux_update (\<lambda>_. v)))"
  by (simp_all add: field_of_hit cli_summary_fields_def)

lemma saved_fields_found:
  "field_of saved_fields (json_quote ''id'') = Some (field store_string sc_id (\<lambda>v. sc_id_update (\<lambda>_. v)))"
  "field_of saved_fields (json_quote ''name'') = Some (field store_string sc_name (\<lambda>v. sc_name_update (\<lambda>_. v)))"
  "field_of saved_fields (json_quote ''host'') = Some (field store_string sc_host (\<lambda>v. sc_host_update (\<lambda>_. v)))"
  "field_of saved_fields (json_quote ''port'') = Some (field store_int sc_port (\<lambda>v. sc_port_update (\<lambda>_. v)))"
  "field_of saved_fields (json_quote ''username'') = Some (field store_string sc_username (\<lambda>v. sc_username_update (\<lambda>_. v)))"
  "field_of saved_fields (json_quote ''privateKey'') = Some (field store_string sc_private_key (\<lambda>v. sc_private_key_update (\<lambda>_. v)))"
  "field_of saved_fields (json_quote ''passphrase'') = Some (field store_string sc_passphrase (\<lambda>v. sc_passphrase_update (\<lambda>_. v)))"
  "field_of saved_fields (json_quote ''term'') = Some (field store_string sc_term (\<lambda>v. sc_term_update (\<lambda>_. v)))"
  "field_of saved_fields (json_quote ''useTmux'') = Some (field store_bool sc_use_tmux (\<lambda>v. sc_use_tmux_update (\<lambda>_. v)))"
  "field_of saved_fields (json_quote ''useHerdr'') = Some (field store_bool sc_use_herdr (\<lambda>v. sc_use_herdr_update (\<lambda>_. v)))"
  by (simp_all add: field_of_hit saved_fields_def)

lemma passed_over:
  "field_of cli_summary_fields (json_quote ''useHerdr'') = None"
  "field_of cli_summary_fields (json_quote ''hasPrivateKey'') = None"
  "field_of cli_summary_fields (json_quote ''hasPassphrase'') = None"
  "field_of cli_summary_fields (json_quote ''updatedAt'') = None"
  "field_of saved_fields (json_quote ''createdAt'') = None"
  "field_of saved_fields (json_quote ''updatedAt'') = None"
  unfolding is_none_code [symmetric] Option.is_none_def [symmetric] by code_simp+

lemma split_url_host_port:
  assumes "list_all is_digit p" "CHR ''['' \<notin> set h"
  shows "split_url_host (h @ CHR '':'' # p) = (h, p)"
proof -
  have "CHR '':'' \<notin> set p" using assms(1) by (auto simp: list_all_iff is_digit_def)
  then have "last_cut (h @ CHR '':'' # p) CHR '':'' = Some (h, p)" by (simp add: last_cut_Some_iff)
  moreover have "\<not> has_prefix h ''[''" using assms(2) by (cases h) (auto simp: has_prefix_def)
  ultimately show ?thesis using assms(1) by (simp add: split_url_host_def)
qed

lemma split_url_host_bare:
  assumes "CHR '':'' \<notin> set h" "CHR ''['' \<notin> set h"
  shows "split_url_host h = (h, [])"
proof -
  have "last_cut h CHR '':'' = None" using assms(1) by (simp add: last_cut_def cut_def)
  moreover have "\<not> has_prefix h ''[''" using assms(2) by (cases h) (auto simp: has_prefix_def)
  ultimately show ?thesis by (simp add: split_url_host_def)
qed

lemma hd_split_on: "split_on c s \<noteq> [] \<and> hd (split_on c s) = takeWhile ((\<noteq>) c) s"
  by (induction s) (auto split: list.split)

lemma split_on_host: "CHR '':'' \<notin> set h \<Longrightarrow> hd (split_on CHR '':'' (h @ CHR '':'' # p)) = h"
  by (simp add: hd_split_on) (induction h, auto)

lemma byte_char: "byte c = 45 \<Longrightarrow> c = CHR ''-''" "byte c = 95 \<Longrightarrow> c = CHR ''_''"
proof -
  have c: "char_of (byte c) = c" by simp
  have d: "char_of (45 :: nat) = CHR ''-''" "char_of (95 :: nat) = CHR ''_''" by code_simp+
  show "c = CHR ''-''" if "byte c = 45" using c d(1) unfolding that by simp
  show "c = CHR ''_''" if "byte c = 95" using c d(2) unfolding that by simp
qed

lemma new_session_id_herdr: "list_all herdr_char (new_session_id rnd)" "length (new_session_id rnd) = 22"
proof -
  have "herdr_char c" if "b64_alphabet c" for c
    using that by (auto simp: b64_alphabet_def b64_val_def herdr_char_def Let_def split: if_split_asm dest: byte_char)
  then show "list_all herdr_char (new_session_id rnd)"
    using b64_encode_alphabet by (metis (no_types, lifting) list_all_iff new_session_id_def)
  show "length (new_session_id rnd) = 22" by (simp add: new_session_id_def length_b64_encode)
qed

lemma herdr_prefix: "list_all herdr_char ''gowebssh-''"
  by code_simp

lemma new_client_private:
  assumes "new_client parse opt getenv = Inr c" "co_private_connect opt"
  shows "ur_scheme (cl_base c) = ''https''" "ur_user (cl_base c) = None" "cl_private c = Some []"
  using assms by (cases "ur_user (cl_base c)"; auto simp: new_client_def bind_result_Inr_iff split: if_split_asm)+

lemma prepare_private_Inr:
  assumes "prepare_private_connection lookup from_env c0 = Inr c" "cl_private c0 = Some []"
  shows "\<exists>ip rest proxy. lookup (url_hostname (cl_base c0)) = Inr (ip # rest) \<and>
    c = c0\<lparr>cl_proxy := NoProxy, cl_tls := private_tls_config (cl_tls c0) (url_hostname (cl_base c0)) (addr_string ip),
      cl_private := Some (addr_string ip),
      cl_dial := Some (join_host_port (addr_string ip) (if url_port (cl_base c0) = [] then ''443'' else url_port (cl_base c0)), proxy)\<rparr>"
  using assms by (auto simp: prepare_private_connection_def Let_def split: sum.split_asm list.split_asm option.split_asm if_split_asm)

lemma read_identity_file_Inr: "read_identity_file home pjoin files path = Inr key \<Longrightarrow> trim_space key \<noteq> []"
  by (auto simp: read_identity_file_def split: option.split_asm if_split_asm)

lemma connect_message_fields:
  "ct_port (connect_message env opt host port user trm use key pass) = (if port = 0 then 22 else port)"
  "ct_host (connect_message env opt host port user trm use key pass) = host"
  "ct_username (connect_message env opt host port user trm use key pass) = user"
  "ct_private_key (connect_message env opt host port user trm use key pass) = key"
  "ct_passphrase (connect_message env opt host port user trm use key pass) = pass"
  "ct_use_tmux (connect_message env opt host port user trm use key pass) = use"
  "ct_use_herdr (connect_message env opt host port user trm use key pass) = use"
  "ct_herdr_session (connect_message env opt host port user trm use key pass) = co_tmux_session opt"
  "ct_tmux_session (connect_message env opt host port user trm use key pass) = co_tmux_session opt"
  "ct_term (connect_message env opt host port user trm use key pass) \<noteq> []"
  by (simp_all add: connect_message_def or_else_def split: prod.split)

lemma connect_message_size:
  "5 \<le> ct_rows (connect_message env opt host port user trm use key pass)"
  "ct_rows (connect_message env opt host port user trm use key pass) \<le> 200"
  "20 \<le> ct_cols (connect_message env opt host port user trm use key pass)"
  "ct_cols (connect_message env opt host port user trm use key pass) \<le> 500"
  by (auto simp: connect_message_def window_size_def clamp_size_def Let_def split: prod.split option.split)

lemma connect_parameters_Inr:
  assumes "connect_parameters env opt saved = Inr ct"
  obtains host port user trm use key pass where "ct = connect_message env opt host port user trm use key pass"
    "host \<noteq> []" "user \<noteq> []" "choose_key env opt (case saved of Some c \<Rightarrow> sc_private_key c | None \<Rightarrow> []) = Inr key"
    "host = or_else (trim_space (co_host opt)) (case saved of Some c \<Rightarrow> sc_host c | None \<Rightarrow> [])"
    "user = or_else (trim_space (co_ssh_user opt)) (case saved of Some c \<Rightarrow> sc_username c | None \<Rightarrow> [])"
    "port = chosen_port opt saved"
  using assms unfolding connect_parameters_def Let_def bind_result_Inr_iff
  apply (elim exE conjE)
  apply (simp only: bind_result_Inr_iff sum.distinct sum.inject simp_thms de_Morgan_disj if_False if_True split: if_split_asm)
  apply (elim exE conjE)
  apply (erule that [OF sym], assumption, assumption, assumption, rule refl, rule refl, rule refl)
  done

section \<open>Properties\<close>

text \<open>
  C39: a server reached by a name accepts the origin its client sends, except on the port 80 written
  out: for \<^verbatim>\<open>http\<close> the client drops the port from its origin, and the server compares the origin with
  the \<^verbatim>\<open>Host\<close> as it came, with the port.
\<close>

theorem client_origin_accepted_iff:
  assumes "ur_scheme base = ''http'' \<or> ur_scheme base = ''https''"
    and "set h \<inter> {CHR '':'', CHR ''['', CHR ''/''} = {}" "h \<noteq> []" "list_all is_digit p"
    and "ur_host base = (if p = [] then h else h @ CHR '':'' # p)"
  shows "is_same_origin (ur_host base) (origin_from_url base) \<longleftrightarrow> \<not> (ur_scheme base = ''http'' \<and> p = ''80'')"
proof -
  have split: "split_url_host (ur_host base) = (h, p)"
    using assms(2,4,5) split_url_host_port split_url_host_bare by auto
  have hp: "url_hostname base = h" "url_port base = p" by (simp_all add: url_hostname_def url_port_def split)
  have first: "p = [] \<or> hd (split_on CHR '':'' (ur_host base)) = h"
    using assms(2,5) split_on_host by auto
  from assms(1) show ?thesis
  proof
    assume s: "ur_scheme base = ''https''"
    have o: "origin_from_url base = ''https://'' @ (if p = ''443'' then h else ur_host base)"
      by (simp add: origin_from_url_def url_string_def s hp)
    have "is_same_origin (ur_host base) (origin_from_url base) \<longleftrightarrow>
        (if p = ''443'' then h else ur_host base) = ur_host base \<or> (if p = ''443'' then h else ur_host base) = hd (split_on CHR '':'' (ur_host base))"
      unfolding o is_same_origin_def by (simp only: has_prefix_append if_True trim_prefix_append Let_def)
    with first s show ?thesis by auto
  next
    assume s: "ur_scheme base = ''http''"
    have o: "origin_from_url base = ''http://'' @ (if p = ''80'' then h else ur_host base)"
      by (simp add: origin_from_url_def url_string_def s hp)
    have n: "\<not> has_prefix (''http://'' @ x) ''https://''" for x by (simp add: has_prefix_def)
    have "is_same_origin (ur_host base) (origin_from_url base) \<longleftrightarrow> (if p = ''80'' then h else ur_host base) = ur_host base"
      unfolding o is_same_origin_def by (simp only: n has_prefix_append if_True if_False trim_prefix_append Let_def)
    with assms(5) s show ?thesis by auto
  qed
qed

text \<open>
  A private connection goes where it was resolved and nowhere else: once prepared, the client
  has no other proxy, every request to the configured origin leaves for the resolved address with
  the name only in its \<^verbatim>\<open>Host\<close>, any other origin is refused, and TLS takes no connection below 1.3 or
  whose chain is not good for the name.
\<close>

theorem private_connection_pinned:
  assumes "new_client parse opt getenv = Inr c0" "co_private_connect opt"
    and "prepare_private_connection lookup from_env c0 = Inr c"
  shows "(\<exists>ip rest proxy. lookup (url_hostname (cl_base c0)) = Inr (ip # rest) \<and>
      cl_base c = cl_base c0 \<and> ur_scheme (cl_base c) = ''https'' \<and> ur_user (cl_base c) = None \<and>
      cl_proxy c = NoProxy \<and> cl_private c = Some (addr_string ip) \<and>
      cl_dial c = Some (join_host_port (addr_string ip) (if url_port (cl_base c) = [] then ''443'' else url_port (cl_base c)), proxy) \<and>
      (\<forall>u r. private_round_trip (ur_host (cl_base c)) (addr_string ip) u = Inr r \<longleftrightarrow>
         ur_scheme u = ''https'' \<and> ur_host u = ur_host (cl_base c) \<and>
         r = (u\<lparr>ur_host := host_with_ip u (addr_string ip)\<rparr>, ur_host (cl_base c)))) \<and>
    (verify_connection chain_ok (cl_tls c) version certs \<longleftrightarrow>
       tls13 \<le> version \<and> certs \<noteq> [] \<and> chain_ok (url_hostname (cl_base c)) certs) \<and>
    tc_min_version (cl_tls c) = tls13"
proof -
  from new_client_private [OF assms(1,2)] have c0: "ur_scheme (cl_base c0) = ''https''" "ur_user (cl_base c0) = None"
    "cl_private c0 = Some []" by simp_all
  from prepare_private_Inr [OF assms(3) c0(3)] obtain ip rest proxy where
    p: "lookup (url_hostname (cl_base c0)) = Inr (ip # rest)"
      "c = c0\<lparr>cl_proxy := NoProxy, cl_tls := private_tls_config (cl_tls c0) (url_hostname (cl_base c0)) (addr_string ip),
        cl_private := Some (addr_string ip),
        cl_dial := Some (join_host_port (addr_string ip) (if url_port (cl_base c0) = [] then ''443'' else url_port (cl_base c0)), proxy)\<rparr>"
    by blast
  then have "\<exists>ip rest proxy. lookup (url_hostname (cl_base c0)) = Inr (ip # rest) \<and>
      cl_base c = cl_base c0 \<and> ur_scheme (cl_base c) = ''https'' \<and> ur_user (cl_base c) = None \<and>
      cl_proxy c = NoProxy \<and> cl_private c = Some (addr_string ip) \<and>
      cl_dial c = Some (join_host_port (addr_string ip) (if url_port (cl_base c) = [] then ''443'' else url_port (cl_base c)), proxy) \<and>
      (\<forall>u r. private_round_trip (ur_host (cl_base c)) (addr_string ip) u = Inr r \<longleftrightarrow>
         ur_scheme u = ''https'' \<and> ur_host u = ur_host (cl_base c) \<and>
         r = (u\<lparr>ur_host := host_with_ip u (addr_string ip)\<rparr>, ur_host (cl_base c)))"
    using c0 by (auto simp: private_round_trip_def)
  moreover have "verify_connection chain_ok (cl_tls c) version certs \<longleftrightarrow>
      tls13 \<le> version \<and> certs \<noteq> [] \<and> chain_ok (url_hostname (cl_base c)) certs" "tc_min_version (cl_tls c) = tls13"
    by (auto simp: p(2) private_tls_config_def verify_connection_def)
  ultimately show ?thesis by blast
qed

text \<open>
  The dialer of a private connection opens one TCP connection, to the destination or its proxy, asks
  a proxy for nothing but the destination, gives up the connection if and only if it reports an error, and
  reports success only when the proxy agreed and the handshake with the configuration succeeded.
\<close>

theorem private_dial_closes:
  assumes "private_tls_dialer env destination proxy cfg network address = (acts, ok)"
  shows "(CloseTcp \<in> set acts \<longleftrightarrow> \<not> ok \<and> network = ''tcp'' \<and> address = destination \<and> de_dial env (first_hop destination proxy)) \<and>
    (\<forall>d. DialTcp d \<in> set acts \<longleftrightarrow> d = first_hop destination proxy \<and> network = ''tcp'' \<and> address = destination) \<and>
    (\<forall>d u. SendConnect d u \<in> set acts \<longrightarrow> d = destination \<and> (\<exists>p. proxy = Some p \<and> u = ur_user p)) \<and>
    (\<forall>cfg'. TargetTls cfg' \<in> set acts \<longrightarrow> cfg' = cfg) \<and>
    (ok \<longrightarrow> TargetTls cfg \<in> set acts \<and> de_target_tls env cfg \<and> de_in_time env \<and>
       (proxy \<noteq> None \<longrightarrow> de_connect env = ConnectStatus 200))"
  using assms
  by (cases proxy) (auto simp: private_tls_dialer_def through_proxy_def Let_def split: if_split_asm bool.split_asm)

text \<open>
  What the client asks the server to connect to passes the server's checks unchanged but for
  surrounding space and a generated session name, provided it is within the server's limits: the client
  never sends an empty host, user, terminal or size out of range.
\<close>

theorem client_connect_accepted:
  assumes "connect_parameters env opt saved = Inr ct"
    and "trim_space (ct_private_key ct) \<noteq> []"
    and "1 \<le> ct_port ct" "ct_port ct \<le> 65535"
    and "trim_space (ct_host ct) \<noteq> []" "length (trim_space (ct_host ct)) \<le> 253"
    and "trim_space (ct_username ct) \<noteq> []" "length (trim_space (ct_username ct)) \<le> 128"
    and "length (ct_private_key ct) \<le> 128 * 1024" "length (ct_passphrase ct) \<le> 8 * 1024" "length (ct_term ct) \<le> 64"
    and "length (co_tmux_session opt) \<le> 64" "list_all herdr_char (co_tmux_session opt)"
  shows "prepare_connect ct rnd = Inr (ct\<lparr>ct_host := trim_space (ct_host ct), ct_username := trim_space (ct_username ct),
      ct_herdr_session := (if ct_use_herdr ct \<and> co_tmux_session opt = [] then ''gowebssh-'' @ new_session_id rnd else co_tmux_session opt)\<rparr>)"
proof -
  obtain host port user trm use key pass where "ct = connect_message env opt host port user trm use key pass"
    using connect_parameters_Inr [OF assms(1)] by metis
  then have ct: "ct_port ct \<noteq> 0" "ct_term ct \<noteq> []" "ct_use_tmux ct = ct_use_herdr ct" "ct_herdr_session ct = co_tmux_session opt"
    "ct_tmux_session ct = co_tmux_session opt" and size: "5 \<le> ct_rows ct" "ct_rows ct \<le> 200" "20 \<le> ct_cols ct" "ct_cols ct \<le> 500"
    by (simp_all add: connect_message_fields connect_message_size)
  have fields: "check_connect_fields (ct\<lparr>ct_host := trim_space (ct_host ct), ct_username := trim_space (ct_username ct)\<rparr>) = Inr ()"
    using assms ct by (simp add: check_connect_fields_def ensure_def bind_result_def)
  have r: "\<not> (ct_rows ct < 5 \<or> ct_rows ct > 200)" "\<not> (ct_cols ct < 20 \<or> ct_cols ct > 500)" using size by simp_all
  let ?cd = "ct\<lparr>ct_host := trim_space (ct_host ct), ct_username := trim_space (ct_username ct)\<rparr>"
  let ?name = "if ct_use_herdr ct \<and> co_tmux_session opt = [] then ''gowebssh-'' @ new_session_id rnd else co_tmux_session opt"
  have choice: "herdr_choice ?cd rnd = ?cd\<lparr>ct_herdr_session := ?name\<rparr>"
    using ct by (simp add: herdr_choice_def Let_def)
  have name: "length ?name \<le> 64" "list_all herdr_char ?name"
    using assms(12,13) new_session_id_herdr [of rnd] herdr_prefix by (simp_all only: list_all_append length_append split: if_split) simp_all
  have "prepare_connect ct rnd = bind_result (check_connect_fields ?cd) (\<lambda>_. let cd2 = herdr_choice ?cd rnd in
       if ct_use_herdr cd2 \<and> (length (ct_herdr_session cd2) > 64 \<or> \<not> list_all herdr_char (ct_herdr_session cd2))
       then Inl (''BAD_REQUEST'', ''Herdr session name is invalid'')
       else Inr (cd2\<lparr>ct_rows := (if ct_rows cd2 < 5 \<or> ct_rows cd2 > 200 then 24 else ct_rows cd2),
                     ct_cols := (if ct_cols cd2 < 20 \<or> ct_cols cd2 > 500 then 80 else ct_cols cd2)\<rparr>))"
    using ct(1,2) by (simp add: prepare_connect_def Let_def)
  then show ?thesis unfolding fields bind_result_simps choice using name r by (simp add: Let_def)
qed

section \<open>Witnesses\<close>

definition sample_base :: url where
  "sample_base = \<lparr>ur_scheme = ''https'', ur_user = None, ur_host = ''shell.example.com:8443'', ur_path = []\<rparr>"

theorem client_origin_accepted_iff_witness:
  "\<not> is_same_origin ''s:80'' (origin_from_url (sample_base\<lparr>ur_scheme := ''http'', ur_host := ''s:80''\<rparr>))"
  using client_origin_accepted_iff [of "sample_base\<lparr>ur_scheme := ''http'', ur_host := ''s:80''\<rparr>" "''s''" "''80''"]
  by (simp add: is_digit_def)

definition private_options :: cli_options where
  "private_options = sample_options\<lparr>co_server_url := ''wss://shell.example.com:8443'', co_private_connect := True, co_insecure_tls := False, co_no_proxy := True\<rparr>"

definition sample_parse :: "string \<Rightarrow> url option" where
  "sample_parse s = (if s = ''wss://shell.example.com:8443'' then Some (sample_base\<lparr>ur_scheme := ''wss''\<rparr>) else None)"

theorem private_connection_pinned_witness:
  "\<exists>c. prepare_private_connection (\<lambda>_. Inr [V4 0x5DB8D822]) (\<lambda>_. None)
       (projr (new_client sample_parse private_options (\<lambda>_. []))) = Inr c \<and>
     cl_private c = Some ''93.184.216.34'' \<and> tc_min_version (cl_tls c) = tls13"
proof -
  let ?n = "new_client sample_parse private_options (\<lambda>_. [])"
  have n: "\<not> isl ?n" by code_simp
  then obtain c0 where c0: "?n = Inr c0" by (cases ?n) simp_all
  let ?p = "prepare_private_connection (\<lambda>_. Inr [V4 0x5DB8D822]) (\<lambda>_. None) (projr ?n)"
  have "\<not> isl ?p" by code_simp
  then obtain c where c: "?p = Inr c" by (cases ?p) simp_all
  have o: "co_private_connect private_options" by code_simp
  have a: "addr_string (V4 0x5DB8D822) = ''93.184.216.34''" by code_simp
  from private_connection_pinned [OF c0 o, of "\<lambda>_. Inr [V4 0x5DB8D822]" "\<lambda>_. None" c] c c0 a show ?thesis by auto
qed

definition sample_dial :: dial_env where
  "sample_dial = \<lparr>de_dial = (\<lambda>_. True), de_proxy_tls = True, de_connect = ConnectStatus 407, de_target_tls = (\<lambda>_. True),
     de_in_time = True, de_clear_deadline = True\<rparr>"

definition sample_tls :: tls_config where
  "sample_tls = \<lparr>tc_min_version = tls13, tc_server_name = ''93.184.216.34'', tc_insecure = True, tc_verify = Some ''shell.example.com''\<rparr>"

definition sample_proxy :: url where
  "sample_proxy = \<lparr>ur_scheme = ''http'', ur_user = Some (''u'', ''p''), ur_host = ''proxy:3128'', ur_path = []\<rparr>"

theorem private_dial_closes_witness:
  "CloseTcp \<in> set (fst (private_tls_dialer sample_dial ''93.184.216.34:443'' (Some sample_proxy) sample_tls ''tcp'' ''93.184.216.34:443''))"
proof -
  let ?r = "private_tls_dialer sample_dial ''93.184.216.34:443'' (Some sample_proxy) sample_tls ''tcp'' ''93.184.216.34:443''"
  obtain acts ok where r: "?r = (acts, ok)" by (cases ?r)
  have "\<not> snd ?r" by code_simp
  then have "\<not> ok" unfolding r by simp
  moreover have "de_dial sample_dial (first_hop ''93.184.216.34:443'' (Some sample_proxy))" by (simp add: sample_dial_def)
  ultimately show ?thesis using private_dial_closes [OF r] unfolding r fst_conv by blast
qed

definition sample_run :: run_env where
  "sample_run = \<lparr>re_home = None, re_join = (\<lambda>a b. a @ ''/'' @ b), re_files = (\<lambda>_. None), re_term = [],
     re_needs_passphrase = (\<lambda>_. False), re_prompt = Inr [], re_size = Some (1000, 1)\<rparr>"

definition sample_saved :: saved_credential where
  "sample_saved = \<lparr>sc_id = ''i'', sc_name = [], sc_host = ''db'', sc_port = 0, sc_username = ''root'', sc_private_key = ''KEY'', sc_passphrase = [],
     sc_term = [], sc_use_tmux = False, sc_use_herdr = False\<rparr>"

definition run_options :: cli_options where
  "run_options = sample_options\<lparr>co_host := [], co_ssh_user := [], co_port := 0, co_identity_file := [], co_passphrase := [], co_tmux_session := []\<rparr>"

theorem client_connect_accepted_witness:
  "\<exists>ct. connect_parameters sample_run run_options (Some sample_saved) = Inr ct \<and> ct_port ct = 22 \<and>
     prepare_connect ct [] = Inr ct"
proof -
  let ?c = "connect_parameters sample_run run_options (Some sample_saved)"
  have "\<not> isl ?c" by code_simp
  then obtain ct where c: "?c = Inr ct" by (cases ?c) simp_all
  have v: "ct_port (projr ?c) = 22 \<and> ct_host (projr ?c) = ''db'' \<and> ct_username (projr ?c) = ''root'' \<and> ct_private_key (projr ?c) = ''KEY'' \<and>
      ct_passphrase (projr ?c) = [] \<and> ct_term (projr ?c) = ''xterm-256color'' \<and> co_tmux_session run_options = [] \<and>
      ct_use_herdr (projr ?c) = False \<and> ct_herdr_session (projr ?c) = []" by code_simp
  have t: "trim_space ''db'' = ''db''" "trim_space ''root'' = ''root''" "trim_space ''KEY'' = ''KEY''" by code_simp+
  from client_connect_accepted [OF c, of "[]"] v show ?thesis unfolding c by (auto simp: t)
qed

end
