(* ===== verification/Cli_Cookies.thy ===== *)
theory Cli_Cookies
  imports Cli_Client Auth
begin

text \<open>
  The cookies of the client: the jar of \<^verbatim>\<open>net/http/cookiejar\<close> as far as \<^verbatim>\<open>internal/cli\<close> uses it, for cookies without a domain,
  \<^verbatim>\<open>attachCookies\<close> of \<^verbatim>\<open>cli.go\<close>, which copies them to the request of a WebSocket, and \<^verbatim>\<open>Request.Cookie\<close>, by which the server
  reads them.
\<close>

section \<open>The jar\<close>

record jar_entry =
  je_host :: string
  je_name :: string
  je_value :: string
  je_path :: string
  je_secure :: bool
  je_expires :: int

definition same_cookie :: "jar_entry \<Rightarrow> jar_entry \<Rightarrow> bool" where
  "same_cookie a b \<longleftrightarrow> je_host a = je_host b \<and> je_name a = je_name b \<and> je_path a = je_path b"

definition cookie_host :: "url \<Rightarrow> string" where
  "cookie_host u = to_lower (trim_suffix (url_hostname u) ''.'')"

text \<open>\<^verbatim>\<open>Max-Age\<close> goes before \<^verbatim>\<open>Expires\<close>; a cookie that has expired is removed. A cookie without a path gets that of the URL.\<close>

definition entry_of :: "int \<Rightarrow> url \<Rightarrow> cookie \<Rightarrow> jar_entry" where
  "entry_of now u ck =
    \<lparr>je_host = cookie_host u, je_name = ck_name ck, je_value = ck_value ck,
     je_path = (if has_prefix (ck_path ck) ''/'' then ck_path ck else ur_path u), je_secure = ck_secure ck,
     je_expires = (if ck_max_age ck > 0 then now + ck_max_age ck * second else ck_expires ck)\<rparr>"

definition set_cookie :: "int \<Rightarrow> url \<Rightarrow> cookie \<Rightarrow> jar_entry list \<Rightarrow> jar_entry list" where
  "set_cookie now u ck jar =
    (let e = entry_of now u ck; others = filter (\<lambda>x. \<not> same_cookie e x) jar in
     if ck_max_age ck < 0 \<or> je_expires e \<le> now then others
     else if list_ex (same_cookie e) jar then map (\<lambda>x. if same_cookie e x then e else x) jar
     else jar @ [e])"

definition set_cookies :: "int \<Rightarrow> url \<Rightarrow> cookie list \<Rightarrow> jar_entry list \<Rightarrow> jar_entry list" where
  "set_cookies now u cks jar = (if ur_scheme u \<in> {''http'', ''https''} then fold (set_cookie now u) cks jar else jar)"

definition path_match :: "string \<Rightarrow> string \<Rightarrow> bool" where
  "path_match cookie_path path \<longleftrightarrow>
    path = cookie_path \<or>
    (has_prefix path cookie_path \<and> (has_suffix cookie_path ''/'' \<or> has_prefix (drop (length cookie_path) path) ''/''))"

definition jar_cookies :: "int \<Rightarrow> url \<Rightarrow> jar_entry list \<Rightarrow> jar_entry list" where
  "jar_cookies now u jar =
    (if ur_scheme u \<notin> {''http'', ''https''} then []
     else
       let path = (if ur_path u = [] then ''/'' else ur_path u);
           sendable = filter (\<lambda>e. je_host e = cookie_host u \<and> path_match (je_path e) path \<and>
             (ur_scheme u = ''https'' \<or> \<not> je_secure e) \<and> now < je_expires e) jar
       in rev (sort_key (\<lambda>e. length (je_path e)) (rev sendable)))"

text \<open>The header of a WebSocket request, if there is one.\<close>

definition attach_cookies :: "int \<Rightarrow> url \<Rightarrow> jar_entry list \<Rightarrow> string option" where
  "attach_cookies now base jar =
    (let u = base\<lparr>ur_scheme := (if ur_scheme base = ''ws'' then ''http'' else if ur_scheme base = ''wss'' then ''https'' else ur_scheme base)\<rparr>;
         cookies = jar_cookies now u jar
     in if cookies = [] then None
        else Some (join ''; '' (map (\<lambda>e. je_name e @ ''='' @ je_value e) cookies)))"

section \<open>Reading the header\<close>

definition http_space :: "char \<Rightarrow> bool" where
  "http_space c \<longleftrightarrow> c \<in> {CHR '' '', CHR 0x09, CHR 0x0A, CHR 0x0D}"

definition trim_string :: "string \<Rightarrow> string" where
  "trim_string s = rev (dropWhile http_space (rev (dropWhile http_space s)))"

definition cookie_byte :: "char \<Rightarrow> bool" where
  "cookie_byte c \<longleftrightarrow> 0x20 \<le> byte c \<and> byte c < 0x7F \<and> c \<notin> {CHR 0x22, CHR '';'', CHR 0x5C}"

definition parse_cookie_value :: "string \<Rightarrow> string option" where
  "parse_cookie_value s =
    (let v = (if length s > 1 \<and> hd s = CHR 0x22 \<and> last s = CHR 0x22 then butlast (tl s) else s) in
     if list_all cookie_byte v then Some v else None)"

fun find_cookie :: "string \<Rightarrow> string list \<Rightarrow> string option" where
  "find_cookie name [] = None"
| "find_cookie name (p # ps) =
     (let part = trim_string p;
          (n, v) = (case cut part CHR ''='' of None \<Rightarrow> (part, []) | Some nv \<Rightarrow> nv)
      in if part \<noteq> [] \<and> trim_string n = name
         then (case parse_cookie_value v of None \<Rightarrow> find_cookie name ps | Some value \<Rightarrow> Some value)
         else find_cookie name ps)"

definition read_cookie :: "string \<Rightarrow> string option \<Rightarrow> string option" where
  "read_cookie name header = Option.bind header (\<lambda>h. find_cookie name (split_on CHR '';'' h))"

section \<open>Lemmas\<close>

definition cookie_char :: "char \<Rightarrow> bool" where
  "cookie_char c \<longleftrightarrow> cookie_byte c \<and> \<not> http_space c"

lemma trim_string_plain: "list_all (\<lambda>c. \<not> http_space c) s \<Longrightarrow> trim_string s = s"
proof -
  have "dropWhile http_space s = s" if "list_all (\<lambda>c. \<not> http_space c) s" for s
    using that by (cases s) auto
  then show "list_all (\<lambda>c. \<not> http_space c) s \<Longrightarrow> trim_string s = s" by (simp add: trim_string_def)
qed

lemma split_on_none: "c \<notin> set s \<Longrightarrow> split_on c s = [s]"
  by (induction s) auto

lemma read_cookie_one:
  assumes "list_all cookie_char (name @ value)" "name \<noteq> []" "CHR ''='' \<notin> set name"
  shows "read_cookie name (Some (name @ ''='' @ value)) = Some value"
proof -
  let ?h = "name @ ''='' @ value"
  have c: "list_all cookie_char ?h" using assms(1) by (simp add: cookie_char_def cookie_byte_def http_space_def)
  have n: "CHR '';'' \<notin> set ?h"
  proof
    assume "CHR '';'' \<in> set ?h"
    with c have "cookie_char CHR '';''" unfolding list_all_iff by blast
    then show False by (simp add: cookie_char_def cookie_byte_def)
  qed
  have "list_all (\<lambda>c. \<not> http_space c) ?h" "list_all (\<lambda>c. \<not> http_space c) name"
    using c unfolding list_all_iff cookie_char_def by auto
  then have t: "trim_string ?h = ?h" "trim_string name = name" by (simp_all only: trim_string_plain)
  have q: "\<not> (length value > 1 \<and> hd value = CHR 0x22 \<and> last value = CHR 0x22)"
    using assms(1) by (cases "value") (auto simp: cookie_char_def cookie_byte_def)
  have v: "list_all cookie_byte value" using assms(1) by (simp add: list_all_iff cookie_char_def)
  have "cut ?h CHR ''='' = Some (name, value)" using assms(3) by (simp add: cut_Some_iff)
  then show ?thesis using assms(2) v
    by (simp only: read_cookie_def Option.bind.simps split_on_none [OF n] find_cookie.simps t Let_def option.case prod.case
        parse_cookie_value_def if_not_P [OF q]) simp
qed

text \<open>The characters of the tokens the server issues.\<close>

lemma b64_cookie_char: "list_all cookie_char (b64_encode b)"
proof -
  have "cookie_char c" if "b64_alphabet c" for c
  proof -
    from that have n: "byte c \<in> {45, 95} \<union> {48..57} \<union> {65..90} \<union> {97..122}"
      by (auto simp: b64_alphabet_def b64_val_def Let_def split: if_split_asm)
    have "c \<noteq> CHR 0x22" "c \<noteq> CHR '';''" "c \<noteq> CHR 0x5C" "c \<noteq> CHR '' ''" "c \<noteq> CHR 0x09" "c \<noteq> CHR 0x0A" "c \<noteq> CHR 0x0D"
      using n by auto
    with n show ?thesis by (auto simp: cookie_char_def cookie_byte_def http_space_def)
  qed
  with b64_encode_alphabet [of b] show ?thesis by (auto simp: list_all_iff)
qed

lemma signed_token_cookie_char: "list_all cookie_char (signed_token c a (b64_encode b))"
proof -
  have "cookie_char CHR ''.''" by code_simp
  then show ?thesis using b64_cookie_char by (simp add: signed_token_def)
qed

section \<open>Properties\<close>

text \<open>
  What a login answered is sent again by an empty jar, until it expires, to the same server, unless it is for
  TLS only and the server is not spoken to over TLS; the server then reads the same text.
\<close>

lemma login_cookie_attached:
  assumes "ur_scheme base \<in> {''http'', ''https''}" "jar = set_cookies now u [ck] []" "ur_scheme u \<in> {''http'', ''https''}" "ur_host u = ur_host base"
    and "ck_path ck = ''/''" "ck_name ck = cookie_name" "ck_max_age ck > 0" "now' < now + ck_max_age ck * second" "now \<le> now'"
    and "list_all cookie_char (ck_value ck)" "ur_path base = [] \<or> has_prefix (ur_path base) ''/''"
  shows "read_cookie cookie_name (attach_cookies now' base jar) =
    (if ur_scheme base = ''https'' \<or> \<not> ck_secure ck then Some (ck_value ck) else None)"
proof -
  let ?e = "entry_of now u ck"
  have h: "cookie_host u = cookie_host base" by (simp add: cookie_host_def url_hostname_def assms(4))
  have e: "je_host ?e = cookie_host base" "je_path ?e = ''/''" "je_name ?e = cookie_name" "je_value ?e = ck_value ck"
    "je_secure ?e = ck_secure ck" "je_expires ?e = now + ck_max_age ck * second"
    using assms(5-7) h by (simp_all add: entry_of_def has_prefix_def)
  have j: "jar = [?e]" using assms(2,3,7-9) e(6) by (auto simp: set_cookies_def set_cookie_def Let_def)
  have p: "path_match ''/'' (if ur_path base = [] then ''/'' else ur_path base)"
    using assms(11) by (auto simp: path_match_def has_suffix_def has_prefix_def)
  have b: "base\<lparr>ur_scheme := (if ur_scheme base = ''ws'' then ''http'' else if ur_scheme base = ''wss'' then ''https'' else ur_scheme base)\<rparr> = base"
    using assms(1) by auto
  have cs: "jar_cookies now' base jar = (if ur_scheme base = ''https'' \<or> \<not> ck_secure ck then [?e] else [])"
    using assms(1,8) p by (auto simp: jar_cookies_def j e Let_def)
  have name: "list_all cookie_char cookie_name" "cookie_name \<noteq> []" "CHR ''='' \<notin> set cookie_name" by code_simp+
  have "read_cookie cookie_name (Some (cookie_name @ ''='' @ ck_value ck)) = Some (ck_value ck)"
    by (rule read_cookie_one) (use name assms(10) in auto)
  then show ?thesis
    unfolding attach_cookies_def Let_def b cs by (auto simp: e read_cookie_def)
qed

end
