(* ===== verification/Cli_Api.thy ===== *)
theory Cli_Api
  imports Http_Server Cli_Client
begin

text \<open>
  The web server and the client that calls it: what \<^verbatim>\<open>listCredentials\<close> and \<^verbatim>\<open>fetchSaved\<close> of \<^verbatim>\<open>cli.go\<close> decode of the
  answers that the handlers of \<^verbatim>\<open>server.go\<close> encode.
\<close>

text \<open>What the client takes of a listed and of a stored credential.\<close>

definition listed_of :: "public_summary \<Rightarrow> cli_summary" where
  "listed_of p = \<lparr>cs_id = ps_id p, cs_name = ps_name p, cs_host = ps_host p, cs_port = ps_port p, cs_username = ps_username p,
     cs_term = ps_term p, cs_use_tmux = ps_legacy_use_tmux p\<rparr>"

definition saved_of :: "credential \<Rightarrow> saved_credential" where
  "saved_of c = \<lparr>sc_id = cd_id c, sc_name = cd_name c, sc_host = cd_host c, sc_port = cd_port c, sc_username = cd_username c,
     sc_private_key = cd_private_key c, sc_passphrase = cd_passphrase c, sc_term = cd_term c, sc_use_tmux = cd_use_herdr c,
     sc_use_herdr = cd_use_herdr c\<rparr>"

definition public_storable :: "public_summary \<Rightarrow> bool" where
  "public_storable p \<longleftrightarrow> list_all utf8_valid [ps_id p, ps_name p, ps_host p, ps_username p, ps_term p] \<and>
     int64 (ps_port p) \<and> time_ok (ps_updated_at p)"

lemma public_text_read:
  assumes "public_storable p"
  obtains t where "public_text p = Some t" "value_text (max_nesting - 1) t" "value_text (max_nesting - 2) t"
    "store_struct cli_summary_fields t new_cli_summary = (True, listed_of p)"
proof -
  have ok: "time_ok (ps_updated_at p)" "int64 (ps_port p)" "list_all utf8_valid [ps_id p, ps_name p, ps_host p, ps_username p, ps_term p]"
    using assms by (simp_all add: public_storable_def)
  obtain s where s: "format_time (ps_updated_at p) = Some s" "list_all json_plain s"
    using ok(1) format_time_plain by (auto simp: time_ok_def)
  let ?u = "CHR 0x22 # s @ [CHR 0x22]"
  have v: "value_text d (object_text (public_members p ?u))" if "0 < d" for d
    using value_text_plain [OF s(2)] by (intro value_text_object that) (simp add: public_members_def)
  have "list_all (\<lambda>(_, v). value_text (max_nesting - 1) v) (public_members p ?u)"
    using value_text_plain [OF s(2)] by (simp add: public_members_def)
  note read = unmarshal_members [OF this]
  have "json_unmarshal (store_struct cli_summary_fields) (object_text (public_members p ?u)) new_cli_summary = (True, listed_of p)"
    unfolding read using ok(2,3)
    by (simp add: public_members_def passed_over cli_summary_fields_found field_def int64_def utf8_valid_replace new_cli_summary_def listed_of_def)
  moreover have "json_unmarshal store (object_text (public_members p ?u)) x = store (object_text (public_members p ?u)) x" for store :: "bytes \<Rightarrow> cli_summary \<Rightarrow> bool \<times> cli_summary" and x
    by (rule unmarshal_text) (simp add: v max_nesting_def)
  ultimately show ?thesis using that v s(1) by (simp add: public_text_def time_text_def max_nesting_def)
qed


lemma list_text:
  assumes "list_all public_storable items"
  shows "\<exists>t. json_body (ListBody items removed unmigrated) = Some t"
proof -
  have "\<exists>t. public_text p = Some t" if "p \<in> set items" for p
    using public_text_read assms that by (metis list_all_iff)
  then have "\<exists>ts. those (map public_text items) = Some ts" by (induction items) fastforce+
  then show ?thesis by auto
qed

lemma list_text_read:
  assumes "list_all public_storable items" "json_body (ListBody items removed unmigrated) = Some t"
  shows "decode_list (t @ w) = Some (map listed_of items)"
proof -
  have one: "\<exists>t. public_text p = Some t \<and> value_text (max_nesting - 1) t \<and> value_text (max_nesting - 2) t \<and>
      store_struct cli_summary_fields t new_cli_summary = (True, listed_of p)" if "p \<in> set items" for p
    using public_text_read assms(1) that by (metis list_all_iff)
  let ?texts = "map (the \<circ> public_text) items"
  have "those (map public_text items) = Some ?texts" using one by (induction items) fastforce+
  then have t: "t = object_text [(''credentials'', array_text ?texts), (''removedCredentials'', itoa removed), (''unmigratedCredentials'', itoa unmigrated)]"
    using assms(2) by simp
  have texts: "list_all (value_text (max_nesting - 1)) ?texts" "list_all (value_text (max_nesting - 1 - 1)) ?texts"
    using one by (fastforce simp: list_all_iff numeral_2_eq_2)+
  have ms: "list_all (\<lambda>(_, v). value_text (max_nesting - 1) v) [(''credentials'', array_text ?texts), (''removedCredentials'', itoa removed), (''unmigratedCredentials'', itoa unmigrated)]"
    using value_text_array [OF _ texts(2)] by (simp add: max_nesting_def)
  let ?fs = "[(''credentials'', store_list (store_struct cli_summary_fields) new_cli_summary)]"
  have keys: "field_of ?fs (json_quote ''credentials'') = Some (store_list (store_struct cli_summary_fields) new_cli_summary)"
    by (simp add: field_of_hit)
  have over: "field_of [(''credentials'', x)] (json_quote ''removedCredentials'') = None" "field_of [(''credentials'', x)] (json_quote ''unmigratedCredentials'') = None" for x :: "bytes \<Rightarrow> cli_summary list \<Rightarrow> bool \<times> cli_summary list"
    unfolding is_none_code [symmetric] Option.is_none_def [symmetric] by code_simp+
  have "store_list (store_struct cli_summary_fields) new_cli_summary (array_text ?texts) [] = (True, map listed_of items)"
    unfolding store_array_text [OF texts(1)] using one by (intro store_elements_new) fastforce
  then show ?thesis unfolding t decode_list_def decode_object [OF ms] by (simp add: keys over if_fits_def)
qed

lemma credential_text: "cred_storable c \<Longrightarrow> \<exists>t. credential_marshal c = Some t"
  by (auto simp: cred_storable_def time_ok_def credential_marshal_def time_text_def)

lemma saved_text_read:
  assumes "cred_storable c" "credential_marshal c = Some t"
  shows "decode_saved (t @ w) = Some (saved_of c)"
proof -
  obtain a b where ab: "format_time (cd_created_at c) = Some a" "format_time (cd_updated_at c) = Some b"
    using assms(1) by (auto simp: cred_storable_def time_ok_def)
  let ?q = "\<lambda>s. CHR 0x22 # s @ [CHR 0x22]"
  have t: "t = object_text (credential_members c (?q a) (?q b))" using assms(2) ab by (simp add: credential_marshal_def time_text_def)
  have ms: "list_all (\<lambda>(_, v). value_text (max_nesting - 1) v) (credential_members c (?q a) (?q b))"
    using value_text_plain [OF format_time_plain [OF ab(1)]] value_text_plain [OF format_time_plain [OF ab(2)]]
    by (simp add: credential_members_def omit_empty_def)
  show ?thesis unfolding t decode_saved_def decode_object [OF ms] using assms(1)
    by (cases "cd_passphrase c = []")
      (simp_all add: credential_members_def omit_empty_def passed_over saved_fields_found field_def int64_def utf8_valid_replace
        new_saved_def saved_of_def cred_storable_def if_fits_def)
qed


text \<open>The answers of the server to a caller with a session, when the vault gives what is asked for.\<close>

lemma list_reply:
  assumes "serve env i s r = (resp, s')" "route (ar_method r) (ar_path r) = CredentialList" "who_asks env i s r = Some info"
    and "sr_vault s = Some v" "list_summaries (se_vault env) v (si_username info) = (Inr (sms, unmigrated), v')"
  shows "rs_status resp = 200 \<and> rs_body resp = ListBody (map summary_view sms) 0 unmigrated"
proof -
  obtain d where d: "dispatch env i s r = (d, s')" "rs_status resp = rs_status d" "rs_body resp = rs_body d" by (rule serve_dispatch [OF assms(1)])
  then have "with_vault env i s r (\<lambda>info v. credential_list env info v) = (d, s')" using assms(2) by (simp add: dispatch_def)
  with request_session_found [OF assms(3)] assms(4,5) d show ?thesis
    by (auto simp: with_vault_def credential_session_def credential_list_def write_json_def split: prod.split_asm)
qed

lemma get_reply:
  assumes "serve env i s r = (resp, s')" "route (ar_method r) (ar_path r) = CredentialGet k" "who_asks env i s r = Some info"
    and "sr_vault s = Some v" "vault_get (se_vault env) v k = Inr c"
  shows "rs_status resp = 200 \<and> rs_body resp = CredentialBody c"
proof -
  obtain d where d: "dispatch env i s r = (d, s')" "rs_status resp = rs_status d" "rs_body resp = rs_body d" by (rule serve_dispatch [OF assms(1)])
  then have "with_vault env i s r (\<lambda>info v. (credential_get env k v, v)) = (d, s')" using assms(2) by (simp add: dispatch_def)
  with request_session_found [OF assms(3)] assms(4,5) d show ?thesis
    by (auto simp: with_vault_def credential_session_def credential_get_def write_json_def split: prod.split_asm)
qed

lemma summary_view_storable: "sum_storable m \<Longrightarrow> public_storable (summary_view m)"
  by (simp add: sum_storable_def public_storable_def summary_view_def)

text \<open>The answer to a request, as it reaches the client.\<close>

definition answered :: "response \<Rightarrow> api_reply \<Rightarrow> bool" where
  "answered resp a \<longleftrightarrow> (\<exists>status_text. a = ApiReply (rs_status resp) (body_text (rs_body resp)) status_text)"

end
