(* ===== verification/Cli_Run.thy ===== *)
theory Cli_Run
  imports Cli_Session Cli_Client
begin

text \<open>
  The two programs of \<^verbatim>\<open>internal/cli\<close>: \<^verbatim>\<open>Run\<close> of \<^verbatim>\<open>cli.go\<close> and \<^verbatim>\<open>RunTunnel\<close> of \<^verbatim>\<open>tunnel.go\<close>, put together
  from the parts modelled in \<^verbatim>\<open>Cli_Client\<close>, \<^verbatim>\<open>Cli_Tunnel\<close> and \<^verbatim>\<open>Cli_Session\<close>. The result of a run is what was sent, in
  order and with the address it was sent to, and how the run ended. What the outside answers is a
  record of parameters.
\<close>

section \<open>What a run sends and what it is answered\<close>

text \<open>
  A request as it leaves: the URL it is sent to and the \<^verbatim>\<open>Host\<close> it names. A request with the body of the login carries
  the user name and the password; one that a redirect of the login makes without that body is a \<open>FollowLogin\<close>.
\<close>

datatype sent =
    SendLogin url string string string
  | FollowLogin url string
  | SendGet url string
  | DialSocket url string string
  | SendConnect connect_data
  | SendTunnelConnect string int

text \<open>
  An answer that redirects, with the URL its \<^verbatim>\<open>Location\<close> comes to if it can be read: 301, 302 and 303 make a request
  without a body, 307 and 308 repeat the body of the first request. A redirect with no \<^verbatim>\<open>Location\<close> is an answer like
  any other.
\<close>

datatype redirect = SeeOther "url option" | Resubmit "url option"

fun redirect_target :: "redirect \<Rightarrow> url option" where
  "redirect_target (SeeOther u) = u"
| "redirect_target (Resubmit u) = u"

fun keeps_body :: "redirect \<Rightarrow> bool" where
  "keeps_body (SeeOther u) = False"
| "keeps_body (Resubmit u) = True"

text \<open>
  \<open>ri_redirects\<close> gives for a path of the interface the redirects answered on the way to the answer of \<open>ri_api\<close>;
  \<open>ri_socket\<close> is the answer to dialling: the error, or the messages that then arrive; \<open>ri_writes\<close> tells
  whether the connect message could be written, \<open>ri_stop\<close> why reading ends.
\<close>

record run_io =
  ri_parse :: "string \<Rightarrow> url option"
  ri_getenv :: "string \<Rightarrow> string"
  ri_lookup :: "string \<Rightarrow> doh_error + addr list"
  ri_from_env :: "url \<Rightarrow> url option option"
  ri_password :: "cli_error + string"
  ri_api :: api_env
  ri_redirects :: "string \<Rightarrow> redirect list"
  ri_env :: run_env
  ri_socket :: "cli_error + frame list"
  ri_writes :: bool
  ri_stdout :: "bytes \<Rightarrow> bool"
  ri_stop :: disconnect

datatype run_result =
    RunFailed cli_error
  | RunListed "(string \<times> string \<times> string \<times> string \<times> int) list"
  | RunShellEnded "bytes list" relay_result
  | RunTunnelled "frame list"

section \<open>Requests\<close>

text \<open>A prepared private connection, one with a dialer, goes through the private transport.\<close>

definition prepared_private :: "client \<Rightarrow> bool" where
  "prepared_private c \<longleftrightarrow> cl_private c \<noteq> None \<and> cl_dial c \<noteq> None"

definition request_url :: "client \<Rightarrow> url \<Rightarrow> cli_error + url \<times> string" where
  "request_url c u =
    (case (cl_private c, cl_dial c) of
       (Some address, Some _) \<Rightarrow> private_round_trip (ur_host (cl_base c)) address u
     | _ \<Rightarrow> Inr (u, ur_host u))"

text \<open>
  What \<^verbatim>\<open>http.Client.Do\<close> makes of redirects after \<open>n\<close> requests: the URLs it goes on to, each with whether the body is
  repeated, and whether it comes to an answer. A private connection refuses them (\<^verbatim>\<open>CheckRedirect\<close>), ten requests are the most,
  and only HTTP and HTTPS are spoken.
\<close>

fun follow_redirects :: "bool \<Rightarrow> nat \<Rightarrow> redirect list \<Rightarrow> (url \<times> bool) list \<times> bool" where
  "follow_redirects allowed n [] = ([], True)"
| "follow_redirects allowed n (r # rs) =
     (case redirect_target r of
        None \<Rightarrow> ([], False)
      | Some u \<Rightarrow>
          if \<not> allowed \<or> 10 \<le> n \<or> ur_scheme u \<notin> {''http'', ''https''} \<or> ur_host u = [] then ([], False)
          else (case follow_redirects allowed (Suc n) rs of (hops, final) \<Rightarrow> ((u, keeps_body r) # hops, final)))"

definition redirected :: "run_io \<Rightarrow> client \<Rightarrow> string \<Rightarrow> (url \<times> bool) list \<times> bool" where
  "redirected io c path = follow_redirects (\<not> prepared_private c) 1 (ri_redirects io path)"

text \<open>
  A step sends something and then fails or goes on; the steps of a run are chained by \<open>then_send\<close>.
\<close>

definition then_send :: "sent list \<times> (cli_error + 'a) \<Rightarrow> ('a \<Rightarrow> sent list \<times> (cli_error + 'b)) \<Rightarrow> sent list \<times> (cli_error + 'b)" where
  "then_send m f =
    (case m of
       (out, Inl e) \<Rightarrow> (out, Inl e)
     | (out, Inr x) \<Rightarrow> (case f x of (out', r) \<Rightarrow> (out @ out', r)))"

definition quiet :: "cli_error + 'a \<Rightarrow> sent list \<times> (cli_error + 'a)" where
  "quiet r = ([], r)"

text \<open>The requests of the login, from the first one and the redirects that follow it.\<close>

definition login_requests :: "client \<Rightarrow> url \<Rightarrow> string \<Rightarrow> (url \<times> bool) list \<Rightarrow> sent list" where
  "login_requests c u h hops =
    SendLogin u h (co_web_user (cl_opt c)) (co_web_password (cl_opt c)) #
    map (\<lambda>(v, body). if body then SendLogin v (ur_host v) (co_web_user (cl_opt c)) (co_web_password (cl_opt c))
                     else FollowLogin v (ur_host v)) hops"

definition login_step :: "run_io \<Rightarrow> client \<Rightarrow> sent list \<times> (cli_error + client)" where
  "login_step io c0 =
    then_send (quiet (prepare_private_connection (ri_lookup io) (ri_from_env io) c0)) (\<lambda>c.
    then_send (quiet (request_url c (api_url (cl_base c) ''/api/login''))) (\<lambda>(u, h).
      case redirected io c ''/api/login'' of
        (hops, final) \<Rightarrow>
          (login_requests c u h hops,
           if final then bind_result (cli_login (ri_api io)) (\<lambda>_. Inr c) else Inl (CliError ''login''))))"

text \<open>The requests of \<^verbatim>\<open>listCredentials\<close> and \<^verbatim>\<open>fetchSaved\<close>, with the result of the latter; \<open>what\<close> names a request that fails.\<close>

definition get_step :: "run_io \<Rightarrow> client \<Rightarrow> string \<Rightarrow> string \<Rightarrow> cli_error + 'a \<Rightarrow> sent list \<times> (cli_error + 'a)" where
  "get_step io c path what r =
    then_send (quiet (request_url c (api_url (cl_base c) path))) (\<lambda>(u, h).
      case redirected io c path of
        (hops, final) \<Rightarrow>
          (SendGet u h # map (\<lambda>(v, _). SendGet v (ur_host v)) hops, if final then r else Inl (CliError what)))"

definition saved_step :: "run_io \<Rightarrow> client \<Rightarrow> string \<Rightarrow> sent list \<times> (cli_error + saved_credential option)" where
  "saved_step io c name =
    (if name = [] then ([], Inr None)
     else
       then_send (get_step io c ''/api/credentials'' ''list credentials'' (list_credentials (ri_api io))) (\<lambda>items.
       then_send (quiet (match_saved items name)) (\<lambda>i.
         get_step io c (''/api/credentials/'' @ path_escape i) ''saved credential''
           (bind_result (fetch_saved (ri_api io) name) (\<lambda>item. Inr (Some item))))))"

text \<open>Dialling the socket and sending the connect message.\<close>

definition socket_step :: "run_io \<Rightarrow> client \<Rightarrow> url \<Rightarrow> sent \<Rightarrow> sent list \<times> (cli_error + frame list)" where
  "socket_step io c u message =
    then_send (quiet (dial_ws_url c u)) (\<lambda>(endpoint, origin, host).
    then_send ([DialSocket endpoint origin host], ri_socket io) (\<lambda>frames.
      if ri_writes io then ([message], Inr frames) else ([], Inl (CliError ''send connect''))))"

definition text_error :: "string + 'a \<Rightarrow> cli_error + 'a" where
  "text_error r = (case r of Inl text \<Rightarrow> Inl (CliError text) | Inr x \<Rightarrow> Inr x)"

section \<open>The programs\<close>

definition check_run_options :: "cli_options \<Rightarrow> cli_error + cli_options" where
  "check_run_options opt0 =
    (let opt = opt0\<lparr>co_timeout := (if co_timeout opt0 \<le> 0 then 45 * second else co_timeout opt0),
                    co_user_agent := (if co_user_agent opt0 = [] then ''go-webssh-cli'' else co_user_agent opt0)\<rparr> in
     if trim_space (co_server_url opt) = [] then Inl (CliError ''WebSSH URL is required (--url or GOWEBSSH_URL)'')
     else if trim_space (co_web_user opt) = [] then Inl (CliError ''WebSSH username is required (--web-user or GOWEBSSH_USERNAME)'')
     else Inr opt)"

text \<open>The client with the password, asked for when none is given.\<close>

definition run_client :: "run_io \<Rightarrow> cli_options \<Rightarrow> cli_error + client" where
  "run_client io opt0 =
    bind_result (check_run_options opt0) (\<lambda>opt.
    bind_result (new_client (ri_parse io) opt (ri_getenv io)) (\<lambda>c.
    bind_result (if trim_space (co_web_password opt) = [] then ri_password io else Inr (co_web_password opt)) (\<lambda>pw.
      Inr (c\<lparr>cl_opt := opt\<lparr>co_web_password := pw\<rparr>\<rparr>))))"

definition shell_step :: "run_io \<Rightarrow> client \<Rightarrow> sent list \<times> (cli_error + run_result)" where
  "shell_step io c =
    then_send (saved_step io c (co_saved (cl_opt c))) (\<lambda>saved.
    then_send (quiet (connect_parameters (ri_env io) (cl_opt c) saved)) (\<lambda>ct.
    then_send (socket_step io c (ws_url (cl_base c)) (SendConnect ct)) (\<lambda>frames.
    then_send (quiet (text_error (wait_connected frames))) (\<lambda>rest.
      let (out, stop) = cli_read_loop (ri_stdout io) (ri_stop io) rest
      in ([], Inr (RunShellEnded out (relay_end stop)))))))"

definition run_with :: "run_io \<Rightarrow> client \<Rightarrow> sent list \<times> (cli_error + run_result)" where
  "run_with io c0 =
    then_send (login_step io c0) (\<lambda>c.
      if co_list_saved (cl_opt c)
      then get_step io c ''/api/credentials'' ''list credentials'' (bind_result (list_saved (ri_api io)) (\<lambda>rows. Inr (RunListed rows)))
      else shell_step io c)"

definition run :: "run_io \<Rightarrow> cli_options \<Rightarrow> sent list \<times> (cli_error + run_result)" where
  "run io opt = then_send (quiet (run_client io opt)) (run_with io)"

definition run_tunnel_with :: "run_io \<Rightarrow> client \<Rightarrow> sent list \<times> (cli_error + run_result)" where
  "run_tunnel_with io c0 =
    then_send (login_step io c0) (\<lambda>c.
    then_send (socket_step io c (tunnel_ws_url (cl_base c)) (SendTunnelConnect (co_host (cl_opt c)) (co_port (cl_opt c)))) (\<lambda>frames.
      quiet (bind_result (text_error (wait_tunnel_connected frames)) (\<lambda>rest. Inr (RunTunnelled rest)))))"

definition tunnel_client :: "run_io \<Rightarrow> cli_options \<Rightarrow> cli_error + client" where
  "tunnel_client io opt0 = bind_result (check_tunnel_options opt0) (\<lambda>opt. new_client (ri_parse io) opt (ri_getenv io))"

definition run_cli_tunnel :: "run_io \<Rightarrow> cli_options \<Rightarrow> sent list \<times> (cli_error + run_result)" where
  "run_cli_tunnel io opt = then_send (quiet (tunnel_client io opt)) (run_tunnel_with io)"

section \<open>Lemmas\<close>

definition all_sent :: "(sent \<Rightarrow> bool) \<Rightarrow> sent list \<times> (cli_error + 'a) \<Rightarrow> bool" where
  "all_sent P m \<longleftrightarrow> list_all P (fst m)"

lemma all_sent_simps [simp]:
  "all_sent P (quiet r)"
  "all_sent P (out, r) \<longleftrightarrow> list_all P out"
  "all_sent P (then_send m f) \<longleftrightarrow> all_sent P m \<and> (\<forall>x. snd m = Inr x \<longrightarrow> all_sent P (f x))"
  by (auto simp: all_sent_def quiet_def then_send_def split: prod.splits sum.splits)

lemma snd_quiet [simp]: "snd (quiet r) = r"
  by (simp add: quiet_def)

text \<open>Where the requests of the interface go: to the URL of the client, or where a redirect of that request sends them.\<close>

definition request_to :: "run_io \<Rightarrow> client \<Rightarrow> string \<Rightarrow> url \<Rightarrow> string \<Rightarrow> bool" where
  "request_to io c path u h \<longleftrightarrow>
     request_url c (api_url (cl_base c) path) = Inr (u, h) \<or>
     \<not> prepared_private c \<and> h = ur_host u \<and> (\<exists>r \<in> set (ri_redirects io path). redirect_target r = Some u)"

lemma follow_redirects_sound:
  assumes "follow_redirects allowed n rs = (hops, final)"
  shows "length hops \<le> 10 - n \<and>
    (\<forall>(u, body) \<in> set hops. allowed \<and> ur_scheme u \<in> {''http'', ''https''} \<and> (\<exists>r \<in> set rs. redirect_target r = Some u \<and> keeps_body r = body))"
  using assms
proof (induction rs arbitrary: n hops)
  case (Cons r rs)
  show ?case
  proof (cases "hops = []")
    case False
    with Cons.prems obtain u hops' where u: "redirect_target r = Some u" "allowed" "\<not> 10 \<le> n" "ur_scheme u \<in> {''http'', ''https''}"
      "follow_redirects allowed (Suc n) rs = (hops', final)" "hops = (u, keeps_body r) # hops'"
      by (auto split: option.split_asm if_split_asm prod.split_asm)
    from Cons.IH [OF u(5)] u show ?thesis by auto
  qed simp
qed simp

lemma redirected_sound:
  assumes "redirected io c path = (hops, final)"
  shows "length hops \<le> 9" "prepared_private c \<Longrightarrow> hops = []"
    "(v, body) \<in> set hops \<Longrightarrow> \<not> prepared_private c \<and> (\<exists>r \<in> set (ri_redirects io path). redirect_target r = Some v \<and> keeps_body r = body)"
proof -
  note f = follow_redirects_sound [OF assms [unfolded redirected_def]]
  then show "length hops \<le> 9" by simp
  show h: "(v, body) \<in> set hops \<Longrightarrow> \<not> prepared_private c \<and> (\<exists>r \<in> set (ri_redirects io path). redirect_target r = Some v \<and> keeps_body r = body)" for v body
    using f by auto
  show "prepared_private c \<Longrightarrow> hops = []" using f by (cases hops) auto
qed

lemma all_sent_get:
  assumes "\<And>u h. request_to io c path u h \<Longrightarrow> P (SendGet u h)"
  shows "all_sent P (get_step io c path what r)"
proof -
  obtain hops final where h: "redirected io c path = (hops, final)" by fastforce
  have "P (SendGet v (ur_host v))" if "(v, body) \<in> set hops" for v body
    by (rule assms) (use redirected_sound(3) [OF h that] in \<open>auto simp: request_to_def\<close>)
  then show ?thesis using assms by (auto simp: get_step_def h request_to_def list_all_iff)
qed

lemma all_sent_saved:
  assumes "\<And>path u h. request_to io c path u h \<Longrightarrow> P (SendGet u h)"
  shows "all_sent P (saved_step io c name)"
proof -
  have "all_sent P (get_step io c path what r)" for path what and r :: "cli_error + cli_summary list"
    by (rule all_sent_get) (rule assms)
  moreover have "all_sent P (get_step io c path what r)" for path what and r :: "cli_error + saved_credential option"
    by (rule all_sent_get) (rule assms)
  ultimately show ?thesis by (simp add: saved_step_def)
qed

lemma all_sent_socket:
  assumes "\<And>e g h. dial_ws_url c u = Inr (e, g, h) \<Longrightarrow> P (DialSocket e g h)"
    and "\<And>frames. ri_socket io = Inr frames \<Longrightarrow> P message"
  shows "all_sent P (socket_step io c u message)"
  using assms by (auto simp: socket_step_def)

lemma login_first:
  assumes "then_send (login_step io c0) k = (out, r)" "out \<noteq> []"
  shows "\<exists>c u h hops final rest. prepare_private_connection (ri_lookup io) (ri_from_env io) c0 = Inr c \<and>
    request_url c (api_url (cl_base c) ''/api/login'') = Inr (u, h) \<and> redirected io c ''/api/login'' = (hops, final) \<and>
    out = login_requests c u h hops @ rest \<and>
    (rest \<noteq> [] \<longrightarrow> final \<and> cli_login (ri_api io) = Inr () \<and> fst (k c) = rest)"
  using assms
  by (auto simp: login_step_def then_send_def quiet_def bind_result_def split: sum.split_asm prod.split_asm if_split_asm)

lemma new_client_base:
  "new_client parse opt getenv = Inr c \<Longrightarrow> base_url parse opt = Inr (cl_base c) \<and> cl_origin c = origin_from_url (cl_base c)"
  by (auto simp: new_client_def bind_result_Inr_iff)

lemma host_with_ip_host: "ur_host u = ur_host v \<Longrightarrow> host_with_ip u address = host_with_ip v address"
  by (simp add: host_with_ip_def url_port_def)

lemma private_round_trip_Inr:
  "private_round_trip host address u = Inr (v, g) \<Longrightarrow>
    ur_scheme v = ''https'' \<and> ur_host v = host_with_ip u address \<and> g = host"
  by (auto simp: private_round_trip_def split: if_split_asm)

lemma private_websocket_url_Inr:
  "private_websocket_url c u = Inr v \<Longrightarrow> cl_private c = Some address \<Longrightarrow>
    ur_scheme v = ''wss'' \<and> ur_host v = host_with_ip u address"
  by (auto simp: private_websocket_url_def split: if_split_asm)

lemma base_url_cong: "co_server_url a = co_server_url b \<Longrightarrow> base_url parse a = base_url parse b"
  by (simp add: base_url_def split: option.split)

lemma run_client_Inr:
  assumes "run_client io opt = Inr c" "co_private_connect opt"
  shows "base_url (ri_parse io) opt = Inr (cl_base c) \<and> ur_scheme (cl_base c) = ''https'' \<and> cl_private c = Some [] \<and>
    cl_origin c = origin_from_url (cl_base c)"
proof -
  from assms(1) obtain opt' c' where o: "check_run_options opt = Inr opt'" "new_client (ri_parse io) opt' (ri_getenv io) = Inr c'"
    "cl_base c = cl_base c'" "cl_private c = cl_private c'" "cl_origin c = cl_origin c'"
    unfolding run_client_def bind_result_Inr_iff by auto
  from o(1) have "co_private_connect opt' = co_private_connect opt" "co_server_url opt' = co_server_url opt"
    by (auto simp: check_run_options_def Let_def split: if_split_asm)
  with o assms(2) show ?thesis
    using new_client_private [OF o(2)] new_client_base [OF o(2)] base_url_cong [of opt' opt] by simp
qed

lemma tunnel_client_Inr:
  assumes "tunnel_client io opt = Inr c" "co_private_connect opt"
  shows "base_url (ri_parse io) opt = Inr (cl_base c) \<and> ur_scheme (cl_base c) = ''https'' \<and> cl_private c = Some [] \<and>
    cl_origin c = origin_from_url (cl_base c)"
proof -
  from assms(1) obtain opt' where o: "check_tunnel_options opt = Inr opt'" "new_client (ri_parse io) opt' (ri_getenv io) = Inr c"
    unfolding tunnel_client_def bind_result_Inr_iff by auto
  from o(1) have "co_private_connect opt' = co_private_connect opt" "co_server_url opt' = co_server_url opt"
    by (auto simp: check_tunnel_options_def Let_def split: if_split_asm)
  with o assms(2) show ?thesis
    using new_client_private [OF o(2)] new_client_base [OF o(2)] base_url_cong [of opt' opt] by simp
qed

section \<open>Properties\<close>

text \<open>What may follow the login, given the client after it.\<close>

fun follows :: "run_io \<Rightarrow> client \<Rightarrow> sent \<Rightarrow> bool" where
  "follows io c (SendLogin u h user pw) \<longleftrightarrow> False"
| "follows io c (FollowLogin u h) \<longleftrightarrow> False"
| "follows io c (SendGet u h) \<longleftrightarrow> (\<exists>path. request_to io c path u h)"
| "follows io c (DialSocket u g h) \<longleftrightarrow> (\<exists>v. v \<in> {ws_url (cl_base c), tunnel_ws_url (cl_base c)} \<and> dial_ws_url c v = Inr (u, g, h))"
| "follows io c (SendConnect ct) \<longleftrightarrow> (\<exists>frames. ri_socket io = Inr frames) \<and>
     (\<exists>saved. snd (saved_step io c (co_saved (cl_opt c))) = Inr saved \<and> connect_parameters (ri_env io) (cl_opt c) saved = Inr ct)"
| "follows io c (SendTunnelConnect host port) \<longleftrightarrow> (\<exists>frames. ri_socket io = Inr frames) \<and> host = co_host (cl_opt c) \<and> port = co_port (cl_opt c)"

lemma shell_follows: "all_sent (follows io c) (shell_step io c)"
proof -
  have "all_sent (follows io c) (saved_step io c (co_saved (cl_opt c)))"
    by (rule all_sent_saved) auto
  moreover have "all_sent (follows io c) (socket_step io c (ws_url (cl_base c)) (SendConnect ct))"
    if "snd (saved_step io c (co_saved (cl_opt c))) = Inr saved" "connect_parameters (ri_env io) (cl_opt c) saved = Inr ct" for saved ct
    by (rule all_sent_socket) (use that in auto)
  ultimately show ?thesis by (auto simp: shell_step_def split: prod.split)
qed

lemma tunnel_follows: "all_sent (follows io c)
    (socket_step io c (tunnel_ws_url (cl_base c)) (SendTunnelConnect (co_host (cl_opt c)) (co_port (cl_opt c))))"
  by (rule all_sent_socket) auto

lemma run_login:
  assumes "(out, r) \<in> {run io opt, run_cli_tunnel io opt}" "out \<noteq> []"
  obtains c0 c u h hops final rest where "Inr c0 \<in> {run_client io opt, tunnel_client io opt}"
    "prepare_private_connection (ri_lookup io) (ri_from_env io) c0 = Inr c"
    "request_url c (api_url (cl_base c) ''/api/login'') = Inr (u, h)" "redirected io c ''/api/login'' = (hops, final)"
    "out = login_requests c u h hops @ rest"
    "rest \<noteq> [] \<longrightarrow> final \<and> cli_login (ri_api io) = Inr ()" "list_all (follows io c) rest"
proof -
  from assms obtain c0 k where k: "Inr c0 \<in> {run_client io opt, tunnel_client io opt}" "then_send (login_step io c0) k = (out, r)"
    and f: "\<And>c. all_sent (follows io c) (k c)"
  proof -
    from assms(1) consider (run) "run io opt = (out, r)" | (tunnel) "run_cli_tunnel io opt = (out, r)" by auto
    then show ?thesis
    proof cases
      case run
      with assms(2) obtain c0 where c0: "run_client io opt = Inr c0" "run_with io c0 = (out, r)"
        by (cases "run_client io opt") (auto simp: run_def then_send_def quiet_def split: prod.split_asm)
      have "all_sent (follows io c) (if co_list_saved (cl_opt c)
          then get_step io c ''/api/credentials'' ''list credentials'' (bind_result (list_saved (ri_api io)) (\<lambda>rows. Inr (RunListed rows)))
          else shell_step io c)" for c
        by (auto simp: shell_follows intro!: all_sent_get)
      with c0 show ?thesis by (intro that) (auto simp: run_with_def)
    next
      case tunnel
      with assms(2) obtain c0 where c0: "tunnel_client io opt = Inr c0" "run_tunnel_with io c0 = (out, r)"
        by (cases "tunnel_client io opt") (auto simp: run_cli_tunnel_def then_send_def quiet_def split: prod.split_asm)
      show ?thesis
      proof (rule that)
        show "Inr c0 \<in> {run_client io opt, tunnel_client io opt}" using c0(1) by simp
        show "then_send (login_step io c0) (\<lambda>c. then_send
            (socket_step io c (tunnel_ws_url (cl_base c)) (SendTunnelConnect (co_host (cl_opt c)) (co_port (cl_opt c)))) (\<lambda>frames.
            quiet (bind_result (text_error (wait_tunnel_connected frames)) (\<lambda>rest. Inr (RunTunnelled rest))))) = (out, r)"
          using c0(2) by (simp only: run_tunnel_with_def)
      qed (simp add: tunnel_follows)
    qed
  qed
  from login_first [OF k(2) assms(2)] obtain c u h hops final rest where l:
    "prepare_private_connection (ri_lookup io) (ri_from_env io) c0 = Inr c"
    "request_url c (api_url (cl_base c) ''/api/login'') = Inr (u, h)" "redirected io c ''/api/login'' = (hops, final)"
    "out = login_requests c u h hops @ rest"
    "rest \<noteq> [] \<longrightarrow> final \<and> cli_login (ri_api io) = Inr () \<and> fst (k c) = rest" by blast
  have "list_all (follows io c) rest" using f [of c] l(5) by (cases "rest = []") (auto simp: all_sent_def)
  show ?thesis by (rule that [OF k(1) l(1-4) _ \<open>list_all (follows io c) rest\<close>]) (use l(5) in blast)
qed

lemma client_private:
  assumes "Inr c0 \<in> {run_client io opt, tunnel_client io opt}" "co_private_connect opt"
  shows "base_url (ri_parse io) opt = Inr (cl_base c0) \<and> ur_scheme (cl_base c0) = ''https'' \<and> cl_private c0 = Some [] \<and>
    cl_origin c0 = origin_from_url (cl_base c0)"
  using assms run_client_Inr [of io opt c0] tunnel_client_Inr [of io opt c0] by auto

text \<open>
  C21: a run sends nothing before its login. The user and the password go in the login to the configured server, and again
  only where an answer 307 or 308 of that exchange sends them, over nine redirects at most and never in private mode. Anything else is
  sent only when the login was accepted: requests to the configured server or where its redirects send them, and over a
  socket that was opened the request for a shell that \<^verbatim>\<open>connect_parameters\<close> makes of the options and the saved credential, or
  the destination of the options.
\<close>

theorem run_starts_with_login:
  assumes "(out, r) \<in> {run io opt, run_cli_tunnel io opt}"
  shows "out = [] \<or> (\<exists>c0 c u h hops final rest. Inr c0 \<in> {run_client io opt, tunnel_client io opt} \<and>
    prepare_private_connection (ri_lookup io) (ri_from_env io) c0 = Inr c \<and>
    request_url c (api_url (cl_base c) ''/api/login'') = Inr (u, h) \<and> redirected io c ''/api/login'' = (hops, final) \<and>
    out = login_requests c u h hops @ rest \<and>
    length hops \<le> 9 \<and> (co_private_connect opt \<longrightarrow> hops = []) \<and>
    (\<forall>v g user pw. SendLogin v g user pw \<in> set out \<longrightarrow> user = co_web_user (cl_opt c) \<and> pw = co_web_password (cl_opt c) \<and>
       (v = u \<and> g = h \<or> g = ur_host v \<and> \<not> prepared_private c \<and> Resubmit (Some v) \<in> set (ri_redirects io ''/api/login''))) \<and>
    (rest \<noteq> [] \<longrightarrow> final \<and> cli_login (ri_api io) = Inr ()) \<and> (\<forall>x\<in>set rest. follows io c x))"
proof (cases "out = []")
  case False
  obtain c0 c u h hops final rest where
    c0: "Inr c0 \<in> {run_client io opt, tunnel_client io opt}" and
    c: "prepare_private_connection (ri_lookup io) (ri_from_env io) c0 = Inr c" and
    first: "request_url c (api_url (cl_base c) ''/api/login'') = Inr (u, h)" and
    hops: "redirected io c ''/api/login'' = (hops, final)" and
    out: "out = login_requests c u h hops @ rest" and
    rest: "rest \<noteq> [] \<longrightarrow> final \<and> cli_login (ri_api io) = Inr ()" "list_all (follows io c) rest"
    by (rule run_login [OF assms False])
  note sound = redirected_sound [OF hops]
  have direct: "hops = []" if "co_private_connect opt"
    using prepare_private_Inr [OF c] client_private [OF c0 that] sound(2) by (auto simp: prepared_private_def)
  have resent: "Resubmit (Some v) \<in> set (ri_redirects io ''/api/login'') \<and> \<not> prepared_private c" if hop: "(v, True) \<in> set hops" for v
  proof -
    obtain x where "x \<in> set (ri_redirects io ''/api/login'')" "redirect_target x = Some v" "keeps_body x"
      using sound(3) [OF hop] by auto
    with sound(3) [OF hop] show ?thesis by (cases x) auto
  qed
  have none: "SendLogin v g user pw \<notin> set rest" for v g user pw
    using rest(2) by (auto simp: list_all_iff)
  have "user = co_web_user (cl_opt c) \<and> pw = co_web_password (cl_opt c) \<and>
       (v = u \<and> g = h \<or> g = ur_host v \<and> \<not> prepared_private c \<and> Resubmit (Some v) \<in> set (ri_redirects io ''/api/login''))"
    if "SendLogin v g user pw \<in> set out" for v g user pw
    using that none resent by (auto simp: out login_requests_def split: if_split_asm)
  with c0 c first hops out rest sound(1) direct show ?thesis unfolding list_all_iff by blast
qed simp

text \<open>What it means for a message to be sent to the address only.\<close>

definition pinned :: "url \<Rightarrow> string \<Rightarrow> url \<Rightarrow> string \<Rightarrow> bool" where
  "pinned base address u host \<longleftrightarrow> ur_host u = host_with_ip base address \<and> host = ur_host base"

fun sent_pinned :: "url \<Rightarrow> string \<Rightarrow> sent \<Rightarrow> bool" where
  "sent_pinned base address (SendLogin u h user pw) \<longleftrightarrow> ur_scheme u = ''https'' \<and> pinned base address u h"
| "sent_pinned base address (SendGet u h) \<longleftrightarrow> ur_scheme u = ''https'' \<and> pinned base address u h"
| "sent_pinned base address (DialSocket u g h) \<longleftrightarrow> ur_scheme u = ''wss'' \<and> pinned base address u h \<and> g = origin_from_url base"
| "sent_pinned base address (FollowLogin u h) \<longleftrightarrow> False"
| "sent_pinned base address _ \<longleftrightarrow> True"

text \<open>
  C20: in private mode every message of a run to the server goes to the address its name was resolved to over HTTPS,
  as TLS to the configured port. The name of the server is in the \<^verbatim>\<open>Host\<close> of a request and, for the WebSocket, in the
  \<^verbatim>\<open>Origin\<close>, which is that of the configured URL; nothing is sent when the name could not be resolved.
\<close>

theorem private_run_pinned:
  assumes "(out, r) \<in> {run io opt, run_cli_tunnel io opt}" "co_private_connect opt" "out \<noteq> []"
  shows "\<exists>base ip rest. base_url (ri_parse io) opt = Inr base \<and> ur_scheme base = ''https'' \<and>
    ri_lookup io (url_hostname base) = Inr (ip # rest) \<and> list_all (sent_pinned base (addr_string ip)) out"
proof -
  obtain c0 c u h hops final rest where
    c0: "Inr c0 \<in> {run_client io opt, tunnel_client io opt}" and
    c: "prepare_private_connection (ri_lookup io) (ri_from_env io) c0 = Inr c" and
    first: "request_url c (api_url (cl_base c) ''/api/login'') = Inr (u, h)" and
    hops: "redirected io c ''/api/login'' = (hops, final)" and
    out: "out = login_requests c u h hops @ rest" "list_all (follows io c) rest"
    by (rule run_login [OF assms(1,3)])
  note base = client_private [OF c0 assms(2), THEN conjunct1] client_private [OF c0 assms(2), THEN conjunct2, THEN conjunct1]
    client_private [OF c0 assms(2), THEN conjunct2, THEN conjunct2, THEN conjunct1]
  from prepare_private_Inr [OF c base(3)] client_private [OF c0 assms(2)] obtain ip more proxy where
    ip: "ri_lookup io (url_hostname (cl_base c0)) = Inr (ip # more)" and
    cc: "cl_base c = cl_base c0" "cl_private c = Some (addr_string ip)" "cl_dial c \<noteq> None" "cl_origin c = origin_from_url (cl_base c0)" by auto
  have prepared: "prepared_private c" using cc by (simp add: prepared_private_def)
  have request: "ur_scheme v = ''https'' \<and> pinned (cl_base c0) (addr_string ip) v g"
    if "request_url c (api_url (cl_base c) path) = Inr (v, g)" for path v g
  proof -
    have "private_round_trip (ur_host (cl_base c)) (addr_string ip) (api_url (cl_base c) path) = Inr (v, g)"
      using that cc(2,3) by (auto simp: request_url_def)
    from private_round_trip_Inr [OF this] have v: "ur_scheme v = ''https''" "ur_host v = host_with_ip (api_url (cl_base c) path) (addr_string ip)"
      "g = ur_host (cl_base c0)" by (simp_all add: cc(1))
    moreover have "host_with_ip (api_url (cl_base c) path) (addr_string ip) = host_with_ip (cl_base c0) (addr_string ip)"
      by (rule host_with_ip_host) (simp add: api_url_def cc(1))
    ultimately show ?thesis by (simp add: pinned_def)
  qed
  have socket: "ur_scheme v = ''wss'' \<and> pinned (cl_base c0) (addr_string ip) v g \<and> f = origin_from_url (cl_base c0)"
    if "w \<in> {ws_url (cl_base c), tunnel_ws_url (cl_base c)}" "dial_ws_url c w = Inr (v, f, g)" for v f g w
  proof -
    have "private_websocket_url c w = Inr v" "g = ur_host (cl_base c)" "f = origin_from_url (cl_base c0)"
      using that(2) cc(2,4) by (auto simp: dial_ws_url_def bind_result_Inr_iff)
    moreover have "ur_host w = ur_host (cl_base c)"
      using that(1) by (auto simp: ws_url_def tunnel_ws_url_def websocket_url_def)
    ultimately show ?thesis
      using private_websocket_url_Inr [of c w v "addr_string ip"] host_with_ip_host [of w "cl_base c0" "addr_string ip"] cc(1,2)
      by (simp add: pinned_def)
  qed
  have "list_all (sent_pinned (cl_base c0) (addr_string ip)) rest"
    unfolding list_all_iff
  proof
    fix x assume "x \<in> set rest"
    with out(2) have "follows io c x" by (simp add: list_all_iff)
    show "sent_pinned (cl_base c0) (addr_string ip) x"
    proof (cases x)
      case (SendGet v g)
      with \<open>follows io c x\<close> prepared obtain path where "request_url c (api_url (cl_base c) path) = Inr (v, g)"
        by (auto simp: request_to_def)
      from request [OF this] show ?thesis by (simp add: SendGet)
    next
      case (DialSocket v f g)
      with \<open>follows io c x\<close> obtain w where "w \<in> {ws_url (cl_base c), tunnel_ws_url (cl_base c)}" "dial_ws_url c w = Inr (v, f, g)"
        by auto
      from socket [OF this] show ?thesis by (simp add: DialSocket)
    qed (use \<open>follows io c x\<close> in simp_all)
  qed
  moreover have "hops = []" by (rule redirected_sound(2) [OF hops prepared])
  ultimately have "list_all (sent_pinned (cl_base c0) (addr_string ip)) out"
    using request [OF first] unfolding out(1) by (simp add: login_requests_def)
  with base(1,2) ip show ?thesis by (intro exI conjI)
qed

section \<open>Witnesses\<close>

definition sample_web_api :: api_env where
  "sample_web_api = \<lparr>ae_get = (\<lambda>p. ApiReply 200
       (if p = ''/api/credentials''
        then object_text [(''credentials'', array_text [object_text [(''id'', json_quote ''i1''), (''name'', json_quote ''Db'')]])]
        else object_text [(''host'', json_quote ''db''), (''username'', json_quote ''root''), (''privateKey'', json_quote ''KEY'')]) ''200 OK''),
     ae_login = ApiReply 200 [] ''200 OK''\<rparr>"

definition sample_io :: run_io where
  "sample_io = \<lparr>ri_parse = sample_parse, ri_getenv = (\<lambda>_. []), ri_lookup = (\<lambda>_. Inr [V4 0x5DB8D822]), ri_from_env = (\<lambda>_. None),
     ri_password = Inr ''pw'', ri_api = sample_web_api, ri_redirects = (\<lambda>_. []), ri_env = sample_run, ri_socket = Inr [Frame TextFrame (session_text (ConnectedMsg ''s'' ''db'' 22 ''root'' []))],
     ri_writes = True, ri_stdout = (\<lambda>_. True), ri_stop = PeerEof\<rparr>"

definition saved_options :: cli_options where
  "saved_options = private_options\<lparr>co_saved := ''d'', co_list_saved := False, co_host := [], co_ssh_user := [], co_port := 0,
     co_identity_file := []\<rparr>"

lemma sample_run_sends: "length (fst (run sample_io saved_options)) = 5"
  by code_simp

text \<open>A server that redirects its login twice, for a client that is not in private mode.\<close>

definition moved_login :: url where
  "moved_login = sample_base\<lparr>ur_host := ''new.example.com'', ur_path := ''/api/login''\<rparr>"

definition moved_io :: run_io where
  "moved_io = sample_io\<lparr>ri_redirects := (\<lambda>p. if p = ''/api/login'' then [SeeOther (Some moved_login), Resubmit (Some moved_login)] else [])\<rparr>"

definition moved_options :: cli_options where
  "moved_options = saved_options\<lparr>co_private_connect := False\<rparr>"

lemma moved_run_sends:
  "length (fst (run moved_io moved_options)) = 7" "list_ex (\<lambda>x. case x of SendLogin v g user pw \<Rightarrow> g = ''new.example.com'' | _ \<Rightarrow> False) (fst (run moved_io moved_options))"
  by code_simp+

theorem run_starts_with_login_witness:
  "\<exists>v g user pw. SendLogin v g user pw \<in> set (fst (run moved_io moved_options)) \<and> g = ''new.example.com'' \<and> v = moved_login"
proof -
  obtain out r where o: "run moved_io moved_options = (out, r)" by fastforce
  with moved_run_sends(1) have l: "out \<noteq> []" by auto
  from moved_run_sends(2) o obtain x where x: "x \<in> set out" "case x of SendLogin v g user pw \<Rightarrow> g = ''new.example.com'' | _ \<Rightarrow> False"
    by (auto simp only: list_ex_iff fst_conv)
  then obtain v user pw where s: "SendLogin v ''new.example.com'' user pw \<in> set out" by - (cases x; auto)
  from o have "(out, r) \<in> {run moved_io moved_options, run_cli_tunnel moved_io moved_options}" by simp
  from run_starts_with_login [OF this] l s obtain c0 c u h where c0: "Inr c0 \<in> {run_client moved_io moved_options, tunnel_client moved_io moved_options}"
    and c: "prepare_private_connection (ri_lookup moved_io) (ri_from_env moved_io) c0 = Inr c"
      "request_url c (api_url (cl_base c) ''/api/login'') = Inr (u, h)"
    and v: "v = u \<and> ''new.example.com'' = h \<or> Resubmit (Some v) \<in> set (ri_redirects moved_io ''/api/login'')" by blast
  have "case run_client moved_io moved_options of Inr c \<Rightarrow> cl_private c = None \<and> ur_host (cl_base c) = ''shell.example.com:8443'' | Inl _ \<Rightarrow> True"
    "case tunnel_client moved_io moved_options of Inr c \<Rightarrow> cl_private c = None \<and> ur_host (cl_base c) = ''shell.example.com:8443'' | Inl _ \<Rightarrow> True"
    by code_simp+
  with c0 have "cl_private c0 = None" "ur_host (cl_base c0) = ''shell.example.com:8443''" by (auto split: sum.split_asm)
  with c have "h \<noteq> ''new.example.com''" by (auto simp: prepare_private_connection_def request_url_def api_url_def)
  with v have "v = moved_login" by (auto simp: moved_io_def)
  with s show ?thesis by (auto simp: o)
qed

theorem private_run_pinned_witness:
  "\<exists>base. list_all (sent_pinned base ''93.184.216.34'') (fst (run sample_io saved_options)) \<and> ur_host base = ''shell.example.com:8443''"
proof -
  obtain out r where o: "run sample_io saved_options = (out, r)" by fastforce
  with sample_run_sends have l: "out \<noteq> []" by auto
  from o have "(out, r) \<in> {run sample_io saved_options, run_cli_tunnel sample_io saved_options}" by simp
  moreover have "co_private_connect saved_options" by code_simp
  ultimately obtain base ip rest where b: "base_url (ri_parse sample_io) saved_options = Inr base"
    "ri_lookup sample_io (url_hostname base) = Inr (ip # rest)" "list_all (sent_pinned base (addr_string ip)) out"
    using private_run_pinned l by blast
  have "ip = V4 0x5DB8D822" using b(2) by (simp add: sample_io_def)
  moreover have "addr_string (V4 0x5DB8D822) = ''93.184.216.34''" by code_simp
  moreover have "map_sum id ur_host (base_url (ri_parse sample_io) saved_options) = Inr ''shell.example.com:8443''" by code_simp
  ultimately show ?thesis using b(1,3) unfolding o by auto
qed

end
