(* ===== verification/Cli_Main.thy ===== *)
theory Cli_Main
  imports Cli_Run Cli_Options
begin

text \<open>
  \<^verbatim>\<open>cmd/webssh-cli/main.go\<close> from the values of the flags to the exit status: the choice of the mode
  (\<^verbatim>\<open>Cli_Options\<close>), the run (\<^verbatim>\<open>Cli_Run\<close>) and how it ends.
\<close>

text \<open>\<open>tunnel_end\<close> is the first error of the loops of a tunnel, if there is one.\<close>

definition run_status :: "relay_error option \<Rightarrow> run_result \<Rightarrow> int" where
  "run_status tunnel_end r =
    (case r of
       RunFailed e \<Rightarrow> 1
     | RunListed rows \<Rightarrow> 0
     | RunShellEnded out res \<Rightarrow> exit_status res
     | RunTunnelled frames \<Rightarrow> (case relay_tunnel_result tunnel_end of None \<Rightarrow> 0 | Some _ \<Rightarrow> 1))"

definition finish_run :: "relay_error option \<Rightarrow> sent list \<times> (cli_error + run_result) \<Rightarrow> sent list \<times> int" where
  "finish_run tunnel_end m = (fst m, case snd m of Inl e \<Rightarrow> 1 | Inr r \<Rightarrow> run_status tunnel_end r)"

definition cli_main ::
  "run_io \<Rightarrow> relay_error option \<Rightarrow> string list \<Rightarrow> string list \<Rightarrow> cli_options \<Rightarrow> bool \<Rightarrow> bool \<Rightarrow> sent list \<times> int" where
  "cli_main io tunnel_end explicit args opt0 show_version stdio =
    (case choose_mode explicit args opt0 show_version stdio (ri_getenv io) of
       Inl e \<Rightarrow> ([], 2)
     | Inr PrintVersion \<Rightarrow> ([], 0)
     | Inr UsageError \<Rightarrow> ([], 2)
     | Inr (RunTunnel opt) \<Rightarrow> finish_run tunnel_end (run_cli_tunnel io opt)
     | Inr (RunShell opt) \<Rightarrow> finish_run tunnel_end (run io opt))"

section \<open>What each mode may send\<close>

fun is_login :: "sent \<Rightarrow> bool" where
  "is_login (SendLogin u h user pw) \<longleftrightarrow> True"
| "is_login (FollowLogin u h) \<longleftrightarrow> True"
| "is_login _ \<longleftrightarrow> False"

fun is_get :: "sent \<Rightarrow> bool" where
  "is_get (SendGet u h) \<longleftrightarrow> True"
| "is_get _ \<longleftrightarrow> False"

fun opens_tunnel :: "sent \<Rightarrow> bool" where
  "opens_tunnel (DialSocket u g h) \<longleftrightarrow> True"
| "opens_tunnel (SendTunnelConnect host port) \<longleftrightarrow> 1 \<le> port \<and> port \<le> 65535"
| "opens_tunnel _ \<longleftrightarrow> False"

lemma login_step_sends: "all_sent is_login (login_step io c0)"
  by (auto simp: login_step_def login_requests_def list_all_iff split: prod.split)

lemma login_step_opt: "snd (login_step io c0) = Inr c \<Longrightarrow> cl_opt c = cl_opt c0"
  by (auto simp: login_step_def then_send_def quiet_def bind_result_Inr_iff prepare_private_connection_def Let_def
      split: prod.split_asm sum.split_asm if_split_asm option.split_asm list.split_asm)

lemma new_client_opt: "new_client parse opt getenv = Inr c \<Longrightarrow> cl_opt c = opt"
  by (auto simp: new_client_def bind_result_Inr_iff)

lemma tunnel_client_port:
  assumes "tunnel_client io opt = Inr c"
  shows "1 \<le> co_port (cl_opt c) \<and> co_port (cl_opt c) \<le> 65535"
  using assms by (auto simp: tunnel_client_def bind_result_Inr_iff check_tunnel_options_def Let_def new_client_opt split: if_split_asm)

lemma run_client_list: "run_client io opt = Inr c \<Longrightarrow> co_list_saved (cl_opt c) = co_list_saved opt"
  by (auto simp: run_client_def bind_result_Inr_iff check_run_options_def Let_def new_client_opt split: if_split_asm)

lemma all_sent_mono: "all_sent P m \<Longrightarrow> (\<And>x. P x \<Longrightarrow> Q x) \<Longrightarrow> all_sent Q m"
  by (auto simp: all_sent_def list_all_iff)

lemma tunnel_sends: "all_sent (\<lambda>x. is_login x \<or> opens_tunnel x) (run_cli_tunnel io opt)"
proof -
  have "all_sent (\<lambda>x. is_login x \<or> opens_tunnel x) (run_tunnel_with io c0)" if "tunnel_client io opt = Inr c0" for c0
    unfolding run_tunnel_with_def all_sent_simps
  proof (intro conjI allI impI)
    show "all_sent (\<lambda>x. is_login x \<or> opens_tunnel x) (login_step io c0)"
      by (rule all_sent_mono [OF login_step_sends]) simp
    fix c
    assume "snd (login_step io c0) = Inr c"
    then have "cl_opt c = cl_opt c0" by (rule login_step_opt)
    with tunnel_client_port [OF that]
    show "all_sent (\<lambda>x. is_login x \<or> opens_tunnel x)
        (socket_step io c (tunnel_ws_url (cl_base c)) (SendTunnelConnect (co_host (cl_opt c)) (co_port (cl_opt c))))"
      by (intro all_sent_socket) simp_all
  qed simp
  then show ?thesis by (simp add: run_cli_tunnel_def)
qed

lemma list_sends: "co_list_saved opt \<Longrightarrow> all_sent (\<lambda>x. is_login x \<or> is_get x) (run io opt)"
proof -
  assume l: "co_list_saved opt"
  have "all_sent (\<lambda>x. is_login x \<or> is_get x) (run_with io c0)" if "run_client io opt = Inr c0" for c0
    unfolding run_with_def all_sent_simps
  proof (intro conjI allI impI)
    show "all_sent (\<lambda>x. is_login x \<or> is_get x) (login_step io c0)"
      by (rule all_sent_mono [OF login_step_sends]) simp
    fix c
    assume "snd (login_step io c0) = Inr c"
    then have "co_list_saved (cl_opt c)" using run_client_list [OF that] l by (simp add: login_step_opt)
    then show "all_sent (\<lambda>x. is_login x \<or> is_get x) (if co_list_saved (cl_opt c)
        then get_step io c ''/api/credentials'' ''list credentials'' (bind_result (list_saved (ri_api io)) (\<lambda>rows. Inr (RunListed rows)))
        else shell_step io c)" by (auto intro!: all_sent_get)
  qed
  then show ?thesis by (simp add: run_def)
qed

text \<open>
  The mode bounds what leaves: a tunnel sends no key and no request for a credential, a listing opens no socket,
  and a command line that is refused sends nothing and ends with status 2.
\<close>

theorem main_sends_by_mode:
  assumes "cli_main io tunnel_end explicit args opt0 show_version stdio = (out, code)"
  shows "case choose_mode explicit args opt0 show_version stdio (ri_getenv io) of
      Inr (RunTunnel opt) \<Rightarrow> list_all (\<lambda>x. is_login x \<or> opens_tunnel x) out
    | Inr (RunShell opt) \<Rightarrow> (co_list_saved opt \<longrightarrow> list_all (\<lambda>x. is_login x \<or> is_get x) out)
    | Inr PrintVersion \<Rightarrow> out = [] \<and> code = 0
    | _ \<Rightarrow> out = [] \<and> code = 2"
  using assms tunnel_sends [of io] list_sends [of _ io]
  by (auto simp: cli_main_def finish_run_def all_sent_def split: sum.split cli_mode.split)

theorem main_sends_by_mode_witness:
  "list_all (\<lambda>x. is_login x \<or> opens_tunnel x) (fst (cli_main sample_io None [''stdio''] [''db'', ''2022''] sample_options False True))"
proof -
  let ?mode = "choose_mode [''stdio''] [''db'', ''2022''] sample_options False True (ri_getenv sample_io)"
  obtain out code where m: "cli_main sample_io None [''stdio''] [''db'', ''2022''] sample_options False True = (out, code)" by fastforce
  have "case ?mode of Inr (RunTunnel o1) \<Rightarrow> True | _ \<Rightarrow> False" by code_simp
  then obtain o1 where "?mode = Inr (RunTunnel o1)" by (auto split: sum.split_asm cli_mode.split_asm)
  with main_sends_by_mode [OF m] show ?thesis unfolding m by simp
qed

end
