(* ===== verification/Cli_Flags.thy ===== *)
theory Cli_Flags
  imports Go_Flags Cli_Main
begin

text \<open>
  The command line of \<^verbatim>\<open>cmd/webssh-cli/main.go\<close>: its variables, the flags declared over them, and the
  program from its arguments to its exit status. The usage text and what is printed are not modelled.
\<close>

section \<open>Variables and flags\<close>

record cli_vars =
  fv_server_url :: string
  fv_web_user :: string
  fv_web_password :: string
  fv_proxy_url :: string
  fv_no_proxy :: bool
  fv_insecure :: bool
  fv_private_connect :: bool
  fv_identity :: string
  fv_passphrase :: string
  fv_saved :: string
  fv_list_saved :: bool
  fv_port :: int
  fv_login :: string
  fv_term :: string
  fv_use_tmux :: bool
  fv_tmux_session :: string
  fv_timeout :: duration
  fv_show_version :: bool
  fv_stdio_tunnel :: bool

definition cli_flags :: "(string \<times> cli_vars flag_var) list" where
  "cli_flags =
    [(''url'', StringVar (\<lambda>x v. v\<lparr>fv_server_url := x\<rparr>)),
     (''web-user'', StringVar (\<lambda>x v. v\<lparr>fv_web_user := x\<rparr>)),
     (''web-password'', StringVar (\<lambda>x v. v\<lparr>fv_web_password := x\<rparr>)),
     (''proxy'', StringVar (\<lambda>x v. v\<lparr>fv_proxy_url := x\<rparr>)),
     (''no-proxy'', BoolVar (\<lambda>x v. v\<lparr>fv_no_proxy := x\<rparr>)),
     (''insecure'', BoolVar (\<lambda>x v. v\<lparr>fv_insecure := x\<rparr>)),
     (''private-connect'', BoolVar (\<lambda>x v. v\<lparr>fv_private_connect := x\<rparr>)),
     (''i'', StringVar (\<lambda>x v. v\<lparr>fv_identity := x\<rparr>)),
     (''identity'', StringVar (\<lambda>x v. v\<lparr>fv_identity := x\<rparr>)),
     (''passphrase'', StringVar (\<lambda>x v. v\<lparr>fv_passphrase := x\<rparr>)),
     (''saved'', StringVar (\<lambda>x v. v\<lparr>fv_saved := x\<rparr>)),
     (''list'', BoolVar (\<lambda>x v. v\<lparr>fv_list_saved := x\<rparr>)),
     (''p'', IntVar (\<lambda>x v. v\<lparr>fv_port := x\<rparr>)),
     (''port'', IntVar (\<lambda>x v. v\<lparr>fv_port := x\<rparr>)),
     (''l'', StringVar (\<lambda>x v. v\<lparr>fv_login := x\<rparr>)),
     (''login'', StringVar (\<lambda>x v. v\<lparr>fv_login := x\<rparr>)),
     (''term'', StringVar (\<lambda>x v. v\<lparr>fv_term := x\<rparr>)),
     (''herdr'', BoolVar (\<lambda>x v. v\<lparr>fv_use_tmux := x\<rparr>)),
     (''tmux'', BoolVar (\<lambda>x v. v\<lparr>fv_use_tmux := x\<rparr>)),
     (''herdr-session'', StringVar (\<lambda>x v. v\<lparr>fv_tmux_session := x\<rparr>)),
     (''tmux-session'', StringVar (\<lambda>x v. v\<lparr>fv_tmux_session := x\<rparr>)),
     (''timeout'', DurationVar (\<lambda>x v. v\<lparr>fv_timeout := x\<rparr>)),
     (''stdio'', BoolVar (\<lambda>x v. v\<lparr>fv_stdio_tunnel := x\<rparr>)),
     (''version'', BoolVar (\<lambda>x v. v\<lparr>fv_show_version := x\<rparr>)),
     (''v'', BoolVar (\<lambda>x v. v\<lparr>fv_show_version := x\<rparr>))]"

text \<open>The declaration of a flag stores its default in the variable.\<close>

definition default_vars :: "(string \<Rightarrow> string) \<Rightarrow> cli_vars" where
  "default_vars getenv =
    \<lparr>fv_server_url = getenv ''GOWEBSSH_URL'', fv_web_user = getenv ''GOWEBSSH_USERNAME'', fv_web_password = [],
     fv_proxy_url = [], fv_no_proxy = False, fv_insecure = False, fv_private_connect = False, fv_identity = [],
     fv_passphrase = [], fv_saved = [], fv_list_saved = False, fv_port = 0, fv_login = [], fv_term = [],
     fv_use_tmux = False, fv_tmux_session = [], fv_timeout = 45 * second, fv_show_version = False,
     fv_stdio_tunnel = False\<rparr>"

section \<open>The program\<close>

definition cli_version :: string where
  "cli_version = ''0.5.22''"

text \<open>The options before the environment and the arguments are looked at; the host is set from those.\<close>

definition flag_options :: "cli_vars \<Rightarrow> cli_options" where
  "flag_options v =
    \<lparr>co_server_url = fv_server_url v, co_web_user = fv_web_user v, co_web_password = fv_web_password v,
     co_proxy_url = fv_proxy_url v, co_no_proxy = fv_no_proxy v, co_insecure_tls = fv_insecure v,
     co_private_connect = fv_private_connect v, co_identity_file = fv_identity v, co_passphrase = fv_passphrase v,
     co_saved = fv_saved v, co_list_saved = fv_list_saved v, co_host = [], co_port = fv_port v,
     co_ssh_user = fv_login v, co_term = fv_term v, co_use_tmux = fv_use_tmux v,
     co_tmux_session = fv_tmux_session v, co_timeout = fv_timeout v, co_user_agent = ''go-webssh-cli/'' @ cli_version\<rparr>"

definition cli_process ::
  "(string \<Rightarrow> duration option) \<Rightarrow> run_io \<Rightarrow> relay_error option \<Rightarrow> string list \<Rightarrow> sent list \<times> int" where
  "cli_process pd io tunnel_end argv =
    (case parse_flags pd cli_flags argv [] (default_vars (ri_getenv io)) of
       Inl e \<Rightarrow> ([], if e = HelpWanted then 0 else 2)
     | Inr (v, given, args) \<Rightarrow>
         cli_main io tunnel_end given args (flag_options v) (fv_show_version v) (fv_stdio_tunnel v))"

section \<open>Every option can be written\<close>

definition show_switch :: "bool \<Rightarrow> string" where
  "show_switch b = (if b then ''true'' else ''false'')"

definition written :: "string \<Rightarrow> string \<Rightarrow> string" where
  "written n v = ''--'' @ n @ CHR ''='' # v"

definition write_vars :: "string \<Rightarrow> cli_vars \<Rightarrow> string list" where
  "write_vars timeout v =
    [written ''url'' (fv_server_url v), written ''web-user'' (fv_web_user v), written ''web-password'' (fv_web_password v),
     written ''proxy'' (fv_proxy_url v), written ''no-proxy'' (show_switch (fv_no_proxy v)),
     written ''insecure'' (show_switch (fv_insecure v)), written ''private-connect'' (show_switch (fv_private_connect v)),
     written ''i'' (fv_identity v), written ''passphrase'' (fv_passphrase v), written ''saved'' (fv_saved v),
     written ''list'' (show_switch (fv_list_saved v)), written ''p'' (itoa (fv_port v)), written ''l'' (fv_login v),
     written ''term'' (fv_term v), written ''herdr'' (show_switch (fv_use_tmux v)),
     written ''herdr-session'' (fv_tmux_session v), written ''timeout'' timeout,
     written ''version'' (show_switch (fv_show_version v)), written ''stdio'' (show_switch (fv_stdio_tunnel v))]"

lemma parse_show_switch [simp]: "parse_bool (show_switch b) = Some b"
  by (cases b) (simp_all add: show_switch_def parse_bool_def)

lemma parse_written:
  assumes "map_of cli_flags n = Some x" "flag_name n" "set_flag pd x v s = Some s1"
  shows "parse_flags pd cli_flags (written n v # rest) seen s = parse_flags pd cli_flags rest (n # seen) s1"
  using parse_one_flag [OF reads_flag.attached [OF assms(1,2), of "''--''"] assms(3)] by (simp add: written_def)

lemma written_string:
  assumes "map_of cli_flags n = Some (StringVar f)" "flag_name n"
  shows "parse_flags pd cli_flags (written n v # rest) seen s = parse_flags pd cli_flags rest (n # seen) (f v s)"
  by (rule parse_written [OF assms]) simp

lemma written_switch:
  assumes "map_of cli_flags n = Some (BoolVar f)" "flag_name n"
  shows "parse_flags pd cli_flags (written n (show_switch b) # rest) seen s = parse_flags pd cli_flags rest (n # seen) (f b s)"
  by (rule parse_written [OF assms]) simp

lemma written_int:
  assumes "map_of cli_flags n = Some (IntVar f)" "flag_name n" "- (2 ^ 63) \<le> i" "i < 2 ^ 63"
  shows "parse_flags pd cli_flags (written n (itoa i) # rest) seen s = parse_flags pd cli_flags rest (n # seen) (f i s)"
  by (rule parse_written [OF assms(1,2)]) (simp only: set_flag.simps parse_int_itoa [OF assms(3,4)] option.map)

lemma written_duration:
  assumes "map_of cli_flags n = Some (DurationVar f)" "flag_name n" "pd t = Some d"
  shows "parse_flags pd cli_flags (written n t # rest) seen s = parse_flags pd cli_flags rest (n # seen) (f d s)"
  by (rule parse_written [OF assms(1,2)]) (simp only: set_flag.simps assms(3) option.map)

text \<open>
  Every value of the variables can be written as flags and is read back, whatever the environment gave as
  defaults; what follows two dashes is left over as it is, were it to look like a flag.
\<close>

theorem command_line_roundtrip:
  assumes "- (2 ^ 63) \<le> fv_port v" "fv_port v < 2 ^ 63" "pd timeout = Some (fv_timeout v)"
  shows "\<exists>given. parse_flags pd cli_flags (write_vars timeout v @ ''--'' # args) [] s = Inr (v, given, args)"
proof -
  note duration = written_duration [where pd = pd and t = timeout and d = "fv_timeout v", OF _ _ assms(3)]
  note int = written_int [where i = "fv_port v", OF _ _ assms(1,2)]
  have t: "classify_arg ''--'' = Terminator" by (simp add: classify_Terminator)
  show ?thesis
    unfolding write_vars_def append.simps
    by (subst written_string written_switch int duration,
        (simp add: cli_flags_def; fail), (simp add: flag_name_def; fail))+
      (simp add: t)
qed

section \<open>A tunnel as the ProxyCommand of OpenSSH\<close>

lemma tunnel_client_target:
  assumes "tunnel_client io opt = Inr c"
  shows "co_host (cl_opt c) = trim_space (co_host opt)" "co_port (cl_opt c) = (if co_port opt = 0 then 22 else co_port opt)"
  using assms by (auto simp: tunnel_client_def bind_result_Inr_iff check_tunnel_options_def Let_def new_client_opt split: if_split_asm)

text \<open>What a tunnel to the given target may send.\<close>

definition tunnels_to :: "string \<Rightarrow> int \<Rightarrow> sent \<Rightarrow> bool" where
  "tunnels_to host port x \<longleftrightarrow> is_login x \<or> (\<exists>u g a. x = DialSocket u g a) \<or> x = SendTunnelConnect host port"

lemma tunnel_sends_target:
  "all_sent (tunnels_to (trim_space (co_host opt)) (if co_port opt = 0 then 22 else co_port opt)) (run_cli_tunnel io opt)"
proof -
  have "all_sent (tunnels_to (co_host (cl_opt c0)) (co_port (cl_opt c0))) (run_tunnel_with io c0)" for c0
    unfolding run_tunnel_with_def all_sent_simps
  proof (intro conjI allI impI)
    show "all_sent (tunnels_to (co_host (cl_opt c0)) (co_port (cl_opt c0))) (login_step io c0)"
      by (rule all_sent_mono [OF login_step_sends]) (simp add: tunnels_to_def)
    fix c
    assume "snd (login_step io c0) = Inr c"
    then have "cl_opt c = cl_opt c0" by (rule login_step_opt)
    then show "all_sent (tunnels_to (co_host (cl_opt c0)) (co_port (cl_opt c0)))
        (socket_step io c (tunnel_ws_url (cl_base c)) (SendTunnelConnect (co_host (cl_opt c)) (co_port (cl_opt c))))"
      by (intro all_sent_socket) (simp_all add: tunnels_to_def)
  qed simp
  then show ?thesis by (auto simp: run_cli_tunnel_def tunnel_client_target [symmetric])
qed

lemma stdio_runs_tunnel:
  assumes "choose_mode given args opt0 False stdio getenv = Inr mode" "''stdio'' \<in> set given" "stdio"
  obtains opt1 opt where "mode = RunTunnel opt" "resolve_tunnel_options given args opt1 stdio getenv = Inr (opt, True)"
proof -
  have s: "st" if "resolve_tunnel_options given args opt1 stdio getenv = Inr (opt, st)" for opt1 opt st
    using that assms(2,3) by (auto simp: resolve_tunnel_options_def stdio_mode_def bind_result_Inr_iff Let_def split: if_split_asm)
  from assms(1) [unfolded choose_mode_def Let_def if_False bind_result_Inr_iff] show thesis
  proof (elim exE conjE, goal_cases)
    case (1 pr p)
    obtain opt st where p: "p = (opt, st)" by (cases p)
    with s [OF 1(2) [unfolded p]] have p: "p = (opt, True)" by simp
    with 1(3) have "mode = RunTunnel opt" by simp
    then show ?thesis by (rule that [OF _ 1(2) [unfolded p]])
  qed
qed

lemma then_send_Inr: "snd (then_send m f) = Inr y \<longleftrightarrow> (\<exists>x. snd m = Inr x \<and> snd (f x) = Inr y)"
  by (auto simp: then_send_def split: prod.split sum.split)

lemma then_send_fst: "fst (then_send m f) = fst m @ (case snd m of Inl e \<Rightarrow> [] | Inr x \<Rightarrow> fst (f x))"
  by (auto simp: then_send_def split: prod.split sum.split)

text \<open>A tunnel that was opened was asked for after a login.\<close>

lemma login_success_sends: "snd (login_step io c0) = Inr c \<Longrightarrow> fst (login_step io c0) \<noteq> []"
  by (auto simp: login_step_def then_send_Inr then_send_fst quiet_def login_requests_def split_beta)

lemma tunnel_success_sends: "snd (run_cli_tunnel io opt) = Inr r \<Longrightarrow> fst (run_cli_tunnel io opt) \<noteq> []"
  using login_success_sends by (fastforce simp: run_cli_tunnel_def run_tunnel_with_def then_send_Inr then_send_fst quiet_def)

section \<open>Properties\<close>

text \<open>
  C17: as the \<^verbatim>\<open>ProxyCommand\<close> of OpenSSH the client asks for a tunnel to the host and port it is given and to
  no other, whatever the flags before them and the environment say, and sends nothing else but its login: the
  flags end at two dashes or at a host that does not look like a flag.
\<close>

theorem proxy_command_dials_target:
  assumes "reads_flags pd cli_flags flags (default_vars (ri_getenv io)) names v"
    and "''stdio'' \<in> set names" "fv_stdio_tunnel v" "\<not> fv_show_version v"
    and "flags_end rest [h, p]" "cli_process pd io tunnel_end (flags @ rest) = (out, code)"
  shows "if out = [] then code \<noteq> 0 else
    \<exists>port. atoi p = Some port \<and> 1 \<le> port \<and> port \<le> 65535 \<and> list_all (tunnels_to (trim_space h) port) out"
proof -
  have "parse_flags pd cli_flags (flags @ rest) [] (default_vars (ri_getenv io)) = Inr (v, rev names, [h, p])"
    using assms(1,5) by (subst parse_flags_iff) auto
  with assms(3,4,6) have m: "cli_main io tunnel_end (rev names) [h, p] (flag_options v) False True = (out, code)"
    by (simp add: cli_process_def)
  show ?thesis
  proof (cases "choose_mode (rev names) [h, p] (flag_options v) False True (ri_getenv io)")
    case (Inl e)
    with m show ?thesis by (auto simp: cli_main_def)
  next
    case (Inr mode)
    have g: "''stdio'' \<in> set (rev names)" using assms(2) by simp
    obtain opt1 opt where
      r: "mode = RunTunnel opt" "resolve_tunnel_options (rev names) [h, p] opt1 True (ri_getenv io) = Inr (opt, True)"
      by (rule stdio_runs_tunnel [OF Inr g TrueI])
    from tunnel_options_sane [OF r(2)]
    have o: "co_host opt = trim_space h" "atoi p = Some (co_port opt)" "1 \<le> co_port opt" "co_port opt \<le> 65535" by auto
    from m have f: "finish_run tunnel_end (run_cli_tunnel io opt) = (out, code)" by (simp add: cli_main_def Inr r(1))
    then have "list_all (tunnels_to (trim_space h) (co_port opt)) out"
      using tunnel_sends_target [of opt io] o by (auto simp: finish_run_def all_sent_def)
    moreover have "code \<noteq> 0" if "out = []"
      using f that tunnel_success_sends [of io opt] by (auto simp: finish_run_def split: sum.split_asm)
    ultimately show ?thesis using o by auto
  qed
qed

section \<open>Witnesses\<close>

definition proxy_args :: "string list" where
  "proxy_args = [''--url=wss://shell.example.com:8443'', ''-web-user'', ''admin'', ''--web-password=pw'', ''--stdio'']"

definition proxy_vars :: cli_vars where
  "proxy_vars = (default_vars (ri_getenv sample_io))\<lparr>fv_server_url := ''wss://shell.example.com:8443'', fv_web_user := ''admin'',
     fv_web_password := ''pw'', fv_stdio_tunnel := True\<rparr>"

lemma proxy_parsed:
  "parse_flags (\<lambda>_. None) cli_flags (proxy_args @ [''--'', ''db'', ''2022'']) [] (default_vars (ri_getenv sample_io)) =
    Inr (proxy_vars, [''stdio'', ''web-password'', ''web-user'', ''url''], [''db'', ''2022''])"
  by code_simp

lemma proxy_sends: "fst (cli_process (\<lambda>_. None) sample_io None (proxy_args @ [''--'', ''db'', ''2022''])) \<noteq> []"
  by code_simp

theorem proxy_command_dials_target_witness:
  "list_all (tunnels_to ''db'' 2022) (fst (cli_process (\<lambda>_. None) sample_io None (proxy_args @ [''--'', ''db'', ''2022''])))"
proof -
  have f:
    "reads_flag cli_flags ''url'' (StringVar (\<lambda>x v. v\<lparr>fv_server_url := x\<rparr>)) ''wss://shell.example.com:8443'' [''--url=wss://shell.example.com:8443'']"
    "reads_flag cli_flags ''web-user'' (StringVar (\<lambda>x v. v\<lparr>fv_web_user := x\<rparr>)) ''admin'' [''-web-user'', ''admin'']"
    "reads_flag cli_flags ''web-password'' (StringVar (\<lambda>x v. v\<lparr>fv_web_password := x\<rparr>)) ''pw'' [''--web-password=pw'']"
    "reads_flag cli_flags ''stdio'' (BoolVar (\<lambda>x v. v\<lparr>fv_stdio_tunnel := x\<rparr>)) ''true'' [''--stdio'']"
    using reads_flag.attached [of cli_flags "''url''" _ "''--''" "''wss://shell.example.com:8443''"]
      reads_flag.separate [of cli_flags "''web-user''" _ "''-''" "''admin''"]
      reads_flag.attached [of cli_flags "''web-password''" _ "''--''" "''pw''"] reads_flag.switch [of cli_flags "''stdio''" _ "''--''"]
    by (simp_all add: cli_flags_def flag_name_def)
  have reads: "reads_flags (\<lambda>_. None) cli_flags proxy_args (default_vars (ri_getenv sample_io)) [''url'', ''web-user'', ''web-password'', ''stdio''] proxy_vars"
    using one_flag [OF f(1) _ one_flag [OF f(2) _ one_flag [OF f(3) _ one_flag [OF f(4) _ no_flags]]],
        of "\<lambda>_. None" "default_vars (ri_getenv sample_io)"]
    by (simp add: proxy_args_def proxy_vars_def default_vars_def parse_bool_def)
  have e: "flags_end [''--'', ''db'', ''2022''] [''db'', ''2022'']" by (simp add: flags_end_def)
  have n: "''stdio'' \<in> set [''url'', ''web-user'', ''web-password'', ''stdio'']" by simp
  have v: "fv_stdio_tunnel proxy_vars" "\<not> fv_show_version proxy_vars" by (simp_all add: proxy_vars_def default_vars_def)
  obtain out code where p: "cli_process (\<lambda>_. None) sample_io None (proxy_args @ [''--'', ''db'', ''2022'']) = (out, code)" by fastforce
  have "out \<noteq> []" using proxy_sends by (simp add: p)
  with proxy_command_dials_target [OF reads n v e p] obtain port where
    "atoi ''2022'' = Some port" "list_all (tunnels_to (trim_space ''db'') port) out" by auto
  moreover have "atoi ''2022'' = Some 2022" "trim_space ''db'' = ''db''" by code_simp+
  ultimately show ?thesis by (simp add: p)
qed

theorem command_line_roundtrip_witness:
  "\<exists>given. parse_flags (\<lambda>t. if t = ''45s'' then Some (45 * second) else None) cli_flags
     (write_vars ''45s'' (default_vars (\<lambda>_. [])) @ ''--'' # [''-p'']) [] (default_vars (\<lambda>_. ''x'')) = Inr (default_vars (\<lambda>_. []), given, [''-p''])"
  by (rule command_line_roundtrip) (simp_all add: default_vars_def)

end
