(* ===== verification/Tunnel_Relay.thy ===== *)
theory Tunnel_Relay
  imports Cli_Tunnel
begin

text \<open>
  \<^verbatim>\<open>relayTunnel\<close> of \<^verbatim>\<open>internal/cli/tunnel.go\<close> with its goroutines: one copies standard input to the server, one
  copies what the server sends to standard output, a third closes the connection when the context is done, and the
  first error any of them reports ends the relay. Together with the server's relay this gives both directions of a tunnel.
\<close>

section \<open>The relay of the client\<close>

text \<open>\<open>ct_errors\<close> is what was put into the channel of errors, in order; its first element decides.\<close>

record cli_tunnel =
  ct_reads :: "(bytes \<times> read_end) list"
  ct_input_over :: bool
  ct_sent :: "frame list"
  ct_frames :: "frame list"
  ct_output_over :: bool
  ct_stdout :: connection
  ct_errors :: "relay_error list"

definition start_cli_tunnel :: "(bytes \<times> read_end) list \<Rightarrow> frame list \<Rightarrow> (nat \<times> bool) list \<Rightarrow> cli_tunnel" where
  "start_cli_tunnel reads frames plan =
    \<lparr>ct_reads = reads, ct_input_over = False, ct_sent = [], ct_frames = frames, ct_output_over = False,
     ct_stdout = fresh_connection plan, ct_errors = []\<rparr>"

definition input_fails :: "relay_error \<Rightarrow> cli_tunnel \<Rightarrow> cli_tunnel" where
  "input_fails e s = s\<lparr>ct_input_over := True, ct_errors := ct_errors s @ [e]\<rparr>"

definition output_fails :: "relay_error \<Rightarrow> cli_tunnel \<Rightarrow> cli_tunnel" where
  "output_fails e s = s\<lparr>ct_output_over := True, ct_errors := ct_errors s @ [e]\<rparr>"

text \<open>One turn of \<^verbatim>\<open>copyTunnelInput\<close>: \<open>ok\<close> tells which messages can be written.\<close>

definition tunnel_input_step :: "(frame \<Rightarrow> bool) \<Rightarrow> bytes \<times> read_end \<Rightarrow> cli_tunnel \<Rightarrow> cli_tunnel" where
  "tunnel_input_step ok r s =
    (case r of (data, e) \<Rightarrow>
      let chunk = take (32 * 1024) data; m = Frame BinaryFrame chunk in
      if chunk \<noteq> [] \<and> \<not> ok m then input_fails RelayFailed s
      else
        let s1 = (if chunk \<noteq> [] then s\<lparr>ct_sent := ct_sent s @ [m]\<rparr> else s) in
        (case e of
           More \<Rightarrow> s1
         | ReadFailed \<Rightarrow> input_fails RelayFailed s1
         | Eof \<Rightarrow>
             let eof = Frame TextFrame tunnel_eof_message in
             if ok eof then s1\<lparr>ct_sent := ct_sent s1 @ [eof], ct_input_over := True\<rparr> else input_fails RelayFailed s1))"

text \<open>One turn of \<^verbatim>\<open>copyTunnelOutput\<close>: \<open>err\<close> is the error of a \<^verbatim>\<open>ReadMessage\<close> that fails.\<close>

definition tunnel_output_step :: "relay_error \<Rightarrow> frame \<Rightarrow> cli_tunnel \<Rightarrow> cli_tunnel" where
  "tunnel_output_step err f s =
    (case f of
       ReadError \<Rightarrow> output_fails err s
     | Frame BinaryFrame payload \<Rightarrow>
         (case write_full conn_write payload (ct_stdout s) of
            (WriteOk, out) \<Rightarrow> s\<lparr>ct_stdout := out\<rparr>
          | (_, out) \<Rightarrow> output_fails RelayFailed (s\<lparr>ct_stdout := out\<rparr>))
     | Frame TextFrame payload \<Rightarrow>
         (case decode_message payload of
            None \<Rightarrow> output_fails RelayFailed s
          | Some (ty, raw) \<Rightarrow>
              if ty = ''error'' then (case decode_error raw of (code, msg) \<Rightarrow> output_fails (RelayMessage code msg) s) else s)
     | Frame OtherFrame payload \<Rightarrow> s)"

text \<open>
  The goroutines take turns; a connection that is closed because the context is done, or lost, makes the next read
  fail. A loop that is over takes no more turns.
\<close>

inductive cli_tunnel_step :: "cli_tunnel \<Rightarrow> cli_tunnel \<Rightarrow> bool" where
  from_stdin: "\<not> ct_input_over s \<Longrightarrow> ct_reads s = r # rs \<Longrightarrow> cli_tunnel_step s (tunnel_input_step ok r (s\<lparr>ct_reads := rs\<rparr>))"
| from_server: "\<not> ct_output_over s \<Longrightarrow> ct_frames s = f # fs \<Longrightarrow> cli_tunnel_step s (tunnel_output_step err f (s\<lparr>ct_frames := fs\<rparr>))"
| connection_closed: "\<not> ct_output_over s \<Longrightarrow> cli_tunnel_step s (output_fails RelayFailed s)"

inductive_cases cli_tunnel_stepE: "cli_tunnel_step s s'"

abbreviation cli_tunnel_reach :: "cli_tunnel \<Rightarrow> cli_tunnel \<Rightarrow> bool" where
  "cli_tunnel_reach \<equiv> cli_tunnel_step\<^sup>*\<^sup>*"

text \<open>What \<^verbatim>\<open>relayTunnel\<close> returns once an error is there.\<close>

definition tunnel_result :: "cli_tunnel \<Rightarrow> relay_error option option" where
  "tunnel_result s = (case ct_errors s of [] \<Rightarrow> None | e # _ \<Rightarrow> Some (relay_tunnel_result (Some e)))"

section \<open>The loops on their own\<close>

text \<open>Turns of one loop alone give the run of the loop.\<close>

lemma input_turns:
  assumes "copy_tunnel_input ok reads = (frames, res)" "reads \<noteq> []" "\<not> ct_input_over s" "ct_reads s = reads"
    and "\<exists>r \<in> set reads. snd r \<noteq> More"
  shows "\<exists>rs. cli_tunnel_reach s (s\<lparr>ct_reads := rs, ct_input_over := True, ct_sent := ct_sent s @ frames,
    ct_errors := ct_errors s @ (case res of None \<Rightarrow> [] | Some e \<Rightarrow> [e])\<rparr>)"
  using assms
proof (induction reads arbitrary: s frames)
  case Nil
  then show ?case by simp
next
  case (Cons r reads)
  obtain d e where r: "r = (d, e)" by (cases r)
  let ?c = "take (32 * 1024) d"
  note step = from_stdin [OF Cons.prems(3,4), of ok]
  show ?case
  proof (cases "e = More \<and> \<not> (?c \<noteq> [] \<and> \<not> ok (Frame BinaryFrame ?c))")
    case False
    with Cons.prems(1) have "tunnel_input_step ok r (s\<lparr>ct_reads := reads\<rparr>) =
        s\<lparr>ct_reads := reads, ct_input_over := True, ct_sent := ct_sent s @ frames,
          ct_errors := ct_errors s @ (case res of None \<Rightarrow> [] | Some e \<Rightarrow> [e])\<rparr>"
      by (cases e) (auto simp: tunnel_input_step_def r input_fails_def Let_def split: if_split_asm)
    with step show ?thesis by (intro exI [of _ reads]) auto
  next
    case True
    let ?out = "if ?c \<noteq> [] then [Frame BinaryFrame ?c] else []"
    let ?s1 = "s\<lparr>ct_reads := reads, ct_sent := ct_sent s @ ?out\<rparr>"
    from True Cons.prems(1) obtain frames' where f: "copy_tunnel_input ok reads = (frames', res)" "frames = ?out @ frames'"
      by (auto simp: r Let_def split: prod.split_asm if_split_asm)
    from True have "tunnel_input_step ok r (s\<lparr>ct_reads := reads\<rparr>) = ?s1" by (auto simp: tunnel_input_step_def r Let_def)
    with step have one: "cli_tunnel_step s ?s1" by simp
    from True Cons.prems(5) have more: "\<exists>r \<in> set reads. snd r \<noteq> More" by (auto simp: r)
    then have "reads \<noteq> []" by auto
    from Cons.IH [OF f(1) this _ _ more, of ?s1] Cons.prems(3) obtain rs where
      "cli_tunnel_reach ?s1 (s\<lparr>ct_reads := rs, ct_input_over := True, ct_sent := ct_sent s @ frames,
         ct_errors := ct_errors s @ (case res of None \<Rightarrow> [] | Some e \<Rightarrow> [e])\<rparr>)"
      by (auto simp: f(2))
    with one show ?thesis by (blast intro: converse_rtranclp_into_rtranclp)
  qed
qed

section \<open>What the relay keeps\<close>

text \<open>An error that ends a reading of the socket, rather than one of the relay's own.\<close>

fun read_ended :: "relay_error \<Rightarrow> bool" where
  "read_ended RelayFailed \<longleftrightarrow> False"
| "read_ended (RelayMessage code msg) \<longleftrightarrow> False"
| "read_ended _ \<longleftrightarrow> True"

definition output_ok :: "frame list \<Rightarrow> cli_tunnel \<Rightarrow> bool" where
  "output_ok frames s \<longleftrightarrow>
     (\<exists>used. frames = used @ ct_frames s \<and> prefix (kn_taken (ct_stdout s)) (concat (payloads used)) \<and>
        (ct_output_over s \<or> kn_taken (ct_stdout s) = concat (payloads used)) \<and>
        (list_ex read_ended (ct_errors s) \<longrightarrow>
           ct_output_over s \<and> ReadError \<in> set used \<and> kn_taken (ct_stdout s) = concat (payloads used)))"

definition input_ok :: "(bytes \<times> read_end) list \<Rightarrow> cli_tunnel \<Rightarrow> bool" where
  "input_ok reads s \<longleftrightarrow>
     list_all (\<lambda>(d, e). length d \<le> 32 * 1024) (ct_reads s) \<and>
     prefix (concat (payloads (ct_sent s))) (stdin_bytes reads) \<and>
     (ct_input_over s \<or> concat (payloads (ct_sent s)) @ stdin_bytes (ct_reads s) = stdin_bytes reads)"

lemma output_ok_input:
  assumes "output_ok frames s" "ct_frames s' = ct_frames s" "ct_output_over s' = ct_output_over s" "ct_stdout s' = ct_stdout s"
    and "ct_errors s' = ct_errors s \<or> ct_errors s' = ct_errors s @ [RelayFailed]"
  shows "output_ok frames s'"
  using assms unfolding output_ok_def by auto

lemma input_step_fields:
  "ct_frames (tunnel_input_step ok r s) = ct_frames s"
  "ct_output_over (tunnel_input_step ok r s) = ct_output_over s"
  "ct_stdout (tunnel_input_step ok r s) = ct_stdout s"
  "ct_errors (tunnel_input_step ok r s) = ct_errors s \<or> ct_errors (tunnel_input_step ok r s) = ct_errors s @ [RelayFailed]"
  by (auto simp: tunnel_input_step_def input_fails_def Let_def split: prod.split read_end.split)

lemma output_step_fields:
  "ct_reads (tunnel_output_step err f s) = ct_reads s"
  "ct_input_over (tunnel_output_step err f s) = ct_input_over s"
  "ct_sent (tunnel_output_step err f s) = ct_sent s"
  by (auto simp: tunnel_output_step_def output_fails_def split: frame.split frame_type.split prod.split write_result.split option.split)

lemma output_step_ok:
  assumes "output_ok frames s" "\<not> ct_output_over s" "ct_frames s = f # fs"
  shows "output_ok frames (tunnel_output_step err f (s\<lparr>ct_frames := fs\<rparr>))"
proof -
  from assms obtain used where u: "frames = (used @ [f]) @ fs" "kn_taken (ct_stdout s) = concat (payloads used)" and
    n: "\<not> list_ex read_ended (ct_errors s)"
    by (auto simp: output_ok_def)
  show ?thesis
  proof (cases f)
    case ReadError
    then show ?thesis
      unfolding output_ok_def by (intro exI [of _ "used @ [f]"]) (simp add: tunnel_output_step_def output_fails_def u)
  next
    case (Frame mt payload)
    show ?thesis
    proof (cases "mt = BinaryFrame")
      case True
      obtain res out where w: "write_all conn_write payload (ct_stdout s) = (res, out)" by fastforce
      from connections.write_all_taken [OF w] obtain n where
        t: "kn_taken out = concat (payloads used) @ take n payload" "res = WriteOk \<longrightarrow> n = length payload"
        by (auto simp: u(2))
      have "prefix (take n payload) payload" by (rule take_is_prefix)
      with t n u(1) show ?thesis
        unfolding output_ok_def
        by (intro exI [of _ "used @ [f]"])
          (cases res; simp add: tunnel_output_step_def Frame True write_full_def w output_fails_def)
    next
      case False
      with n u show ?thesis
        unfolding output_ok_def
        by (intro exI [of _ "used @ [f]"])
          (cases mt; auto simp: tunnel_output_step_def Frame output_fails_def split: option.split prod.split)
    qed
  qed
qed

lemma input_step_ok:
  assumes "input_ok reads s" "\<not> ct_input_over s" "ct_reads s = r # rs"
  shows "input_ok reads (tunnel_input_step ok r (s\<lparr>ct_reads := rs\<rparr>))"
proof -
  obtain d e where r: "r = (d, e)" by (cases r)
  from assms have d: "take 32768 d = d" "list_all (\<lambda>(d, e). length d \<le> 32 * 1024) rs" and
    w: "concat (payloads (ct_sent s)) @ d @ (if e = More then stdin_bytes rs else []) = stdin_bytes reads"
    by (auto simp: input_ok_def r)
  have p: "prefix (concat (payloads (ct_sent s))) (stdin_bytes reads)" "prefix (concat (payloads (ct_sent s)) @ d) (stdin_bytes reads)"
    using w by (metis append.assoc prefixI)+
  show ?thesis
    using p w d(2) by (cases e) (auto simp: tunnel_input_step_def r d(1) Let_def input_fails_def input_ok_def)
qed

lemma relay_keeps:
  assumes "cli_tunnel_reach (start_cli_tunnel reads frames plan) s" "list_all (\<lambda>(d, e). length d \<le> 32 * 1024) reads"
  shows "output_ok frames s \<and> input_ok reads s"
  using assms(1)
proof (induction rule: rtranclp_induct)
  case base
  show ?case using assms(2)
    by (simp add: output_ok_def input_ok_def start_cli_tunnel_def fresh_connection_def)
next
  case (step y z)
  from step(2) show ?case
  proof cases
    case (from_stdin r rs ok)
    have "output_ok frames (y\<lparr>ct_reads := rs\<rparr>)" by (rule output_ok_input [OF conjunct1 [OF step(3)]]) simp_all
    then have "output_ok frames z"
      unfolding from_stdin(1) by (rule output_ok_input) (rule input_step_fields)+
    with input_step_ok [OF conjunct2 [OF step(3)] from_stdin(2,3)] show ?thesis by (simp add: from_stdin(1))
  next
    case (from_server f fs err)
    from output_step_ok [OF conjunct1 [OF step(3)] from_server(2,3)] step(3) show ?thesis
      by (simp add: from_server(1) input_ok_def output_step_fields)
  next
    case connection_closed
    with step(3) show ?thesis by (auto simp: output_ok_def input_ok_def output_fails_def)
  qed
qed

text \<open>The result is no error only when the reading of the socket ended the relay.\<close>

lemma tunnel_result_ok: "tunnel_result s = Some None \<Longrightarrow> list_ex read_ended (ct_errors s)"
  by (cases "ct_errors s"; cases "hd (ct_errors s)") (auto simp: tunnel_result_def)

lemma payloads_binary [simp]: "payloads (map (Frame BinaryFrame) ms) = ms"
  by (induction ms) simp_all

lemma read_error_last:
  assumes "map (Frame BinaryFrame) ms @ [ReadError] = used @ rest" "ReadError \<in> set used"
  shows "used = map (Frame BinaryFrame) ms @ [ReadError]"
  using assms by (induction ms arbitrary: used) (auto simp: append_eq_Cons_conv Cons_eq_append_conv)

text \<open>Turns of the output alone write everything and end with the error of the reading.\<close>

lemma output_turns:
  assumes "ct_frames s = map (Frame BinaryFrame) ms @ [ReadError]" "\<not> ct_output_over s" "kn_plan (ct_stdout s) = []"
  shows "\<exists>s'. cli_tunnel_reach s s' \<and> ct_errors s' = ct_errors s @ [err] \<and> kn_taken (ct_stdout s') = kn_taken (ct_stdout s) @ concat ms"
  using assms
proof (induction ms arbitrary: s)
  case Nil
  then have "cli_tunnel_step s (tunnel_output_step err ReadError (s\<lparr>ct_frames := []\<rparr>))"
    by (intro from_server) simp_all
  then show ?case
    by (intro exI [of _ "tunnel_output_step err ReadError (s\<lparr>ct_frames := []\<rparr>)"])
      (auto simp: tunnel_output_step_def output_fails_def)
next
  case (Cons m ms)
  from write_all_unplanned [OF Cons.prems(3), of m] obtain out where
    w: "write_all conn_write m (ct_stdout s) = (WriteOk, out)" "kn_plan out = []" "kn_taken out = kn_taken (ct_stdout s) @ m" by blast
  let ?s1 = "s\<lparr>ct_frames := map (Frame BinaryFrame) ms @ [ReadError], ct_stdout := out\<rparr>"
  have "cli_tunnel_step s (tunnel_output_step err (Frame BinaryFrame m) (s\<lparr>ct_frames := map (Frame BinaryFrame) ms @ [ReadError]\<rparr>))"
    using Cons.prems by (intro from_server) simp_all
  then have step: "cli_tunnel_step s ?s1" by (simp add: tunnel_output_step_def write_full_def w(1))
  from Cons.IH [of ?s1] Cons.prems(2) w(2) obtain s' where
    "cli_tunnel_reach ?s1 s'" "ct_errors s' = ct_errors s @ [err]" "kn_taken (ct_stdout s') = kn_taken out @ concat ms" by auto
  with step w(3) show ?case by (intro exI [of _ s']) (auto intro: converse_rtranclp_into_rtranclp)
qed

section \<open>Properties\<close>

text \<open>
  C16: what the target writes comes out of the client. However the goroutines of both relays take turns, standard
  output holds a prefix of it, without loss or change, and what goes to the server is a prefix of standard input; a client that ends
  without an error has written all that the server relayed, and it can so end whatever was relayed.
\<close>

theorem tunnel_returns_target:
  assumes "relay_reach (True, start_relay client_frames source target_plan) (going, r)"
    and "list_all (\<lambda>(d, e). length d \<le> 32 * 1024) reads"
  shows "(\<forall>s plan. cli_tunnel_reach (start_cli_tunnel reads (map (Frame BinaryFrame) (rl_sent r) @ [ReadError]) plan) s \<longrightarrow>
      prefix (kn_taken (ct_stdout s)) source \<and> prefix (concat (payloads (ct_sent s))) (stdin_bytes reads) \<and>
      (tunnel_result s = Some None \<longrightarrow> kn_taken (ct_stdout s) = concat (rl_sent r))) \<and>
    (\<exists>s. cli_tunnel_reach (start_cli_tunnel reads (map (Frame BinaryFrame) (rl_sent r) @ [ReadError]) []) s \<and>
      tunnel_result s = Some None)"
proof (intro conjI allI impI)
  let ?frames = "map (Frame BinaryFrame) (rl_sent r) @ [ReadError]"
  from relay_reach_ok [OF assms(1)] have src: "prefix (concat (rl_sent r)) source"
    by (auto simp: relay_ok_def split: if_split_asm)
  fix s plan
  assume "cli_tunnel_reach (start_cli_tunnel reads ?frames plan) s"
  note ok = relay_keeps [OF this assms(2)]
  then show "prefix (concat (payloads (ct_sent s))) (stdin_bytes reads)" by (simp add: input_ok_def)
  from ok obtain used where u: "?frames = used @ ct_frames s" "prefix (kn_taken (ct_stdout s)) (concat (payloads used))"
    "list_ex read_ended (ct_errors s) \<Longrightarrow> ReadError \<in> set used \<and> kn_taken (ct_stdout s) = concat (payloads used)"
    by (auto simp: output_ok_def)
  have "payloads ?frames = payloads used @ payloads (ct_frames s)" by (simp only: u(1) payloads_append)
  then have "prefix (concat (payloads used)) (concat (rl_sent r))" by simp
  with u(2) src show "prefix (kn_taken (ct_stdout s)) source" by (metis prefix_order.trans)
  assume "tunnel_result s = Some None"
  from u(3) [OF tunnel_result_ok [OF this]] read_error_last [OF u(1)]
  show "kn_taken (ct_stdout s) = concat (rl_sent r)" by simp
next
  obtain s where "cli_tunnel_reach (start_cli_tunnel reads (map (Frame BinaryFrame) (rl_sent r) @ [ReadError]) []) s"
    "ct_errors s = [RelayCloseError 1000]"
    using output_turns [of "start_cli_tunnel reads (map (Frame BinaryFrame) (rl_sent r) @ [ReadError]) []" "rl_sent r" "RelayCloseError 1000"]
    by (auto simp: start_cli_tunnel_def fresh_connection_def)
  then show "\<exists>s. cli_tunnel_reach (start_cli_tunnel reads (map (Frame BinaryFrame) (rl_sent r) @ [ReadError]) []) s \<and>
      tunnel_result s = Some None" by (auto simp: tunnel_result_def)
qed

text \<open>
  A write that fails when the server has already ended the tunnel is reported, if it comes first, although
  everything was received: the end of the tunnel depends on which goroutine is quicker.
\<close>

lemma late_write_reported:
  "\<exists>s. cli_tunnel_reach (start_cli_tunnel [(''x'', More)] [Frame BinaryFrame ''bye'', ReadError] []) s \<and>
     kn_taken (ct_stdout s) = ''bye'' \<and> RelayCloseError 1000 \<in> set (ct_errors s) \<and> tunnel_result s = Some (Some RelayFailed)"
proof -
  let ?s0 = "start_cli_tunnel [(''x'', More)] [Frame BinaryFrame ''bye'', ReadError] []"
  have "cli_tunnel_step ?s0 (tunnel_input_step (\<lambda>_. False) (''x'', More) (?s0\<lparr>ct_reads := []\<rparr>))"
    by (rule from_stdin) (simp_all add: start_cli_tunnel_def)
  moreover have "tunnel_input_step (\<lambda>_. False) (''x'', More) (?s0\<lparr>ct_reads := []\<rparr>) =
      ?s0\<lparr>ct_reads := [], ct_input_over := True, ct_errors := [RelayFailed]\<rparr>" (is "_ = ?s1")
    by (simp add: tunnel_input_step_def input_fails_def start_cli_tunnel_def)
  ultimately have "cli_tunnel_step ?s0 ?s1" by simp
  moreover obtain s where "cli_tunnel_reach ?s1 s" "ct_errors s = [RelayFailed, RelayCloseError 1000]" "kn_taken (ct_stdout s) = ''bye''"
    using output_turns [of ?s1 "[''bye'']" "RelayCloseError 1000"] by (auto simp: start_cli_tunnel_def fresh_connection_def)
  ultimately show ?thesis by (intro exI [of _ s]) (auto simp: tunnel_result_def intro: converse_rtranclp_into_rtranclp)
qed

section \<open>Witnesses\<close>

theorem tunnel_returns_target_witness:
  "\<exists>r s. relay_reach (True, start_relay [] ''abc'' []) (True, r) \<and> rl_source r = ''c'' \<and>
     cli_tunnel_reach (start_cli_tunnel [] (map (Frame BinaryFrame) (rl_sent r) @ [ReadError]) []) s \<and>
     tunnel_result s = Some None \<and> kn_taken (ct_stdout s) = ''ab''"
proof -
  let ?r = "(start_relay [] ''abc'' [])\<lparr>rl_source := ''c'', rl_sent := [''ab''], rl_out := 2\<rparr>"
  have "copy_target_step 2 False True (start_relay [] ''abc'' []) = (True, ?r)"
    by (simp add: copy_target_step_def start_relay_def Let_def)
  then have reach: "relay_reach (True, start_relay [] ''abc'' []) (True, ?r)"
    using relay_next [OF relay_start from_target [of "start_relay [] ''abc'' []" 2 False True]] by simp
  have reads: "list_all (\<lambda>(d, e). length d \<le> 32 * 1024) ([] :: (bytes \<times> read_end) list)" by simp
  note t = tunnel_returns_target [OF reach reads]
  then obtain s where s: "cli_tunnel_reach (start_cli_tunnel [] (map (Frame BinaryFrame) (rl_sent ?r) @ [ReadError]) []) s"
    "tunnel_result s = Some None" by blast
  with t have "kn_taken (ct_stdout s) = concat (rl_sent ?r)" by blast
  with s reach show ?thesis by (intro exI [of _ ?r] exI [of _ s]) simp
qed

end
