(* ===== verification/Idle_Timeout.thy ===== *)
theory Idle_Timeout
  imports Cli_Relay
begin

text \<open>
  The deadlines of the loops that read a WebSocket and the pings that keep an idle connection open: \<^verbatim>\<open>keepAlive\<close>,
  the pong handler and \<^verbatim>\<open>copyWebSocketToTarget\<close> of \<^verbatim>\<open>internal/ws/tunnel.go\<close>, and \<^verbatim>\<open>keepAlive\<close> and \<^verbatim>\<open>readLoop\<close> of
  \<^verbatim>\<open>internal/cli/session.go\<close>. Times are nanoseconds; what arrives, a message or a pong, is represented by the time at
  which it is read.
\<close>

section \<open>Deadlines\<close>

text \<open>
  A loop that sets its deadline before each read, and again when a pong is read: the deadline in force after
  everything was read, or nothing if one passed before.
\<close>

fun read_until :: "duration \<Rightarrow> int \<Rightarrow> int list \<Rightarrow> int option" where
  "read_until timeout now [] = Some (now + timeout)"
| "read_until timeout now (t # ts) = (if now + timeout < t then None else read_until timeout (max now t) ts)"

text \<open>
  The times of the pings, one interval apart: for each tick whether the ping could be written. The loop ends at the
  first that could not, or when the context is done, which is where the list ends.
\<close>

fun ping_times :: "duration \<Rightarrow> int \<Rightarrow> bool list \<Rightarrow> int list" where
  "ping_times interval now [] = []"
| "ping_times interval now (ok # oks) = (if ok then (now + interval) # ping_times interval (now + interval) oks else [])"

definition tunnel_keep_alive :: "duration \<Rightarrow> int \<Rightarrow> bool list \<Rightarrow> int list" where
  "tunnel_keep_alive idle_timeout now oks = ping_times (tunnel_ping_interval idle_timeout) now oks"

definition cli_keep_alive :: "int \<Rightarrow> bool list \<Rightarrow> int list" where
  "cli_keep_alive now oks = ping_times (20 * second) now oks"

definition cli_read_timeout :: duration where
  "cli_read_timeout = 60 * second"

section \<open>Lemmas\<close>

text \<open>Each answer comes within the timeout of the one before.\<close>

fun chained :: "duration \<Rightarrow> int \<Rightarrow> int list \<Rightarrow> bool" where
  "chained timeout p [] \<longleftrightarrow> True"
| "chained timeout p (q # qs) \<longleftrightarrow> p < q \<and> q \<le> p + timeout \<and> chained timeout q qs"

lemma chained_less: "chained timeout p qs \<Longrightarrow> q \<in> set qs \<Longrightarrow> p < q"
  by (induction qs arbitrary: p) (auto intro: less_trans)

lemma read_until_chained:
  assumes "chained timeout p answers" "p \<le> now" "set answers \<subseteq> set ts" "sorted (now # ts)" "\<forall>t \<in> set ts. t \<le> last (p # answers)" "0 \<le> timeout"
  shows "read_until timeout now ts = Some (last (now # ts) + timeout)"
  using assms
proof (induction ts arbitrary: p answers now)
  case Nil
  then show ?case by simp
next
  case (Cons t ts)
  show ?case
  proof (cases answers)
    case Nil
    with Cons.prems have "t = now" by simp
    with Cons.IH [of p "[]" now] Cons.prems Nil show ?thesis by (cases ts) auto
  next
    case (Cons a answers')
    note a = this
    have ta: "t \<le> a" using Cons.prems(3,4) by (auto simp: a)
    have t: "t \<le> now + timeout" "max now t = t" using ta Cons.prems by (auto simp: a)
    have "read_until timeout t ts = Some (last (t # ts) + timeout)"
    proof (cases "t = a")
      case True
      have "a' \<noteq> t" if "a' \<in> set answers'" for a' using chained_less [of timeout a answers' a'] that Cons.prems(1) True by (simp add: a)
      then have "set answers' \<subseteq> set ts" using Cons.prems(3) by (auto simp: a)
      then show ?thesis
        by (intro Cons.IH [of a answers']) (use Cons.prems True in \<open>auto simp: a\<close>)
    next
      case False
      have "a' \<noteq> t" if "a' \<in> set answers" for a'
      proof (cases "a' = a")
        case True
        with False show ?thesis by simp
      next
        case other: False
        with that have "a' \<in> set answers'" by (simp add: a)
        from chained_less [OF _ this, of timeout a] Cons.prems(1) ta show ?thesis by (simp add: a)
      qed
      then have "set answers \<subseteq> set ts" using Cons.prems(3) by auto
      then show ?thesis
        by (intro Cons.IH [of p answers]) (use Cons.prems t in \<open>auto simp: a\<close>)
    qed
    with t show ?thesis by simp
  qed
qed

text \<open>The answers to pings, each after a delay, when the pings come early enough.\<close>

lemma answers_chained:
  assumes "0 < interval" "list_all (\<lambda>d. 0 \<le> d \<and> interval + d \<le> timeout) delays" "now \<le> p"
    and "sorted_wrt (<) (p # map2 (+) (ping_times interval now oks) delays)"
  shows "chained timeout p (map2 (+) (ping_times interval now oks) delays)"
  using assms(2-4)
proof (induction interval now oks arbitrary: p delays rule: ping_times.induct)
  case (1 interval now)
  then show ?case by simp
next
  case (2 interval now ok oks)
  show ?case
  proof (cases "ok \<and> delays \<noteq> []")
    case False
    then show ?thesis by (cases delays) auto
  next
    case True
    then obtain d ds where d: "delays = d # ds" by (cases delays) auto
    have "chained timeout (now + interval + d) (map2 (+) (ping_times interval (now + interval) oks) ds)"
      by (rule "2.IH") (use 2(2-4) True in \<open>auto simp: d\<close>)
    with 2(2-4) True show ?thesis by (auto simp: d)
  qed
qed

text \<open>
  A loop whose peer answers pings that are one interval apart goes on reading, whatever else arrives between, as
  long as interval and delay together do not exceed the timeout.
\<close>

lemma answered_pings_keep_open:
  assumes "0 < interval" "list_all (\<lambda>d. 0 \<le> d \<and> interval + d \<le> timeout) delays" "0 \<le> timeout"
    and "sorted_wrt (<) (start # answers)" "answers = map2 (+) (ping_times interval start oks) delays"
    and "set answers \<subseteq> set ts" "sorted (start # ts)" "\<forall>t \<in> set ts. t \<le> last (start # answers)"
  shows "read_until timeout start ts = Some (last (start # ts) + timeout)"
  by (rule read_until_chained [OF _ order_refl assms(6,7,8,3)])
    (use answers_chained [OF assms(1,2) order_refl assms(4) [unfolded assms(5)]] assms(5) in simp)

text \<open>
  The session of the client: its pings reach a server whose idle timeout leaves room for them, and the server's
  answers reach the client within its 60 seconds.
\<close>

lemma cli_pings_reach_server:
  assumes "20 * second + delay \<le> idle" "list_all (\<lambda>d. 0 \<le> d \<and> d \<le> delay) delays"
    and "sorted_wrt (<) (start # arrivals)" "arrivals = map2 (+) (cli_keep_alive start oks) delays"
    and "set arrivals \<subseteq> set ts" "sorted (start # ts)" "\<forall>t \<in> set ts. t \<le> last (start # arrivals)" "0 \<le> delay"
  shows "read_until idle start ts = Some (last (start # ts) + idle)"
  by (rule answered_pings_keep_open [OF _ _ _ assms(3) assms(4) [unfolded cli_keep_alive_def] assms(5-7)])
    (use assms(1,2,8) in \<open>auto simp: list_all_iff\<close>)

lemma cli_answers_in_time:
  assumes "list_all (\<lambda>d. 0 \<le> d \<and> d \<le> 40 * second) delays" "sorted_wrt (<) (start # arrivals)"
    and "arrivals = map2 (+) (cli_keep_alive start oks) delays"
    and "set arrivals \<subseteq> set ts" "sorted (start # ts)" "\<forall>t \<in> set ts. t \<le> last (start # arrivals)"
  shows "read_until cli_read_timeout start ts = Some (last (start # ts) + cli_read_timeout)"
  by (rule answered_pings_keep_open [OF _ _ _ assms(2) assms(3) [unfolded cli_keep_alive_def] assms(4-6)])
    (use assms(1) in \<open>auto simp: list_all_iff cli_read_timeout_def\<close>)

text \<open>An idle timeout of a second or less is over before the first ping can be answered.\<close>

lemma short_timeout_cuts:
  assumes "0 < idle" "idle \<le> second" "0 < d"
  shows "read_until idle start (map2 (+) (tunnel_keep_alive idle start (True # oks)) (d # ds)) = None"
  using assms by (simp add: tunnel_keep_alive_def ping_interval_is_clamped_half)

section \<open>Properties\<close>

text \<open>
  C18: the server does not cut a tunnel whose client answers its pings within half of the idle timeout, of two seconds
  or more, however little else is sent: the deadline in force is always the timeout after what was read last.
\<close>

theorem idle_tunnel_survives:
  assumes "2 * second \<le> idle" "list_all (\<lambda>d. 0 \<le> d \<and> d \<le> idle div 2) delays"
    and "answers = map2 (+) (tunnel_keep_alive idle start oks) delays" "sorted_wrt (<) (start # answers)"
    and "set answers \<subseteq> set ts" "sorted (start # ts)" "\<forall>t \<in> set ts. t \<le> last (start # answers)"
  shows "read_until idle start ts = Some (last (start # ts) + idle)"
proof (rule answered_pings_keep_open [OF _ _ _ assms(4) assms(3) [unfolded tunnel_keep_alive_def] assms(5-7)])
  have i: "0 < tunnel_ping_interval idle" "tunnel_ping_interval idle \<le> idle div 2"
    using assms(1) by (simp_all add: ping_interval_is_clamped_half)
  then show "0 < tunnel_ping_interval idle" by simp
  show "list_all (\<lambda>d. 0 \<le> d \<and> tunnel_ping_interval idle + d \<le> idle) delays"
    using assms(2) i(2) by (force simp: list_all_iff)
  show "0 \<le> idle" using assms(1) by simp
qed

section \<open>Witnesses\<close>

theorem idle_tunnel_survives_witness:
  "read_until (2 * second) 0 [second + 5, 2 * second, 3 * second] = Some (5 * second)"
proof -
  have a: "[2 * second, 3 * second] = map2 (+) (tunnel_keep_alive (2 * second) 0 [True, True, False]) [second, second]"
    by (simp add: tunnel_keep_alive_def ping_interval_is_clamped_half)
  have d: "list_all (\<lambda>d. 0 \<le> d \<and> d \<le> 2 * second div 2) [second, second]" by simp
  show ?thesis using idle_tunnel_survives [OF order_refl d a, of "[second + 5, 2 * second, 3 * second]"] by simp
qed

end
