(* ===== verification/Spec2Isabelle.thy ===== *)
theory Spec2Isabelle
  imports Network_Policy Auth Config Vault_Listing Vault_Open Ws_Handler Ws_Tunnel Ws_Stream Themes Http_Server Host_Key Startup
    Server_Main Cli_Session Cli_Relay Cli_Cookies Cli_Client Cli_Api Cli_Main Cli_Flags Tunnel_Relay Idle_Timeout
begin

text \<open>
  A model of \<^verbatim>\<open>go-webssh\<close>: a web server that carries SSH sessions and TCP tunnels over WebSockets, and its command
  line client. The theories follow the packages of the repository; a definition has the name of the Go function
  it translates (in snake case), a record that of the struct. Each theory's first block says which file it is.

  \<^bold>\<open>The program.\<close> A browser or the client (\<^verbatim>\<open>internal/cli\<close>) logs in over HTTP (\<^verbatim>\<open>internal/httpserver\<close>,
  \<^verbatim>\<open>internal/auth\<close>) and gets a cookie. With it, it reads and writes saved credentials (\<^verbatim>\<open>internal/vault\<close>), or opens a
  WebSocket (\<^verbatim>\<open>internal/ws\<close>) for a shell, for which the server checks the destination (\<^verbatim>\<open>internal/security\<close>), dials SSH
  (\<^verbatim>\<open>internal/sshclient\<close>) and copies in both directions, or for a raw TCP tunnel. \<^verbatim>\<open>internal/config\<close> and \<^verbatim>\<open>cmd/webssh\<close> put
  the server together; \<^verbatim>\<open>cmd/webssh-cli\<close> puts the client together.

  \<^bold>\<open>How the code is represented.\<close>
  \<^item> Go strings and byte slices are lists of characters (bytes); an \<^verbatim>\<open>int\<close> is an \<^typ>\<open>int\<close> where its range cannot matter; where
    it does, the wrap-around is written out (\<open>wrap64\<close>) or words are used: the counters of the metrics and of tunnels, the bits of
    addresses and of terminal modes. A map is a function to \<^verbatim>\<open>option\<close>, or an association list where its order is visible.
  \<^item> A returned error is the left side of a sum, with one constructor for each \<^verbatim>\<open>return\<close> of an error; state that a
    method changes is passed in and returned. What a function does to the outside (writes, closes, dials) is a list of
    events or actions in the order of the code.
  \<^item> Goroutines are inductive step relations with one rule for each atomic piece (\<open>slot_step\<close>, \<open>relay_step\<close>,
    \<open>stream_step\<close>, \<open>client_step\<close>, \<open>cli_tunnel_step\<close>), and so is the life of the server process (\<open>life_step\<close>); their theorems hold for every reachable state.
  \<^item> Code outside the repository is a parameter: the SSH and WebSocket libraries, bbolt, the cryptographic
    primitives, YAML, the JSON of themes and of the answers of DNS over HTTPS, the resolver, \<^verbatim>\<open>url.Parse\<close>, the clock, random bytes and the file system. What
    a theorem needs of them is a named hypothesis (\<open>crypto_laws\<close>, \<open>bolt_laws\<close>, \<open>env_ok\<close>, \<open>reports_host_key\<close>, \<open>reads_milliseconds\<close>)
    and its witness instantiates them. Of the standard library, the functions the code relies on for its decisions are
    defined: \<^verbatim>\<open>strings\<close>, \<^verbatim>\<open>strconv\<close>, hex and base64, \<^verbatim>\<open>encoding/json\<close> for the WebSocket messages, the web interface, the records of the vault and the sealed cookie, RFC 3339 times, \<^verbatim>\<open>netip\<close>,
    the cookie jar, the redirects of \<^verbatim>\<open>http.Client\<close>, \<^verbatim>\<open>bufio.Scanner\<close>, \<^verbatim>\<open>flag\<close>.
  \<^item> The requests of the client follow redirects as \<^verbatim>\<open>http.Client\<close> does, unless its connection is private: \<open>ri_redirects\<close> gives the redirects answered,
    \<open>follow_redirects\<close> what is made of them. A 307 or 308 repeats the body of the first request, so that of a login carries the password on.

  \<^bold>\<open>The theories.\<close>
  \<^item> \<^verbatim>\<open>Go_Prelude\<close>, \<^verbatim>\<open>Go_Encoding\<close>, \<^verbatim>\<open>Go_Json\<close>, \<^verbatim>\<open>Go_Json_Object\<close>, \<^verbatim>\<open>Go_Json_Array\<close>, \<^verbatim>\<open>Go_Time\<close>, \<^verbatim>\<open>Go_Netip\<close>, \<^verbatim>\<open>Go_Crypto\<close>: shared types, text functions, encodings with
    their round trips, the calendar, addresses and prefixes, the laws of the primitives.
  \<^item> \<^verbatim>\<open>Network_Policy\<close> (\<^verbatim>\<open>network_policy.go\<close>): which addresses may be reached. The locale \<^verbatim>\<open>address_gate\<close> is what the handlers
    rely on: an answer was checked.
  \<^item> \<^verbatim>\<open>Auth\<close> (\<^verbatim>\<open>auth.go\<close>): sessions, signed and sealed cookies, login and logout. The locale \<^verbatim>\<open>session_table\<close> is
    the contract of the store.
  \<^item> \<^verbatim>\<open>Config\<close> (\<^verbatim>\<open>config.go\<close>): defaults, the merge of the sources, and validation with the invariant it establishes.
  \<^item> \<^verbatim>\<open>Keyed_Store\<close>, \<^verbatim>\<open>Vault_Record\<close>, \<^verbatim>\<open>Vault\<close>, \<^verbatim>\<open>Vault_Listing\<close>, \<^verbatim>\<open>Vault_Open\<close> (\<^verbatim>\<open>vault.go\<close>): the contract of a store under keys as a locale,
    interpreted by the database and by the vault; the records and their JSON, encryption, storing, listing, migration and opening. The vault refines a map.
  \<^item> \<^verbatim>\<open>Ws_Protocol\<close> (\<^verbatim>\<open>protocol.go\<close>): the messages of both WebSocket protocols and their JSON, which client and server share.
  \<^item> \<^verbatim>\<open>Slot_Counter\<close>, \<^verbatim>\<open>Ssh_Client\<close>, \<^verbatim>\<open>Ws_Handler\<close>, \<^verbatim>\<open>Ws_Stream\<close>, \<^verbatim>\<open>Ws_Tunnel\<close>, \<^verbatim>\<open>Byte_Writer\<close>, \<^verbatim>\<open>Host_Key\<close>
    (\<^verbatim>\<open>client.go\<close>, \<^verbatim>\<open>metrics.go\<close>, \<^verbatim>\<open>handler.go\<close>, \<^verbatim>\<open>tunnel.go\<close>, \<^verbatim>\<open>hostkey.go\<close>): the life of a session from
    the upgrade to the last byte, tunnels, metrics and host keys. Session and tunnel slots are the two interpretations of
    the locale \<^verbatim>\<open>slot_counter\<close>, a compare-and-swap counter under any interleaving; \<^verbatim>\<open>writer\<close> is the contract of
    \<^verbatim>\<open>io.Writer\<close> that the copying loops rely on, and \<^verbatim>\<open>item_stream\<close> (\<^verbatim>\<open>Item_Stream\<close>) that of a sender that shares a connection
    with others, interpreted by both streams of the shell and by the input of the client.
  \<^item> \<^verbatim>\<open>Idle_Timeout\<close>: the read deadlines of tunnels and sessions and the pings that move them on.
  \<^item> \<^verbatim>\<open>Themes\<close>, \<^verbatim>\<open>Http_Server\<close>, \<^verbatim>\<open>Startup\<close>, \<^verbatim>\<open>Server_Main\<close> (\<^verbatim>\<open>catalog.go\<close>, \<^verbatim>\<open>server.go\<close>, \<^verbatim>\<open>cmd/webssh/main.go\<close>, \<^verbatim>\<open>logging.go\<close>): the themes, every
    route with its handler over the models above, the order of the start-up, and the process from its arguments to its exit.
  \<^item> \<^verbatim>\<open>Cli_Options\<close>, \<^verbatim>\<open>Cli_Doh\<close>, \<^verbatim>\<open>Cli_Client\<close>, \<^verbatim>\<open>Cli_Api\<close>, \<^verbatim>\<open>Cli_Cookies\<close>, \<^verbatim>\<open>Cli_Tunnel\<close>, \<^verbatim>\<open>Cli_Session\<close>, \<^verbatim>\<open>Cli_Terminal\<close>, \<^verbatim>\<open>Cli_Relay\<close>,
    \<^verbatim>\<open>Tunnel_Relay\<close>, \<^verbatim>\<open>Cli_Run\<close>, \<^verbatim>\<open>Cli_Main\<close>, \<^verbatim>\<open>Cli_Flags\<close> (\<^verbatim>\<open>internal/cli\<close>, \<^verbatim>\<open>cmd/webssh-cli\<close>): the command line, DNS over HTTPS, URLs and private connections,
    what the client reads of a reply of the interface, cookies, the loops of each mode, the terminal and its prompts, the goroutines of a session and of a tunnel, whole runs as the
    list of what is sent, the flags, and the exit status. \<^verbatim>\<open>Go_Flags\<close> is the \<^verbatim>\<open>flag\<close> package, with a grammar its loop is shown to read.
  \<^item> This theory: what spans the client and the server.

  \<^bold>\<open>What the lemmas show.\<close> Nothing but a login is done for a request without a valid session, and what authenticates a request was given by
  a login of the same process, or sealed; only destinations that passed the policy are dialled (an SSH host by its name, once more resolved); slots are
  bounded and given back; what is stored is read back, listings show a caller its own records, and errors change nothing; streams are neither reordered nor altered; the password and the key go nowhere before a login and, in private mode, to one address only; a failed connection leaves nothing open;
  configuration that is accepted satisfies the invariant the rest of the program relies on.

  \<^bold>\<open>Bounds.\<close> There is no fuel: loops are structural recursions over what is read (a list of frames, reads or
  requests; its end is the end of the connection), and \<open>write_all\<close> carries a measure. The limits of the code (message
  and body sizes, lengths of fields) and of \<^verbatim>\<open>http.Client\<close> (ten requests) are written out as in the source.

  \<^bold>\<open>What the model shows of the code.\<close> Addresses with a zone pass the deny list; the host is resolved again after the check
  when an SSH connection is dialled; brackets of an IPv6 host are doubled; a connected tunnel target is left open when
  the answer cannot be written; the origin the client sends for port 80 is refused by the server; outside private mode the client repeats the login with
  the password where a redirect tells it to; input of control characters
  may exceed the message limit and a character split between two reads is lost; the last output of a shell
  may not be sent; counters of the metrics wrap; identifiers are escaped twice by the client; a write that fails while a tunnel ends makes a
  complete transfer an error; an idle timeout of a second cuts every idle tunnel; the password prompt does not end with the input, erases bytes instead of characters, and loses what is piped in after the first line.

  \<^bold>\<open>Not modelled.\<close> Deadlines other than those of \<^verbatim>\<open>Idle_Timeout\<close> (connecting, writing, the requests of the client; they
  are outcomes of the calls), logging, the timeouts of the HTTP server and the redirects of its multiplexer, conditional requests of
  \<^verbatim>\<open>http.ServeContent\<close>, usage texts, the remote command behind the metrics, platforms without a terminal, \<^verbatim>\<open>time.ParseDuration\<close>
  and floating point numbers (parameters), and the browser's JavaScript.
\<close>

section \<open>The client and the web server\<close>

lemma path_escape_plain:
  "list_all path_plain i \<Longrightarrow> path_escape i = i"
  by (induction i) auto

lemma path_escape_length: "length i \<le> length (path_escape i) \<and> (length (path_escape i) = length i \<longrightarrow> list_all path_plain i)"
  by (induction i) auto

lemma path_escape_id_iff: "path_escape i = i \<longleftrightarrow> list_all path_plain i"
  using path_escape_plain path_escape_length by metis

lemma upper_hex_no_slash: "n < 16 \<Longrightarrow> upper_hex n \<noteq> CHR ''/''"
proof -
  assume "n < 16"
  then have "byte (upper_hex n) \<noteq> byte CHR ''/''" by (auto simp: upper_hex_def)
  then show ?thesis by metis
qed

lemma path_plain_no_slash: "\<not> path_plain CHR ''/''"
  by code_simp

lemma path_escape_no_slash: "CHR ''/'' \<notin> set (path_escape i)"
proof (induction i)
  case (Cons c cs)
  have "byte c div 16 < 16" using byte_div_lt [of 16 16 c] by simp
  then have "upper_hex (byte c div 16) \<noteq> CHR ''/''" "upper_hex (byte c mod 16) \<noteq> CHR ''/''"
    by (simp_all add: upper_hex_no_slash)
  then show ?case using Cons path_plain_no_slash by (auto split: if_split_asm)
qed simp

lemma path_escape_Nil_iff [simp]: "path_escape i = [] \<longleftrightarrow> i = []"
  by (cases i) auto

lemma random_id_plain: "list_all path_plain (random_id rnd)"
proof -
  have "path_plain c" if "b64_alphabet c" for c
    using that byte_char [of c] by (auto simp: b64_alphabet_def b64_val_def path_plain_def is_digit_def Let_def split: if_split_asm)
  then show ?thesis using b64_encode_alphabet by (metis (no_types, lifting) list_all_iff random_id_def)
qed

text \<open>
  The requests of the command line client for a server at the root of its host reach the handlers meant for
  them, and the identifiers that the vault draws arrive as they are; any other identifier arrives as
  it is exactly when it needs no escaping, since it is escaped once by hand and once more with the URL.
\<close>

theorem client_requests_routed:
  assumes "trim_suffix (ur_path base) ''/'' = []"
  shows "route ''POST'' (ur_path (api_url base ''/api/login'')) = Login \<and>
    route ''GET'' (ur_path (api_url base ''/api/credentials'')) = CredentialList \<and>
    route ''GET'' (ur_path (ws_url base)) = SshSocket \<and> route ''GET'' (ur_path (tunnel_ws_url base)) = TunnelSocket \<and>
    (i \<noteq> [] \<longrightarrow> (route ''GET'' (ur_path (api_url base (''/api/credentials/'' @ path_escape i))) = CredentialGet i \<longleftrightarrow>
       list_all path_plain i)) \<and>
    route ''GET'' (ur_path (api_url base (''/api/credentials/'' @ path_escape (random_id rnd)))) = CredentialGet (random_id rnd)"
proof -
  have p: "ur_path (api_url base path) = path" for path using assms by (simp add: api_url_def)
  have w: "ur_path (ws_url base) = ''/api/ws/ssh''" "ur_path (tunnel_ws_url base) = ''/api/ws/tunnel''"
    using assms by (simp_all add: ws_url_def tunnel_ws_url_def websocket_url_def)
  have r: "route ''GET'' (''/api/credentials/'' @ path_escape j) = CredentialGet (path_escape j)" if "j \<noteq> []" for j
    using that path_escape_no_slash [of j] by (simp add: route_def credential_id_def has_prefix_def trim_prefix_def)
  have n: "random_id rnd \<noteq> []" by (simp add: random_id_def rand_read_def split: option.split)
  have "route ''GET'' (ur_path (api_url base (''/api/credentials/'' @ path_escape j))) = CredentialGet j \<longleftrightarrow> list_all path_plain j"
    if "j \<noteq> []" for j
    unfolding p r [OF that] by (simp add: path_escape_id_iff)
  with n random_id_plain have "route ''GET'' (ur_path (api_url base (''/api/credentials/'' @ path_escape (random_id rnd)))) = CredentialGet (random_id rnd)"
    by blast
  moreover have "route ''POST'' ''/api/login'' = Login" "route ''GET'' ''/api/credentials'' = CredentialList"
    "route ''GET'' ''/api/ws/ssh'' = SshSocket" "route ''GET'' ''/api/ws/tunnel'' = TunnelSocket"
    by code_simp+
  ultimately show ?thesis unfolding p w
    using \<open>\<And>j. j \<noteq> [] \<Longrightarrow> route ''GET'' (ur_path (api_url base (''/api/credentials/'' @ path_escape j))) = CredentialGet j \<longleftrightarrow> list_all path_plain j\<close> [unfolded p]
    by blast
qed

section \<open>The session of a client\<close>

lemma login_cookie_fields:
  "login c a s u p rem rnd now now2 = (Inr ck, s') \<Longrightarrow>
    ck_path ck = ''/'' \<and> ck_name ck = cookie_name \<and> ck_secure ck = au_secure_cookie a"
  by (auto simp: login_def session_cookie_def Let_def split: if_split_asm sum.split_asm option.split_asm prod.split_asm)

lemma decode_login_body: "decode_login (login_body user password) = Some (replace_invalid user, replace_invalid password, False)"
  using unmarshal_object [of "[(''password'', json_quote password), (''username'', json_quote user)]" "[]" login_fields "([], [], False)"]
  by (simp add: decode_login_def login_body_def login_fields_def field_simps_json)

text \<open>
  C23: the cookie of its login authenticates every later request of the client until it expires, the dialling of a WebSocket
  among them, whatever requests of its own or of others the server handles in between and however often it cleans its sessions, as
  long as nobody logs out with that cookie and the random token is not drawn again; unless the server asks for secure
  cookies and the client was given an http URL: then the login succeeds and nothing after it does.
\<close>

theorem client_session_authenticates:
  assumes "crypto_laws (we_crypto (se_ws env))"
    and "serve env i1 s0 r1 = (resp1, s1)" "route (ar_method r1) (ar_path r1) = Login" "rs_cookies resp1 = [ck]"
    and "in_rnd i1 = Some b" "length b = 32" "ar_body r1 = login_body user password" "length (login_body user password) \<le> 4096"
    and "ur_scheme base \<in> {''http'', ''https''}" "ur_path base = [] \<or> has_prefix (ur_path base) ''/''"
    and "jar = set_cookies now (api_url base ''/api/login'') (rs_cookies resp1) []"
    and "0 < ck_max_age ck" "now \<le> now'" "now' < now + ck_max_age ck * second"
    and "hr_cookie r2 = read_cookie cookie_name (attach_cookies now' base jar)" "in_now i2 \<le> ck_expires ck"
    and "list_all (spares env (hd_auth (sr_handler s0)) (b64_encode b) (ck_expires ck)) between"
  shows "who_asks env i2 (after_all env s1 between) r2 \<noteq> None \<longleftrightarrow> ur_scheme base = ''https'' \<or> \<not> au_secure_cookie (hd_auth (sr_handler s0))"
proof -
  obtain d1 where d1: "dispatch env i1 s0 r1 = (d1, s1)" "rs_cookies resp1 = rs_cookies d1" by (rule serve_dispatch [OF assms(2)])
  from d1 assms(3,4) have "handle_login env i1 s0 r1 = (d1, s1)" "rs_cookies d1 = [ck]" by (simp_all add: dispatch_def)
  then obtain u p m where lg: "decode_login (take 4096 (ar_body r1)) = Some (u, p, m)"
    "login (we_crypto (se_ws env)) (hd_auth (sr_handler s0)) (hd_store (sr_handler s0)) u p
       [m] (in_rnd i1) (in_now i1) (in_now2 i1) = (Inr ck, hd_store (sr_handler s1))"
    "s1 = s0\<lparr>sr_handler := sr_handler s0\<lparr>hd_store := hd_store (sr_handler s1)\<rparr>\<rparr>"
    by (rule handle_login_ok)
  have auth: "hd_auth (sr_handler s1) = hd_auth (sr_handler s0)" by (subst lg(3)) simp
  have m: "\<not> m" using lg(1) decode_login_body [of user password] assms(7,8) by simp
  note fields = login_cookie_fields [OF lg(2)]
  have val: "list_all cookie_char (ck_value ck)"
    using login_session_mode(1) [OF lg(2) [unfolded assms(5)]] m signed_token_cookie_char by simp
  have url: "ur_scheme (api_url base ''/api/login'') = ur_scheme base" "ur_host (api_url base ''/api/login'') = ur_host base"
    by (simp_all add: api_url_def)
  have cookie: "hr_cookie r2 = (if ur_scheme base = ''https'' \<or> \<not> ck_secure ck then Some (ck_value ck) else None)"
    unfolding assms(15)
    by (rule login_cookie_attached [OF assms(9) assms(11) [unfolded assms(4)]])
      (use url assms(9,10,12,13,14) fields val in auto)
  let ?s2 = "after_all env s1 between"
  note in_store = login_session_mode [OF lg(2) [unfolded assms(5)]]
  have x: "as_sessions (hd_store (sr_handler s1)) (b64_encode b) = Some \<lparr>si_username = u, si_expires = ck_expires ck\<rparr>"
    using in_store(2) m by (simp add: store_insert_def)
  have later: "as_sessions (hd_store (sr_handler ?s2)) (b64_encode b) = Some \<lparr>si_username = u, si_expires = ck_expires ck\<rparr>"
    "hd_auth (sr_handler ?s2) = hd_auth (sr_handler s0)"
    using spared_session [OF _ x, of env "ck_expires ck" between] assms(17) auth by simp_all
  have who: "\<exists>info. fst (session_from_request (we_crypto (se_ws env)) (hd_auth (sr_handler ?s2))
      (hd_store (sr_handler ?s2)) (Some (ck_value ck)) (in_now i2)) = Some info"
    using signed_cookie_found [OF assms(1,6) later(1), of "in_now i2" "hd_auth (sr_handler ?s2)"] in_store(1) m later(2) assms(16) by simp
  have "fst (session_from_request (we_crypto (se_ws env)) (hd_auth (sr_handler ?s2))
      (hd_store (sr_handler ?s2)) None (in_now i2)) = None" by (simp add: session_from_request_def)
  with who cookie fields show ?thesis by auto
qed

section \<open>Saved credentials\<close>

text \<open>
  What the client connects with for \<^verbatim>\<open>--saved\<close> is the credential of the vault: it chooses an identifier of the list the
  server makes of the caller's summaries, and gets the record that the vault has under it, every field as it is stored. An identifier
  the vault drew is plain; others may need escaping, and fail (see \<open>client_requests_routed\<close>).
\<close>

theorem saved_credential_fetched:
  assumes "trim_suffix (ur_path base) ''/'' = []"
    and "serve env i1 s1 r1 = (resp1, s1')" "ar_method r1 = ''GET''" "ar_path r1 = ur_path (api_url base ''/api/credentials'')"
    and "who_asks env i1 s1 r1 = Some info" "sr_vault s1 = Some v1"
    and "list_summaries (se_vault env) v1 (si_username info) = (Inr (sms, unmigrated), v1')" "list_all sum_storable sms"
    and "match_saved (map (listed_of \<circ> summary_view) sms) name = Inr i" "list_all path_plain i" "i \<noteq> []"
    and "serve env i2 s2 r2 = (resp2, s2')" "ar_method r2 = ''GET''" "ar_path r2 = ur_path (api_url base (''/api/credentials/'' @ path_escape i))"
    and "who_asks env i2 s2 r2 = Some info2" "sr_vault s2 = Some v2"
    and "vault_get (se_vault env) v2 i = Inr c" "cred_storable c"
    and "answered resp1 (ae_get api ''/api/credentials'')" "answered resp2 (ae_get api (''/api/credentials/'' @ path_escape i))"
  shows "fetch_saved api name =
    (if trim_space (cd_private_key c) = [] then Inl (CliError ''saved credential has no private key'') else Inr (saved_of c))"
proof -
  have routes: "route (ar_method r1) (ar_path r1) = CredentialList" "route (ar_method r2) (ar_path r2) = CredentialGet i"
    using client_requests_routed [OF assms(1), of i] assms(3,4,10,11,13,14) by simp_all
  let ?items = "map summary_view sms"
  have one: "rs_status resp1 = 200" "rs_body resp1 = ListBody ?items 0 unmigrated"
    using list_reply [OF assms(2) routes(1) assms(5,6,7)] by simp_all
  have two: "rs_status resp2 = 200" "rs_body resp2 = CredentialBody c"
    using get_reply [OF assms(12) routes(2) assms(15,16,17)] by simp_all
  have ok: "list_all public_storable ?items" using assms(8) summary_view_storable by (auto simp: list_all_iff)
  obtain t1 where t1: "json_body (ListBody ?items 0 unmigrated) = Some t1" using list_text [OF ok] by blast
  obtain t2 where t2: "credential_marshal c = Some t2" using assms(18) credential_text by blast
  obtain x1 x2 where a: "ae_get api ''/api/credentials'' = ApiReply 200 (t1 @ [CHR 0x0A]) x1"
    "ae_get api (''/api/credentials/'' @ path_escape i) = ApiReply 200 (t2 @ [CHR 0x0A]) x2"
    using assms(19,20) one two t1 t2 by (auto simp: answered_def body_text_def simp del: path_escape.simps)
  have "list_credentials api = Inr (map (listed_of \<circ> summary_view) sms)"
    using a(1) list_text_read [OF ok t1] by (simp add: list_credentials_def)
  then have "fetch_saved api name = bind_result (of_option (CliError ''saved credential: invalid response'') (decode_saved (t2 @ [CHR 0x0A]))) (\<lambda>item.
      if trim_space (sc_private_key item) = [] then Inl (CliError ''saved credential has no private key'') else Inr item)"
    unfolding fetch_saved_def by (simp only: bind_result_simps assms(9) a(2) api_reply.case if_False refl simp_thms)
  also have "\<dots> = (if trim_space (cd_private_key c) = [] then Inl (CliError ''saved credential has no private key'') else Inr (saved_of c))"
    unfolding saved_text_read [OF assms(18) t2] of_option_simps bind_result_simps by (simp add: saved_of_def)
  finally show ?thesis .
qed

section \<open>The request for a shell\<close>

lemma first_reply_read:
  "wait_connected (Frame TextFrame (session_text (ConnectedMsg i host port user name)) # fs) = Inr fs"
  "wait_connected (Frame TextFrame (session_text (ErrorMsg code msg)) # fs) =
     Inl (coded_message (replace_invalid code, replace_invalid msg) ''connect failed'')"
  using decode_session_text(1) [of "ConnectedMsg i host port user name"] decode_session_text(1) [of "ErrorMsg code msg"]
  by (simp_all add: decode_error_text)

lemma client_request_decoded:
  assumes "connect_parameters renv opt saved = Inr ct" "int64 (ct_port ct)"
  shows "decode_message (encode_message ''connect'' (connect_text ct)) = Some (''connect'', connect_text ct)"
    "decode_connect (connect_text ct) = Some (sanitized ct)" "ct_port ct \<noteq> 0"
proof -
  obtain host port user trm use key pass where "ct = connect_message renv opt host port user trm use key pass"
    using connect_parameters_Inr [OF assms(1)] by metis
  then have ct: "ct_port ct \<noteq> 0" "5 \<le> ct_rows ct" "ct_rows ct \<le> 200" "20 \<le> ct_cols ct" "ct_cols ct \<le> 500"
    by (simp_all add: connect_message_fields connect_message_size)
  then show "ct_port ct \<noteq> 0" by simp
  have "int64 (ct_cols ct)" "int64 (ct_rows ct)" using ct by (simp_all add: int64_def)
  with assms(2) show "decode_connect (connect_text ct) = Some (sanitized ct)" by (simp add: decode_connect_text)
  have "value_text (max_nesting - 1) (connect_text ct)"
    by (auto simp: connect_text_def connect_members_def omit_empty_def max_nesting_def intro!: value_text_object)
  then show "decode_message (encode_message ''connect'' (connect_text ct)) = Some (''connect'', connect_text ct)"
    using decode_encode_message [of "''connect''" "connect_text ct" "[]"] by simp
qed

text \<open>
  The request for a shell that the client makes of its options and the saved credential is the one the server acts on:
  what it dials, and as whom and with which key, is what the client sent, after the network policy accepted it; the session
  goes on, and the client then waits for output, exactly when the attempt was made and succeeded, and otherwise the client ends
  with the error the server gives and no slot is taken.
\<close>

theorem shell_request_served:
  assumes "connect_parameters renv opt saved = Inr ct" "int64 (ct_port ct)"
    and "length (encode_message ''connect'' (connect_text ct)) \<le> 256 * 1024"
    and "await_connect env h s rnd1 rnd2 True (Frame TextFrame (encode_message ''connect'' (connect_text ct)) # fs) =
      ((go, h', s', out, acts), rest)"
  shows "rest = fs \<and>
    (let reply = wait_connected (map (\<lambda>m. Frame TextFrame (session_text m)) out @ later);
         host = trim_space (replace_invalid (ct_host ct)); user = trim_space (replace_invalid (ct_username ct)) in
      (if go then reply = Inr later \<and> h' = h\<lparr>hd_sessions := hd_sessions h + 1\<rparr> \<and>
         (\<exists>i name. out = [ConnectedMsg i host (ct_port ct) user name])
       else h' = h \<and> (\<exists>code msg. out = [ErrorMsg code msg] \<and>
         reply = Inl (coded_message (replace_invalid code, replace_invalid msg) ''connect failed''))) \<and>
      (case ssh_attempt env h (sanitized ct) rnd1 of
         None \<Rightarrow> \<not> go \<and> acts = []
       | Some (req, res, did) \<Rightarrow> (go \<longleftrightarrow> \<not> isl res) \<and> acts = did \<and>
           validate_host_port (hd_policy h) (we_lookup env) host (ct_port ct) = Inr () \<and>
           rq_private_key req = replace_invalid (ct_private_key ct) \<and> rq_passphrase req = replace_invalid (ct_passphrase ct) \<and>
           (acts = [] \<or> (\<exists>t. hd acts = Dial (join_host_port host (itoa (ct_port ct))) user t))))"
proof -
  note read = client_request_decoded [OF assms(1,2)]
  have hc: "handle_connect env h s (connect_text ct) rnd1 rnd2 True = (go, h', s', out, acts)" "rest = fs"
    using assms(3,4) read(1) by simp_all
  have fields: "ct_host (sanitized ct) = replace_invalid (ct_host ct)" "ct_port (sanitized ct) = ct_port ct"
    "ct_username (sanitized ct) = replace_invalid (ct_username ct)" "ct_private_key (sanitized ct) = replace_invalid (ct_private_key ct)"
    "ct_passphrase (sanitized ct) = replace_invalid (ct_passphrase ct)" by (simp_all add: sanitized_def)
  show ?thesis
  proof (cases rule: handle_connect_served [OF read(2) hc(1)])
    case (1 code msg)
    then show ?thesis by (simp add: Let_def hc(2) first_reply_read del: wait_connected.simps)
  next
    case (2 req err code msg)
    from ssh_attempt_request [OF 2(4)] 2 show ?thesis
      by (auto simp: Let_def hc(2) fields read(3) first_reply_read simp del: wait_connected.simps)
  next
    case (3 req ssh i name)
    from ssh_attempt_request [OF 3(4)] 3 show ?thesis
      by (auto simp: Let_def hc(2) fields read(3) first_reply_read simp del: wait_connected.simps)
  qed
qed

section \<open>The shell and the terminal\<close>

text \<open>The messages of a session as frames.\<close>

fun frame_of :: "stream_message \<Rightarrow> frame" where
  "frame_of (FromStdout b) = Frame BinaryFrame b"
| "frame_of (FromStderr b) = Frame BinaryFrame b"
| "frame_of (SideMessage m) = Frame TextFrame m"
| "frame_of (SessionClosed c) = Frame TextFrame (session_text c)"

text \<open>What a message shows; the text messages in between are of types the client passes over.\<close>

fun shown_bytes :: "stream_message \<Rightarrow> bytes list" where
  "shown_bytes (FromStdout b) = [b]"
| "shown_bytes (FromStderr b) = [b]"
| "shown_bytes _ = []"

text \<open>The messages beside the output are metrics, the answers to pings and the errors of the read loop.\<close>

definition side_known :: "stream_message list \<Rightarrow> bool" where
  "side_known ms \<longleftrightarrow> (\<forall>m. SideMessage m \<in> set ms \<longrightarrow> (\<exists>ty raw. decode_message m = Some (ty, raw) \<and> ty \<in> {''metrics'', ''pong'', ''error''}))"

definition error_text :: "stream_message \<Rightarrow> string option" where
  "error_text m =
    (case m of
       SideMessage t \<Rightarrow> (case decode_message t of
           Some (ty, raw) \<Rightarrow> if ty = ''error'' then Some (coded_message (decode_error raw) ''session error'') else None
         | None \<Rightarrow> None)
     | _ \<Rightarrow> None)"

text \<open>The messages a client takes in, and what then stops it.\<close>

fun message_stop :: "(bytes \<Rightarrow> bool) \<Rightarrow> stream_message \<Rightarrow> session_stop option" where
  "message_stop ok (FromStdout b) = (if ok b then None else Some StdoutFailed)"
| "message_stop ok (FromStderr b) = (if ok b then None else Some StdoutFailed)"
| "message_stop ok (SideMessage m) = map_option SessionError (error_text (SideMessage m))"
| "message_stop ok (SessionClosed (ClosedMsg reason status)) = Some (RemoteExit (case status of None \<Rightarrow> 0 | Some n \<Rightarrow> n) reason)"
| "message_stop ok (SessionClosed c) = None"

fun taken_in :: "(bytes \<Rightarrow> bool) \<Rightarrow> disconnect \<Rightarrow> stream_message list \<Rightarrow> stream_message list \<times> session_stop" where
  "taken_in ok d [] = ([], ReadStopped d)"
| "taken_in ok d (m # ms) =
     (case message_stop ok m of Some stop \<Rightarrow> ([], stop) | None \<Rightarrow> (case taken_in ok d ms of (got, stop) \<Rightarrow> (m # got, stop)))"

text \<open>The status a client takes from a closing message.\<close>

fun status_of :: "session_end \<Rightarrow> int" where
  "status_of (ShellStatus n) = n"
| "status_of _ = 0"

definition ended_well :: "stream_message list \<Rightarrow> bool" where
  "ended_well ms \<longleftrightarrow> (\<forall>c. SessionClosed c \<in> set ms \<longrightarrow> (\<exists>ended. status_in_range ended \<and> c = closed_message ended))"

lemma closed_text_read:
  assumes "status_in_range ended"
  shows "handle_text ok (session_text (closed_message ended)) = ([], message_stop ok (SessionClosed (closed_message ended)))"
proof -
  obtain reason status where c: "closed_message ended = ClosedMsg reason status" "utf8_valid reason"
    "case status of None \<Rightarrow> True | Some n \<Rightarrow> int64 n"
    using assms by (cases ended) (auto simp: int64_def status_in_range_def)
  from closing_text_read [OF c(2,3)] show ?thesis by (simp add: c(1))
qed


lemma cli_read_loop_session:
  assumes "ended_well ms" "side_known ms"
  shows "cli_read_loop ok d (map frame_of ms) = (concat (map shown_bytes (fst (taken_in ok d ms))), snd (taken_in ok d ms))"
  using assms
proof (induction ms)
  case (Cons m ms)
  then have ih: "cli_read_loop ok d (map frame_of ms) = (concat (map shown_bytes (fst (taken_in ok d ms))), snd (taken_in ok d ms))"
    by (simp add: side_known_def ended_well_def)
  show ?case
  proof (cases m)
    case (SideMessage t)
    then obtain ty raw where t: "decode_message t = Some (ty, raw)" "ty \<in> {''metrics'', ''pong'', ''error''}"
      using Cons.prems(2) by (auto simp: side_known_def)
    then have "handle_text ok t = ([], message_stop ok (SideMessage t))" by (auto simp: handle_text_def error_text_def)
    then show ?thesis by (cases "error_text (SideMessage t)") (simp_all add: SideMessage ih split_beta)
  next
    case (SessionClosed c)
    then obtain ended where e: "status_in_range ended" "c = closed_message ended" using Cons.prems(1) by (auto simp: ended_well_def)
    from closed_text_read [OF e(1), of ok] show ?thesis by (cases ended) (simp_all add: SessionClosed e(2))
  qed (simp_all add: ih split_beta)
qed simp

lemma taken_in_cases:
  assumes "taken_in ok d ms = (got, stop)"
  shows "prefix got ms \<and> (stop = ReadStopped d \<and> got = ms \<or> (\<exists>m \<in> set ms. message_stop ok m = Some stop)) \<and>
    (\<forall>m \<in> set got. message_stop ok m = None)"
  using assms
proof (induction ms arbitrary: got)
  case (Cons m ms)
  show ?case
  proof (cases "message_stop ok m")
    case None
    with Cons.prems obtain got' where "got = m # got'" "taken_in ok d ms = (got', stop)" by (auto split: prod.split_asm)
    with Cons.IH None show ?thesis by auto
  qed (use Cons.prems in auto)
qed simp

lemma message_stop_not_read: "message_stop ok m \<noteq> Some (ReadStopped d)"
  by (cases "(ok, m)" rule: message_stop.cases) auto

section \<open>Witnesses\<close>

theorem client_requests_routed_witness:
  "route ''GET'' (ur_path (api_url sample_base (''/api/credentials/'' @ path_escape ''a b''))) \<noteq> CredentialGet ''a b''"
proof -
  have b: "trim_suffix (ur_path sample_base) ''/'' = []" "\<not> list_all path_plain ''a b''" by code_simp+
  have "''a b'' \<noteq> []" by simp
  with client_requests_routed [OF b(1), of "''a b''"] b(2) show ?thesis by blast
qed

definition sample_request :: connect_data where
  "sample_request = projr (connect_parameters sample_run run_options (Some sample_saved))"

definition sample_served :: "string step \<times> frame list" where
  "sample_served = await_connect sample_ws sample_handler new_session [] [] True
     [Frame TextFrame (encode_message ''connect'' (connect_text sample_request))]"

theorem shell_request_served_witness:
  "\<exists>out acts t. fst (snd (snd (snd (fst sample_served)))) = out \<and> snd (snd (snd (snd (fst sample_served)))) = acts \<and>
     wait_connected (map (\<lambda>m. Frame TextFrame (session_text m)) out @ [Frame BinaryFrame ''$ '']) = Inr [Frame BinaryFrame ''$ ''] \<and>
     hd acts = Dial ''db:22'' ''root'' t"
proof -
  have ct: "connect_parameters sample_run run_options (Some sample_saved) = Inr sample_request"
  proof -
    have "\<not> isl (connect_parameters sample_run run_options (Some sample_saved))" by code_simp
    then show ?thesis by (simp add: sample_request_def)
  qed
  have port: "int64 (ct_port sample_request)" by code_simp
  have len: "length (encode_message ''connect'' (connect_text sample_request)) \<le> 256 * 1024" by code_simp
  have go: "fst (fst sample_served)" by code_simp
  have some: "snd (snd (snd (snd (fst sample_served)))) \<noteq> []" by code_simp
  have dialled: "join_host_port (trim_space (replace_invalid (ct_host sample_request))) (itoa (ct_port sample_request)) = ''db:22''"
    "trim_space (replace_invalid (ct_username sample_request)) = ''root''" by code_simp+
  obtain g h s out acts rest where r: "sample_served = ((g, h, s, out, acts), rest)" by (metis surj_pair)
  have g: g and a: "acts \<noteq> []" using go some by (simp_all add: r)
  note served = shell_request_served [OF ct port len r [unfolded sample_served_def], of "[Frame BinaryFrame ''$ '']", unfolded Let_def dialled, THEN conjunct2]
  from served g have one: "wait_connected (map (\<lambda>m. Frame TextFrame (session_text m)) out @ [Frame BinaryFrame ''$ '']) = Inr [Frame BinaryFrame ''$ '']"
    by presburger
  from served g a obtain t where "hd acts = Dial ''db:22'' ''root'' t" by (auto simp del: wait_connected.simps split: option.split_asm prod.split_asm)
  with one show ?thesis unfolding r by simp
qed

definition stored_server :: "memory_db server" where
  "stored_server = \<lparr>sr_handler = sample_handler, sr_vault = Some (snd sample_put)\<rparr>"

definition stored_get :: "string \<Rightarrow> api_request" where
  "stored_get path = sample_api (Some sample_cookie) ''GET'' path []"

definition stored_reply :: "string \<Rightarrow> api_reply" where
  "stored_reply path = (case serve sample_server_env sample_inputs stored_server (stored_get path) of (resp, _) \<Rightarrow>
     ApiReply (rs_status resp) (body_text (rs_body resp)) ''200 OK'')"

theorem saved_credential_fetched_witness:
  "fetch_saved \<lparr>ae_get = stored_reply, ae_login = Unreachable\<rparr> ''web'' = Inr (saved_of sample_stored)"
proof -
  let ?id = "cd_id sample_stored" and ?list = "list_summaries vault_sample_env (snd sample_put) ''admin''"
  have b: "trim_suffix (ur_path sample_base) ''/'' = []" by code_simp
  have paths: "ar_method (stored_get p) = ''GET''" "ar_path (stored_get p) = p" "ur_path (api_url sample_base p) = p" for p
    by (simp_all add: stored_get_def sample_api_def api_url_def sample_base_def trim_suffix_def has_suffix_def)
  have "map_option si_username (who_asks sample_server_env sample_inputs stored_server (stored_get [])) = Some ''admin''" by code_simp
  then obtain info where info: "who_asks sample_server_env sample_inputs stored_server (stored_get []) = Some info" and admin: "si_username info = ''admin''"
    by auto
  from info have who: "who_asks sample_server_env sample_inputs stored_server (stored_get p) = Some info" for p
    by (simp add: stored_get_def sample_api_def)
  have v: "sr_vault stored_server = Some (snd sample_put)" by (simp add: stored_server_def)
  have l: "?list = (Inr ([credential_summary sample_stored ''admin''], 0), snd ?list)"
  proof -
    have "fst ?list = Inr ([credential_summary sample_stored ''admin''], 0)" by code_simp
    then show ?thesis by (simp add: prod_eq_iff)
  qed
  have ok: "list_all sum_storable [credential_summary sample_stored ''admin'']" by code_simp
  have m: "match_saved (map (listed_of \<circ> summary_view) [credential_summary sample_stored ''admin'']) ''web'' = Inr ?id" by code_simp
  have i: "list_all path_plain ?id" "?id \<noteq> []" "trim_space (cd_private_key sample_stored) \<noteq> []" by code_simp+
  have "put_for_user vault_sample_env empty_vault ''admin'' sample_cred 1000 sample_nonce sample_nonce = (Inr sample_stored, snd sample_put)"
    using sample_put_ok by (simp add: sample_put_def prod_eq_iff)
  from put_get [OF vault_sample_env_ok sample_stored_storable this]
  have g: "vault_get vault_sample_env (snd sample_put) ?id = Inr sample_stored" by blast
  have e: "se_vault sample_server_env = vault_sample_env" by (simp add: sample_server_env_def)
  have l': "list_summaries (se_vault sample_server_env) (snd sample_put) (si_username info) = (Inr ([credential_summary sample_stored ''admin''], 0), snd ?list)"
    unfolding e admin by (rule l)
  have g': "vault_get (se_vault sample_server_env) (snd sample_put) ?id = Inr sample_stored" unfolding e by (rule g)
  have r: "serve sample_server_env sample_inputs stored_server (stored_get p) = (fst (serve sample_server_env sample_inputs stored_server (stored_get p)),
      snd (serve sample_server_env sample_inputs stored_server (stored_get p)))" for p by simp
  have a: "answered (fst (serve sample_server_env sample_inputs stored_server (stored_get p))) (ae_get \<lparr>ae_get = stored_reply, ae_login = Unreachable\<rparr> p)" for p
    by (simp add: answered_def stored_reply_def split_beta)
  have "fetch_saved \<lparr>ae_get = stored_reply, ae_login = Unreachable\<rparr> ''web'' =
      (if trim_space (cd_private_key sample_stored) = [] then Inl (CliError ''saved credential has no private key'') else Inr (saved_of sample_stored))"
    by (rule saved_credential_fetched [OF b r paths(1) _ who v l' ok m i(1,2) r paths(1) _ who v g' sample_stored_storable a a])
      (simp_all only: paths)
  with i(3) show ?thesis by simp
qed



text \<open>The inputs of a request that draws nothing.\<close>

definition quiet_inputs :: inputs where
  "quiet_inputs = sample_inputs\<lparr>in_rnd := None\<rparr>"

theorem client_session_authenticates_witness:
  "who_asks sample_server_env sample_inputs (after_all sample_server_env (snd server_login)
       [Served quiet_inputs (sample_api None ''POST'' ''/api/logout'' []), Cleaned 0])
     (sample_api (read_cookie cookie_name (attach_cookies 5 sample_base
       (set_cookies 0 (api_url sample_base ''/api/login'') (rs_cookies (fst server_login)) []))) ''GET'' ''/api/ws/ssh'' []) \<noteq> None"
proof -
  let ?r1 = "sample_api None ''POST'' ''/api/login'' sample_login_body"
  let ?jar = "set_cookies 0 (api_url sample_base ''/api/login'') (rs_cookies (fst server_login)) []"
  let ?r2 = "sample_api (read_cookie cookie_name (attach_cookies 5 sample_base ?jar)) ''GET'' ''/api/ws/ssh'' []"
  have c: "crypto_laws (we_crypto (se_ws sample_server_env))" using sample_crypto_laws by (simp add: sample_server_env_def sample_ws_def)
  have s: "serve sample_server_env sample_inputs sample_server ?r1 = (fst server_login, snd server_login)" by (simp add: server_login_def)
  have r: "route (ar_method ?r1) (ar_path ?r1) = Login" using server_routes by (simp add: sample_api_def)
  have ck: "rs_cookies (fst server_login) = [server_cookie]" using server_login_ok by simp
  have rnd: "in_rnd sample_inputs = Some sample_token" "length sample_token = 32" by (simp_all add: sample_inputs_def sample_token_def)
  have m: "ar_body ?r1 = login_body ''admin'' ''pw''" by (simp add: sample_api_def sample_login_body_def login_body_def)
  have l: "length (login_body ''admin'' ''pw'') \<le> 4096" by code_simp
  have b: "ur_scheme sample_base \<in> {''http'', ''https''}" "ur_path sample_base = [] \<or> has_prefix (ur_path sample_base) ''/''"
    "ur_scheme sample_base = ''https''" by (simp_all add: sample_base_def)
  have a: "0 < ck_max_age server_cookie" by code_simp
  have t: "(0::int) \<le> 5" "5 < 0 + ck_max_age server_cookie * second" using a by simp_all
  have h: "hr_cookie ?r2 = read_cookie cookie_name (attach_cookies 5 sample_base ?jar)" by (simp add: sample_api_def)
  have n: "in_now sample_inputs \<le> ck_expires server_cookie" using server_login_ok by (simp add: sample_inputs_def)
  have e: "list_all (spares sample_server_env (hd_auth (sr_handler sample_server)) (b64_encode sample_token) (ck_expires server_cookie))
      [Served quiet_inputs (sample_api None ''POST'' ''/api/logout'' []), Cleaned 0]"
    using n by (simp add: quiet_inputs_def sample_api_def sample_inputs_def counts_only_def same_but_counts_def)
  from client_session_authenticates [OF c s r ck rnd m l b(1,2) refl a t h n e] b(3) show ?thesis by blast
qed

end
